(* ===== verification/Prelude.thy ===== *)
theory Prelude
  imports Main "HOL-Library.Word"
begin

text \<open>
  Shared vocabulary of the development: the machine integer types of the C++ sources, the two
  ways in which the sources test a bit mask, the character classes of the C library, and the
  generic list lemmas that the components use.

  Bit masks are words. A flag is written \<open>push_bit n 1\<close>, as the sources write \<open>1 << n\<close>, and the
  collection \<open>flag_bits\<close> turns every test of a mask against a flag into a statement about one
  bit, on which the simplifier decides by itself.
\<close>

unbundle bit_operations_syntax

type_synonym u8 = "8 word"
type_synonym u16 = "16 word"
type_synonym u32 = "32 word"
type_synonym u64 = "64 word"

named_theorems flag_bits \<open>tests of a mask against a flag, as statements about bits\<close>
named_theorems flag_bit \<open>the one bit of a flag\<close>
named_theorems flag_defs \<open>the definitions of the flag constants\<close>

section \<open>Bit masks\<close>

text \<open>The condition \<open>mask & flags\<close> of an \<open>if\<close>: some bit of \<open>flags\<close> is set in the mask.\<close>

definition any_bit :: "'a::len word \<Rightarrow> 'a word \<Rightarrow> bool" where
  "any_bit x flags \<longleftrightarrow> x AND flags \<noteq> 0"

lemma any_bit_push:
  "any_bit x (push_bit n 1) \<longleftrightarrow> bit x n"
proof -
  have "x AND push_bit n 1 = (if bit x n then push_bit n 1 else 0)"
    by (rule bit_eqI) (auto simp: bit_simps)
  moreover have "bit x n \<Longrightarrow> n < LENGTH('a)"
    by (rule bit_imp_le_length)
  ultimately show ?thesis
    by (auto simp: any_bit_def push_bit_eq_0_iff)
qed

lemma any_bit_or [flag_bits]: "any_bit x (a OR b) \<longleftrightarrow> any_bit x a \<or> any_bit x b"
  by (auto simp: any_bit_def bit_eq_iff bit_simps)

lemma any_bit_zero [simp]: "\<not> any_bit x 0" "\<not> any_bit 0 x"
  by (simp_all add: any_bit_def)

text \<open>The condition \<open>(mask & flags) == flags\<close>: every bit of \<open>flags\<close> is set in the mask.\<close>

definition all_bits :: "'a::len word \<Rightarrow> 'a word \<Rightarrow> bool" where
  "all_bits x flags \<longleftrightarrow> x AND flags = flags"

lemma all_bits_push:
  "n < LENGTH('a) \<Longrightarrow> all_bits (x :: 'a::len word) (push_bit n 1) \<longleftrightarrow> bit x n"
proof -
  assume n: "n < LENGTH('a)"
  have "x AND push_bit n 1 = (if bit x n then push_bit n 1 else 0)"
    by (rule bit_eqI) (auto simp: bit_simps)
  with n show ?thesis
    by (auto simp: all_bits_def push_bit_eq_0_iff)
qed

lemma bit_flag: "k < LENGTH('a) \<Longrightarrow> bit (push_bit k 1 :: 'a::len word) n \<longleftrightarrow> n = k"
  by (auto simp: bit_simps)

lemma all_bits_zero [simp]: "all_bits x 0"
  by (simp add: all_bits_def)

text \<open>
  A mask whose bits lie among those of another. The sources use it as the range of a result:
  a classifier returns only flags of a known set.
\<close>

definition mask_within :: "'a::len word \<Rightarrow> 'a word \<Rightarrow> bool" where
  "mask_within x allowed \<longleftrightarrow> x AND NOT allowed = 0"

lemma mask_within_iff: "mask_within x a \<longleftrightarrow> (\<forall>n. bit x n \<longrightarrow> bit a n)"
proof -
  have "bit x n \<Longrightarrow> n < LENGTH('a)" for n
    by (rule bit_imp_le_length)
  then show ?thesis
    by (auto simp: mask_within_def bit_eq_iff bit_simps)
qed

lemma mask_within_or [simp]: "mask_within (x OR y) a \<longleftrightarrow> mask_within x a \<and> mask_within y a"
  by (auto simp: mask_within_iff bit_simps)

lemma mask_within_zero [simp]: "mask_within 0 a"
  by (simp add: mask_within_def)

section \<open>Characters\<close>

text \<open>
  \<open>isspace\<close>, \<open>isalpha\<close> and \<open>isdigit\<close> of the C library in the C locale, in which the
  program runs: it never calls \<open>setlocale\<close>. Bytes above 127 belong to none of the classes.
\<close>

abbreviation ccode :: "char \<Rightarrow> nat" where
  "ccode \<equiv> of_char"

definition isspace :: "char \<Rightarrow> bool" where
  "isspace c \<longleftrightarrow> ccode c = 32 \<or> (9 \<le> ccode c \<and> ccode c \<le> 13)"

definition isupper :: "char \<Rightarrow> bool" where
  "isupper c \<longleftrightarrow> 65 \<le> ccode c \<and> ccode c \<le> 90"

definition islower :: "char \<Rightarrow> bool" where
  "islower c \<longleftrightarrow> 97 \<le> ccode c \<and> ccode c \<le> 122"

definition isalpha :: "char \<Rightarrow> bool" where
  "isalpha c \<longleftrightarrow> isupper c \<or> islower c"

definition isdigit :: "char \<Rightarrow> bool" where
  "isdigit c \<longleftrightarrow> 48 \<le> ccode c \<and> ccode c \<le> 57"

lemmas char_classes = isspace_def isupper_def islower_def isalpha_def isdigit_def

section \<open>Lists\<close>

lemma dropWhile_length_le [simp]: "length (dropWhile P xs) \<le> length xs"
  by (rule length_dropWhile_le)

lemma find_Some_iff_first:
  "find P xs = Some x \<Longrightarrow> x \<in> set xs \<and> P x"
  by (auto simp: find_Some_iff)

section \<open>Machines with an invariant\<close>

text \<open>
  The contract of a component whose operations are steps of a machine: an invariant that the
  initial states satisfy and that every step keeps, for every input. It then holds after every
  run, and so does every consequence of it.
\<close>

locale invariant_machine =
  fixes step :: "'s \<Rightarrow> 'e \<Rightarrow> 's"
    and init :: "'s \<Rightarrow> bool"
    and inv :: "'s \<Rightarrow> bool"
  assumes inv_init: "init s \<Longrightarrow> inv s"
    and inv_step: "inv s \<Longrightarrow> inv (step s e)"
begin

lemma inv_foldl: "inv s \<Longrightarrow> inv (foldl step s es)"
  by (induction es arbitrary: s) (simp_all add: inv_step)

lemma inv_run: "init s \<Longrightarrow> inv (foldl step s es)"
  by (rule inv_foldl [OF inv_init])

end

text \<open>
  A machine that implements a more abstract one: on states that satisfy the invariant, a step
  of the machine is the step of the abstract machine on the abstracted state and event.
\<close>

locale simulation = invariant_machine step init inv
  for step :: "'s \<Rightarrow> 'e \<Rightarrow> 's" and init inv +
  fixes abs :: "'s \<Rightarrow> 'a" and astep :: "'a \<Rightarrow> 'b \<Rightarrow> 'a" and ev :: "'e \<Rightarrow> 'b"
  assumes simulates: "inv s \<Longrightarrow> abs (step s e) = astep (abs s) (ev e)"
begin

lemma abs_foldl: "inv s \<Longrightarrow> abs (foldl step s es) = foldl astep (abs s) (map ev es)"
  by (induction es arbitrary: s) (simp_all add: simulates inv_step)

end

end
