(* ===== verification/Custom_Parser.thy ===== *)
theory Custom_Parser
  imports Prelude "HOL-Library.Sublist"
begin

text \<open>
  The base class \<open>CustomParser\<close> (\<open>include/maxscale/protocol/mariadb/customparser.hh\<close>) and
  the routine \<open>mariadb::bypass_whitespace\<close> it calls
  (\<open>server/modules/protocol/MariaDB/mariadb_common.cc\<close>).

  The parser holds a cursor \<open>m_pI\<close> into a buffer that ends at \<open>m_pEnd\<close> and only moves it
  forward. The model keeps the text between the two pointers: the position is the list of the
  characters still to be read, \<open>m_pI == m_pEnd\<close> is the empty list, and advancing the cursor
  drops a prefix. An operation that moves the cursor returns the new rest of the text.
\<close>

section \<open>Character tests\<close>

definition is_alpha :: "char \<Rightarrow> bool" where
  "is_alpha c \<longleftrightarrow> (65 \<le> ccode c \<and> ccode c \<le> 90) \<or> (97 \<le> ccode c \<and> ccode c \<le> 122)"

definition is_number :: "char \<Rightarrow> bool" where
  "is_number c \<longleftrightarrow> 48 \<le> ccode c \<and> ccode c \<le> 57"

definition toupper :: "char \<Rightarrow> char" where
  "toupper c = (if 97 \<le> ccode c \<and> ccode c \<le> 122 then char_of (ccode c - 32) else c)"

text \<open>The caller passes an upper case letter, as the source asserts.\<close>

definition is_next_alpha :: "char \<Rightarrow> nat \<Rightarrow> string \<Rightarrow> bool" where
  "is_next_alpha uc offset s \<longleftrightarrow>
     offset < length s \<and> (s ! offset = uc \<or> s ! offset = char_of (ccode uc + 32))"

definition peek_current_char :: "string \<Rightarrow> char option" where
  "peek_current_char s = (case s of [] \<Rightarrow> None | c # _ \<Rightarrow> Some c)"

definition peek_next_char :: "string \<Rightarrow> char option" where
  "peek_next_char s = (if 1 < length s then Some (s ! 1) else None)"

section \<open>Whitespace and comments\<close>

text \<open>The inner loop of a block comment, entered after the opening \<open>/*\<close>.\<close>

fun skip_block_comment :: "string \<Rightarrow> string" where
  "skip_block_comment [] = []"
| "skip_block_comment (c # cs) =
     (if c = CHR ''*'' then
        (case cs of
           [] \<Rightarrow> []
         | d # ds \<Rightarrow> if d = CHR ''/'' then ds else skip_block_comment cs)
      else skip_block_comment cs)"

text \<open>The loop to the end of the line, which also consumes the newline if there is one.\<close>

definition skip_line :: "string \<Rightarrow> string" where
  "skip_line s =
     (case dropWhile (\<lambda>c. c \<noteq> CHR 0x0A) s of [] \<Rightarrow> [] | _ # rest \<Rightarrow> rest)"

lemma skip_block_comment_suffix: "suffix (skip_block_comment s) s"
proof (induction s rule: skip_block_comment.induct)
  case 1
  show ?case by simp
next
  case (2 c cs)
  then show ?case
    by (cases cs) (simp_all add: suffix_ConsI)
qed

lemma skip_line_suffix: "suffix (skip_line s) s"
proof (cases "dropWhile (\<lambda>c. c \<noteq> CHR 0x0A) s")
  case Nil
  then show ?thesis
    by (simp add: skip_line_def del: dropWhile_eq_Nil_conv)
next
  case (Cons c rest)
  then have "suffix (c # rest) s"
    by (metis suffix_dropWhile)
  with Cons show ?thesis
    by (simp add: skip_line_def suffix_ConsD)
qed

lemma skip_block_comment_length: "length (skip_block_comment s) < Suc (Suc (length s))"
  using suffix_length_le [OF skip_block_comment_suffix [of s]] by simp

lemma skip_line_length: "length (skip_line s) < Suc (Suc (Suc (length s)))"
  using suffix_length_le [OF skip_line_suffix [of s]] by simp

text \<open>
  The outer loop. A comment that starts with \<open>#\<close> leaves the loop when its line has been
  skipped, the other two kinds continue it.
\<close>

function bypass_whitespace :: "string \<Rightarrow> string" where
  "bypass_whitespace s =
     (case s of
        [] \<Rightarrow> []
      | c # cs \<Rightarrow>
          if isspace c then bypass_whitespace cs
          else if c = CHR ''/'' then
            (case cs of
               [] \<Rightarrow> s
             | d # ds \<Rightarrow> if d = CHR ''*'' then bypass_whitespace (skip_block_comment ds) else s)
          else if c = CHR ''-'' then
            (case cs of
               d # e # es \<Rightarrow>
                 if d = CHR ''-'' \<and> isspace e then bypass_whitespace (skip_line es) else s
             | _ \<Rightarrow> s)
          else if c = CHR ''#'' then skip_line cs
          else s)"
  by pat_completeness auto
termination
  by (relation "measure length")
    (auto simp del: length_greater_0_conv intro: skip_block_comment_length skip_line_length)

declare bypass_whitespace.simps [simp del]

text \<open>The loop's branches as separate equations.\<close>

lemma bypass_whitespace_Nil [simp]: "bypass_whitespace [] = []"
  by (simp add: bypass_whitespace.simps)

lemma bypass_whitespace_space [simp]:
  "isspace c \<Longrightarrow> bypass_whitespace (c # s) = bypass_whitespace s"
  by (simp add: bypass_whitespace.simps [of "c # s"])

lemma bypass_whitespace_block [simp]:
  "bypass_whitespace (CHR ''/'' # CHR ''*'' # s) = bypass_whitespace (skip_block_comment s)"
  by (simp add: bypass_whitespace.simps [of "CHR ''/'' # _"] isspace_def)

lemma bypass_whitespace_line [simp]:
  "isspace c \<Longrightarrow>
     bypass_whitespace (CHR ''-'' # CHR ''-'' # c # s) = bypass_whitespace (skip_line s)"
  by (simp add: bypass_whitespace.simps [of "CHR ''-'' # _"] isspace_def [of "CHR ''-''"])

lemma bypass_whitespace_hash [simp]: "bypass_whitespace (CHR ''#'' # s) = skip_line s"
  by (simp add: bypass_whitespace.simps [of "CHR ''#'' # _"] isspace_def)

text \<open>Where the loop ends: the text starts with something that is no whitespace or comment.\<close>

fun at_stop :: "string \<Rightarrow> bool" where
  "at_stop [] \<longleftrightarrow> True"
| "at_stop (c # s) \<longleftrightarrow>
     \<not> isspace c \<and> c \<noteq> CHR ''#'' \<and>
     \<not> (c = CHR ''/'' \<and> s \<noteq> [] \<and> hd s = CHR ''*'') \<and>
     \<not> (c = CHR ''-'' \<and> 1 < length s \<and> hd s = CHR ''-'' \<and> isspace (s ! 1))"

lemma bypass_whitespace_stop: "at_stop s \<Longrightarrow> bypass_whitespace s = s"
proof (induction s rule: at_stop.induct)
  case (2 c s)
  then show ?case
    by (cases s; cases "tl s") (auto simp: bypass_whitespace.simps [of "c # _"])
qed simp

lemma bypass_whitespace_induct [case_names Space Block Line Hash Stop]:
  assumes space: "\<And>c s. isspace c \<Longrightarrow> P s \<Longrightarrow> P (c # s)"
    and block: "\<And>s. P (skip_block_comment s) \<Longrightarrow> P (CHR ''/'' # CHR ''*'' # s)"
    and line: "\<And>c s. isspace c \<Longrightarrow> P (skip_line s) \<Longrightarrow> P (CHR ''-'' # CHR ''-'' # c # s)"
    and hash: "\<And>s. P (CHR ''#'' # s)"
    and stop: "\<And>s. at_stop s \<Longrightarrow> P s"
  shows "P s"
proof (induction s rule: length_induct)
  case (1 s)
  show ?case
  proof (cases "at_stop s")
    case True
    then show ?thesis by (rule stop)
  next
    case False
    then obtain c r where s: "s = c # r"
      by (cases s) auto
    with False consider "isspace c" | "c = CHR ''#''"
      | t where "c = CHR ''/''" "r = CHR ''*'' # t"
      | e t where "c = CHR ''-''" "r = CHR ''-'' # e # t" "isspace e"
      by (cases r; cases "tl r") auto
    then show ?thesis
      by cases (use 1 s in \<open>auto intro!: space block line hash
        simp: skip_block_comment_length skip_line_length\<close>)
  qed
qed

lemma bypass_whitespace_suffix: "suffix (bypass_whitespace s) s"
proof (induction s rule: bypass_whitespace_induct)
  case (Block s)
  then show ?case
    using skip_block_comment_suffix [of s] by (auto intro: suffix_ConsI suffix_order.trans)
next
  case (Line c s)
  then show ?case
    using skip_line_suffix [of s] by (auto intro: suffix_ConsI suffix_order.trans)
next
  case (Hash s)
  show ?case by (simp add: skip_line_suffix suffix_ConsI)
qed (simp_all add: suffix_ConsI bypass_whitespace_stop)

lemma bypass_whitespace_length: "length (bypass_whitespace s) \<le> length s"
  by (rule suffix_length_le [OF bypass_whitespace_suffix])

lemma bypass_whitespace_spaces:
  "list_all isspace ws \<Longrightarrow> bypass_whitespace (ws @ s) = bypass_whitespace s"
  by (induction ws) auto

section \<open>Letter case\<close>

text \<open>
  Upper-casing the text changes nothing that the routines above look at. The lemmas are stated
  as homomorphisms, so that a parser built from these routines inherits them.
\<close>

abbreviation upcase :: "string \<Rightarrow> string" where
  "upcase \<equiv> map toupper"

named_theorems case_folding \<open>upper-casing commutes with the scanning routines\<close>

lemma char_eq_code: "c = d \<longleftrightarrow> ccode c = ccode d"
  by simp

lemma ccode_toupper: "ccode (toupper c) = (if islower c then ccode c - 32 else ccode c)"
  by (auto simp: toupper_def islower_def)

lemma isspace_toupper [case_folding]: "isspace (toupper c) = isspace c"
  by (auto simp: isspace_def ccode_toupper islower_def)

lemma isalpha_toupper [case_folding]: "isalpha (toupper c) = isalpha c"
  by (auto simp: isalpha_def isupper_def islower_def ccode_toupper)

lemma isdigit_toupper [case_folding]: "isdigit (toupper c) = isdigit c"
  by (auto simp: isdigit_def islower_def ccode_toupper)

lemma toupper_idem [case_folding]: "toupper (toupper c) = toupper c"
  by (simp only: char_eq_code ccode_toupper) (auto simp: islower_def ccode_toupper)

lemma toupper_eq_nonalpha: "\<not> isalpha d \<Longrightarrow> toupper c = d \<longleftrightarrow> c = d"
  by (simp only: char_eq_code ccode_toupper) (auto simp: isalpha_def isupper_def islower_def)

lemma toupper_symbol [case_folding]:
  "toupper c = CHR ''*'' \<longleftrightarrow> c = CHR ''*''" "toupper c = CHR ''/'' \<longleftrightarrow> c = CHR ''/''"
  "toupper c = CHR ''-'' \<longleftrightarrow> c = CHR ''-''" "toupper c = CHR ''#'' \<longleftrightarrow> c = CHR ''#''"
  "toupper c = CHR 0x0A \<longleftrightarrow> c = CHR 0x0A" "toupper c = CHR '';'' \<longleftrightarrow> c = CHR '';''"
  "toupper c = CHR ''@'' \<longleftrightarrow> c = CHR ''@''" "toupper c = CHR '','' \<longleftrightarrow> c = CHR '',''"
  "toupper c = CHR ''.'' \<longleftrightarrow> c = CHR ''.''" "toupper c = CHR ''='' \<longleftrightarrow> c = CHR ''=''"
  "toupper c = CHR ''0'' \<longleftrightarrow> c = CHR ''0''" "toupper c = CHR ''1'' \<longleftrightarrow> c = CHR ''1''"
  by (rule toupper_eq_nonalpha, simp add: isalpha_def isupper_def islower_def)+

lemma toupper_eq_upper:
  "isupper u \<Longrightarrow> toupper c = u \<longleftrightarrow> c = u \<or> c = char_of (ccode u + 32)"
  by (simp only: char_eq_code ccode_toupper) (auto simp: isupper_def islower_def)

lemma skip_block_comment_upcase [case_folding]:
  "skip_block_comment (upcase s) = upcase (skip_block_comment s)"
proof (induction s rule: skip_block_comment.induct)
  case (2 c cs)
  then show ?case by (cases cs) (simp_all add: case_folding)
qed simp

lemma skip_line_upcase [case_folding]: "skip_line (upcase s) = upcase (skip_line s)"
  by (cases "dropWhile (\<lambda>c. c \<noteq> CHR 0x0A) s")
    (simp_all add: skip_line_def dropWhile_map comp_def case_folding del: dropWhile_eq_Nil_conv)

lemma at_stop_upcase [case_folding]: "at_stop (upcase s) = at_stop s"
proof (cases s rule: at_stop.cases)
  case (2 c r)
  then show ?thesis by (cases r) (auto simp: case_folding)
qed simp

lemma toupper_nonlower: "\<not> islower c \<Longrightarrow> toupper c = c"
  by (auto simp: toupper_def islower_def)

lemma bypass_whitespace_upcase [case_folding]:
  "bypass_whitespace (upcase s) = upcase (bypass_whitespace s)"
proof (induction s rule: bypass_whitespace_induct)
  case (Stop s)
  then show ?case
    by (simp add: bypass_whitespace_stop case_folding)
qed (simp_all add: case_folding toupper_nonlower islower_def)

lemma is_next_alpha_toupper:
  "isupper u \<Longrightarrow> is_next_alpha u n s \<longleftrightarrow> n < length s \<and> toupper (s ! n) = u"
  by (auto simp: is_next_alpha_def toupper_eq_upper)

lemma is_next_alpha_upcase [case_folding]:
  "isupper u \<Longrightarrow> is_next_alpha u n (upcase s) = is_next_alpha u n s"
  by (auto simp: is_next_alpha_toupper case_folding)

section \<open>The contract of a scanner\<close>

text \<open>
  What a parser derived from \<open>CustomParser\<close> expects of its \<open>next_token\<close>: a token that is
  not final consumes text, leading whitespace does not matter, and letter case does not matter.
\<close>

locale token_scanner =
  fixes scan :: "string \<Rightarrow> 't \<times> string"
    and final :: "'t \<Rightarrow> bool"
  assumes scan_shrinks: "scan s = (t, r) \<Longrightarrow> \<not> final t \<Longrightarrow> length r < length s"
    and scan_upcase: "scan (upcase s) = apsnd upcase (scan s)"
    and scan_spaces: "list_all isspace ws \<Longrightarrow> scan (ws @ s) = scan s"
begin

lemma rest_upcase: "((snd \<circ> scan) ^^ n) (upcase s) = upcase (((snd \<circ> scan) ^^ n) s)"
  by (induction n) (simp_all add: scan_upcase)

lemma nth_token_upcase:
  "fst (scan (((snd \<circ> scan) ^^ n) (upcase s))) = fst (scan (((snd \<circ> scan) ^^ n) s))"
  by (simp add: rest_upcase scan_upcase)

lemma reaches_final: "\<exists>n \<le> length s. final (fst (scan (((snd \<circ> scan) ^^ n) s)))"
proof (induction s rule: length_induct)
  case (1 s)
  obtain t r where scan: "scan s = (t, r)"
    by force
  show ?case
  proof (cases "final t")
    case True
    with scan show ?thesis by (intro exI [of _ 0]) simp
  next
    case False
    with scan have less: "length r < length s"
      by (rule scan_shrinks)
    with 1 obtain n where "n \<le> length r" "final (fst (scan (((snd \<circ> scan) ^^ n) r)))"
      by blast
    moreover have "((snd \<circ> scan) ^^ Suc n) s = ((snd \<circ> scan) ^^ n) r"
      by (simp only: funpow_Suc_right comp_apply scan snd_conv)
    ultimately show ?thesis
      using less by (metis Suc_leI le_less_trans)
  qed
qed

end

end
