(* ===== verification/Sql_Types.thy ===== *)
theory Sql_Types
  imports Prelude
begin

text \<open>
  The statement type bits of \<open>mxs::sql::Type\<close> and the mask test
  \<open>Parser::type_mask_contains\<close> (\<open>include/maxscale/parser.hh\<close>). The bits are what the
  parsers report and what transaction tracking and routing decide on.
\<close>

definition TYPE_UNKNOWN :: u32 where [flag_defs]: "TYPE_UNKNOWN = 0"
definition TYPE_READ :: u32 where [flag_defs]: "TYPE_READ = push_bit 1 1"
definition TYPE_WRITE :: u32 where [flag_defs]: "TYPE_WRITE = push_bit 2 1"
definition TYPE_MASTER_READ :: u32 where [flag_defs]: "TYPE_MASTER_READ = push_bit 3 1"
definition TYPE_SESSION_WRITE :: u32 where [flag_defs]: "TYPE_SESSION_WRITE = push_bit 4 1"
definition TYPE_USERVAR_WRITE :: u32 where [flag_defs]: "TYPE_USERVAR_WRITE = push_bit 5 1"
definition TYPE_USERVAR_READ :: u32 where [flag_defs]: "TYPE_USERVAR_READ = push_bit 6 1"
definition TYPE_SYSVAR_READ :: u32 where [flag_defs]: "TYPE_SYSVAR_READ = push_bit 7 1"
definition TYPE_GSYSVAR_READ :: u32 where [flag_defs]: "TYPE_GSYSVAR_READ = push_bit 8 1"
definition TYPE_GSYSVAR_WRITE :: u32 where [flag_defs]: "TYPE_GSYSVAR_WRITE = push_bit 9 1"
definition TYPE_BEGIN_TRX :: u32 where [flag_defs]: "TYPE_BEGIN_TRX = push_bit 10 1"
definition TYPE_ENABLE_AUTOCOMMIT :: u32 where
  [flag_defs]: "TYPE_ENABLE_AUTOCOMMIT = push_bit 11 1"
definition TYPE_DISABLE_AUTOCOMMIT :: u32 where
  [flag_defs]: "TYPE_DISABLE_AUTOCOMMIT = push_bit 12 1"
definition TYPE_ROLLBACK :: u32 where [flag_defs]: "TYPE_ROLLBACK = push_bit 13 1"
definition TYPE_COMMIT :: u32 where [flag_defs]: "TYPE_COMMIT = push_bit 14 1"
definition TYPE_PREPARE_NAMED_STMT :: u32 where
  [flag_defs]: "TYPE_PREPARE_NAMED_STMT = push_bit 15 1"
definition TYPE_PREPARE_STMT :: u32 where [flag_defs]: "TYPE_PREPARE_STMT = push_bit 16 1"
definition TYPE_EXEC_STMT :: u32 where [flag_defs]: "TYPE_EXEC_STMT = push_bit 17 1"
definition TYPE_CREATE_TMP_TABLE :: u32 where
  [flag_defs]: "TYPE_CREATE_TMP_TABLE = push_bit 18 1"
definition TYPE_DEALLOC_PREPARE :: u32 where
  [flag_defs]: "TYPE_DEALLOC_PREPARE = push_bit 22 1"
definition TYPE_READONLY :: u32 where [flag_defs]: "TYPE_READONLY = push_bit 23 1"
definition TYPE_READWRITE :: u32 where [flag_defs]: "TYPE_READWRITE = push_bit 24 1"
definition TYPE_NEXT_TRX :: u32 where [flag_defs]: "TYPE_NEXT_TRX = push_bit 25 1"

definition type_mask_contains :: "u32 \<Rightarrow> u32 \<Rightarrow> bool" where
  "type_mask_contains type_mask type \<longleftrightarrow> all_bits type_mask type"

text \<open>A mask that contains every flag passes any test, a test for the zero flag always passes.\<close>

lemma type_mask_contains_unknown [simp]: "type_mask_contains m TYPE_UNKNOWN"
  by (simp add: type_mask_contains_def TYPE_UNKNOWN_def)

text \<open>What each flag means for the two mask tests and for a single bit.\<close>

lemma type_mask_contains_bit [flag_bits]:
  "type_mask_contains x TYPE_READ \<longleftrightarrow> bit x 1"
  "type_mask_contains x TYPE_WRITE \<longleftrightarrow> bit x 2"
  "type_mask_contains x TYPE_MASTER_READ \<longleftrightarrow> bit x 3"
  "type_mask_contains x TYPE_SESSION_WRITE \<longleftrightarrow> bit x 4"
  "type_mask_contains x TYPE_USERVAR_WRITE \<longleftrightarrow> bit x 5"
  "type_mask_contains x TYPE_USERVAR_READ \<longleftrightarrow> bit x 6"
  "type_mask_contains x TYPE_SYSVAR_READ \<longleftrightarrow> bit x 7"
  "type_mask_contains x TYPE_GSYSVAR_READ \<longleftrightarrow> bit x 8"
  "type_mask_contains x TYPE_GSYSVAR_WRITE \<longleftrightarrow> bit x 9"
  "type_mask_contains x TYPE_BEGIN_TRX \<longleftrightarrow> bit x 10"
  "type_mask_contains x TYPE_ENABLE_AUTOCOMMIT \<longleftrightarrow> bit x 11"
  "type_mask_contains x TYPE_DISABLE_AUTOCOMMIT \<longleftrightarrow> bit x 12"
  "type_mask_contains x TYPE_ROLLBACK \<longleftrightarrow> bit x 13"
  "type_mask_contains x TYPE_COMMIT \<longleftrightarrow> bit x 14"
  "type_mask_contains x TYPE_PREPARE_NAMED_STMT \<longleftrightarrow> bit x 15"
  "type_mask_contains x TYPE_PREPARE_STMT \<longleftrightarrow> bit x 16"
  "type_mask_contains x TYPE_EXEC_STMT \<longleftrightarrow> bit x 17"
  "type_mask_contains x TYPE_CREATE_TMP_TABLE \<longleftrightarrow> bit x 18"
  "type_mask_contains x TYPE_DEALLOC_PREPARE \<longleftrightarrow> bit x 22"
  "type_mask_contains x TYPE_READONLY \<longleftrightarrow> bit x 23"
  "type_mask_contains x TYPE_READWRITE \<longleftrightarrow> bit x 24"
  "type_mask_contains x TYPE_NEXT_TRX \<longleftrightarrow> bit x 25"
  unfolding type_mask_contains_def flag_defs by (rule all_bits_push, simp)+

lemma any_bit_type [flag_bits]:
  "any_bit x TYPE_READ \<longleftrightarrow> bit x 1"
  "any_bit x TYPE_WRITE \<longleftrightarrow> bit x 2"
  "any_bit x TYPE_MASTER_READ \<longleftrightarrow> bit x 3"
  "any_bit x TYPE_SESSION_WRITE \<longleftrightarrow> bit x 4"
  "any_bit x TYPE_USERVAR_WRITE \<longleftrightarrow> bit x 5"
  "any_bit x TYPE_USERVAR_READ \<longleftrightarrow> bit x 6"
  "any_bit x TYPE_SYSVAR_READ \<longleftrightarrow> bit x 7"
  "any_bit x TYPE_GSYSVAR_READ \<longleftrightarrow> bit x 8"
  "any_bit x TYPE_GSYSVAR_WRITE \<longleftrightarrow> bit x 9"
  "any_bit x TYPE_BEGIN_TRX \<longleftrightarrow> bit x 10"
  "any_bit x TYPE_ENABLE_AUTOCOMMIT \<longleftrightarrow> bit x 11"
  "any_bit x TYPE_DISABLE_AUTOCOMMIT \<longleftrightarrow> bit x 12"
  "any_bit x TYPE_ROLLBACK \<longleftrightarrow> bit x 13"
  "any_bit x TYPE_COMMIT \<longleftrightarrow> bit x 14"
  "any_bit x TYPE_PREPARE_NAMED_STMT \<longleftrightarrow> bit x 15"
  "any_bit x TYPE_PREPARE_STMT \<longleftrightarrow> bit x 16"
  "any_bit x TYPE_EXEC_STMT \<longleftrightarrow> bit x 17"
  "any_bit x TYPE_CREATE_TMP_TABLE \<longleftrightarrow> bit x 18"
  "any_bit x TYPE_DEALLOC_PREPARE \<longleftrightarrow> bit x 22"
  "any_bit x TYPE_READONLY \<longleftrightarrow> bit x 23"
  "any_bit x TYPE_READWRITE \<longleftrightarrow> bit x 24"
  "any_bit x TYPE_NEXT_TRX \<longleftrightarrow> bit x 25"
  unfolding flag_defs by (rule any_bit_push)+

lemma bit_type [flag_bit]:
  "bit TYPE_READ n \<longleftrightarrow> n = 1"
  "bit TYPE_WRITE n \<longleftrightarrow> n = 2"
  "bit TYPE_MASTER_READ n \<longleftrightarrow> n = 3"
  "bit TYPE_SESSION_WRITE n \<longleftrightarrow> n = 4"
  "bit TYPE_USERVAR_WRITE n \<longleftrightarrow> n = 5"
  "bit TYPE_USERVAR_READ n \<longleftrightarrow> n = 6"
  "bit TYPE_SYSVAR_READ n \<longleftrightarrow> n = 7"
  "bit TYPE_GSYSVAR_READ n \<longleftrightarrow> n = 8"
  "bit TYPE_GSYSVAR_WRITE n \<longleftrightarrow> n = 9"
  "bit TYPE_BEGIN_TRX n \<longleftrightarrow> n = 10"
  "bit TYPE_ENABLE_AUTOCOMMIT n \<longleftrightarrow> n = 11"
  "bit TYPE_DISABLE_AUTOCOMMIT n \<longleftrightarrow> n = 12"
  "bit TYPE_ROLLBACK n \<longleftrightarrow> n = 13"
  "bit TYPE_COMMIT n \<longleftrightarrow> n = 14"
  "bit TYPE_PREPARE_NAMED_STMT n \<longleftrightarrow> n = 15"
  "bit TYPE_PREPARE_STMT n \<longleftrightarrow> n = 16"
  "bit TYPE_EXEC_STMT n \<longleftrightarrow> n = 17"
  "bit TYPE_CREATE_TMP_TABLE n \<longleftrightarrow> n = 18"
  "bit TYPE_DEALLOC_PREPARE n \<longleftrightarrow> n = 22"
  "bit TYPE_READONLY n \<longleftrightarrow> n = 23"
  "bit TYPE_READWRITE n \<longleftrightarrow> n = 24"
  "bit TYPE_NEXT_TRX n \<longleftrightarrow> n = 25"
  unfolding flag_defs by (rule bit_flag, simp)+

text \<open>The masks of statements that start or end a transaction.\<close>

definition trx_boundary :: "u32 \<Rightarrow> bool" where
  "trx_boundary m \<longleftrightarrow> any_bit m (TYPE_BEGIN_TRX OR TYPE_COMMIT OR TYPE_ROLLBACK)"

lemma trx_boundary_bits: "trx_boundary m \<longleftrightarrow> bit m 10 \<or> bit m 13 \<or> bit m 14"
  by (auto simp: trx_boundary_def flag_bits)

end
