(* ===== verification/Trx_Boundary_Parser.thy ===== *)
theory Trx_Boundary_Parser
  imports Custom_Parser Sql_Types
begin

text \<open>
  \<open>TrxBoundaryParser\<close> (\<open>include/maxscale/protocol/mariadb/trxboundaryparser.hh\<close>): the
  hand-written parser that recognises the statements that start or end a transaction or change
  the autocommit mode, and returns their type mask, 0 for any other statement.

  A parse routine takes the mask built so far and the rest of the text, and returns the new
  mask and rest. The parameter \<open>token_required_t\<close> of the source only selects a debugging
  message and is left out.
\<close>

section \<open>Tokens\<close>

datatype token =
    TOK_AUTOCOMMIT | TOK_BEGIN | TOK_COMMA | TOK_COMMIT | TOK_COMMITTED | TOK_CONSISTENT
  | TOK_DOT | TOK_END | TOK_EQ | TOK_FALSE | TOK_GLOBAL | TOK_GLOBAL_VAR | TOK_ISOLATION
  | TOK_LEVEL | TOK_ONE | TOK_ONLY | TOK_READ | TOK_REPEATABLE | TOK_ROLLBACK | TOK_SESSION
  | TOK_SESSION_VAR | TOK_SET | TOK_SERIALIZABLE | TOK_SNAPSHOT | TOK_START | TOK_TRANSACTION
  | TOK_TRUE | TOK_UNCOMMITTED | TOK_WITH | TOK_WORK | TOK_WRITE | TOK_XA | TOK_ZERO
  | PARSER_UNKNOWN_TOKEN | PARSER_EXHAUSTED

text \<open>
  The comparison loop of \<open>expect_token\<close>: the rest of the text after the word, if all of
  the word was matched.
\<close>

fun match_word :: "string \<Rightarrow> string \<Rightarrow> string option" where
  "match_word s [] = Some s"
| "match_word [] (w # ws) = None"
| "match_word (c # s) (w # ws) = (if toupper c = w then match_word s ws else None)"

definition expect_token :: "string \<Rightarrow> token \<Rightarrow> string \<Rightarrow> token \<times> string" where
  "expect_token word token s =
     (case match_word s word of
        None \<Rightarrow> (PARSER_UNKNOWN_TOKEN, s)
      | Some rest \<Rightarrow>
          if rest = [] \<or> \<not> isalpha (hd rest) then (token, rest) else (PARSER_UNKNOWN_TOKEN, s))"

text \<open>The branches of the switch in \<open>next_token\<close> that look at more than one character.\<close>

definition scan_at :: "string \<Rightarrow> token \<times> string" where
  "scan_at s =
     (if is_next_alpha CHR ''A'' 2 s then expect_token ''@@AUTOCOMMIT'' TOK_AUTOCOMMIT s
      else if is_next_alpha CHR ''S'' 2 s then expect_token ''@@SESSION'' TOK_SESSION_VAR s
      else if is_next_alpha CHR ''G'' 2 s then expect_token ''@@GLOBAL'' TOK_GLOBAL_VAR s
      else (PARSER_UNKNOWN_TOKEN, s))"

definition scan_c :: "string \<Rightarrow> token \<times> string" where
  "scan_c s =
     (if is_next_alpha CHR ''O'' 1 s then
        if is_next_alpha CHR ''M'' 2 s then
          (case expect_token ''COMMITTED'' TOK_COMMITTED s of
             (token, rest) \<Rightarrow>
               if token = PARSER_UNKNOWN_TOKEN then expect_token ''COMMIT'' TOK_COMMIT rest
               else (token, rest))
        else if is_next_alpha CHR ''N'' 2 s then expect_token ''CONSISTENT'' TOK_CONSISTENT s
        else (PARSER_UNKNOWN_TOKEN, s)
      else (PARSER_UNKNOWN_TOKEN, s))"

definition scan_digit :: "token \<Rightarrow> string \<Rightarrow> token \<times> string" where
  "scan_digit token s =
     (case peek_next_char s of
        Some c \<Rightarrow> if isdigit c then (PARSER_UNKNOWN_TOKEN, s) else (token, tl s)
      | None \<Rightarrow> (token, tl s))"

definition scan_o :: "string \<Rightarrow> token \<times> string" where
  "scan_o s =
     (if is_next_alpha CHR ''F'' 1 s then expect_token ''OFF'' TOK_ZERO s
      else if is_next_alpha CHR ''N'' 1 s then
        if is_next_alpha CHR ''L'' 2 s then expect_token ''ONLY'' TOK_ONLY s
        else expect_token ''ON'' TOK_ONE s
      else (PARSER_UNKNOWN_TOKEN, s))"

definition scan_r :: "string \<Rightarrow> token \<times> string" where
  "scan_r s =
     (if is_next_alpha CHR ''E'' 1 s then
        if is_next_alpha CHR ''P'' 2 s then expect_token ''REPEATABLE'' TOK_REPEATABLE s
        else expect_token ''READ'' TOK_READ s
      else if is_next_alpha CHR ''O'' 1 s then expect_token ''ROLLBACK'' TOK_ROLLBACK s
      else (PARSER_UNKNOWN_TOKEN, s))"

definition scan_s :: "string \<Rightarrow> token \<times> string" where
  "scan_s s =
     (if is_next_alpha CHR ''E'' 1 s then
        if is_next_alpha CHR ''S'' 2 s then expect_token ''SESSION'' TOK_SESSION s
        else if is_next_alpha CHR ''R'' 2 s then expect_token ''SERIALIZABLE'' TOK_SERIALIZABLE s
        else expect_token ''SET'' TOK_SET s
      else if is_next_alpha CHR ''N'' 1 s then expect_token ''SNAPSHOT'' TOK_SNAPSHOT s
      else if is_next_alpha CHR ''T'' 1 s then expect_token ''START'' TOK_START s
      else (PARSER_UNKNOWN_TOKEN, s))"

definition scan_t :: "string \<Rightarrow> token \<times> string" where
  "scan_t s =
     (if is_next_alpha CHR ''R'' 1 s then
        if is_next_alpha CHR ''A'' 2 s then expect_token ''TRANSACTION'' TOK_TRANSACTION s
        else if is_next_alpha CHR ''U'' 2 s then expect_token ''TRUE'' TOK_TRUE s
        else (PARSER_UNKNOWN_TOKEN, s)
      else (PARSER_UNKNOWN_TOKEN, s))"

definition scan_w :: "string \<Rightarrow> token \<times> string" where
  "scan_w s =
     (if is_next_alpha CHR ''I'' 1 s then expect_token ''WITH'' TOK_WITH s
      else if is_next_alpha CHR ''O'' 1 s then expect_token ''WORK'' TOK_WORK s
      else if is_next_alpha CHR ''R'' 1 s then expect_token ''WRITE'' TOK_WRITE s
      else (PARSER_UNKNOWN_TOKEN, s))"

text \<open>
  The switch itself, on a text that is not empty. The source lists the two cases of a letter,
  \<open>case 'a': case 'A':\<close>, which is the letter's upper case form being \<open>A\<close>.
\<close>

definition scan_token :: "string \<Rightarrow> token \<times> string" where
  "scan_token s =
     (let c = hd s; u = toupper (hd s) in
      if c = CHR ''@'' then scan_at s
      else if u = CHR ''A'' then expect_token ''AUTOCOMMIT'' TOK_AUTOCOMMIT s
      else if u = CHR ''B'' then expect_token ''BEGIN'' TOK_BEGIN s
      else if c = CHR '','' then (TOK_COMMA, tl s)
      else if u = CHR ''C'' then scan_c s
      else if c = CHR ''.'' then (TOK_DOT, tl s)
      else if c = CHR ''='' then (TOK_EQ, tl s)
      else if u = CHR ''E'' then expect_token ''END'' TOK_END s
      else if u = CHR ''F'' then expect_token ''FALSE'' TOK_FALSE s
      else if u = CHR ''G'' then expect_token ''GLOBAL'' TOK_GLOBAL s
      else if c = CHR ''1'' then scan_digit TOK_ONE s
      else if u = CHR ''I'' then expect_token ''ISOLATION'' TOK_ISOLATION s
      else if u = CHR ''L'' then expect_token ''LEVEL'' TOK_LEVEL s
      else if u = CHR ''O'' then scan_o s
      else if u = CHR ''R'' then scan_r s
      else if u = CHR ''S'' then scan_s s
      else if u = CHR ''T'' then scan_t s
      else if u = CHR ''U'' then expect_token ''UNCOMMITTED'' TOK_UNCOMMITTED s
      else if u = CHR ''W'' then scan_w s
      else if u = CHR ''X'' then expect_token ''XA'' TOK_XA s
      else if c = CHR ''0'' then scan_digit TOK_ZERO s
      else (PARSER_UNKNOWN_TOKEN, s))"

text \<open>
  A semicolon ends the statement: whatever follows it is reported in the log but not parsed.
\<close>

definition next_token :: "string \<Rightarrow> token \<times> string" where
  "next_token text =
     (let s = bypass_whitespace text in
      if s = [] then (PARSER_EXHAUSTED, s)
      else if hd s = CHR '';'' then (PARSER_EXHAUSTED, dropWhile isspace (tl s))
      else scan_token s)"

text \<open>The two tokens on which the scanner stands still, and those that consume text.\<close>

definition is_final :: "token \<Rightarrow> bool" where
  "is_final t \<longleftrightarrow> t = PARSER_UNKNOWN_TOKEN \<or> t = PARSER_EXHAUSTED"

lemmas scan_defs = scan_at_def scan_c_def scan_digit_def scan_o_def scan_r_def scan_s_def
  scan_t_def scan_w_def

subsection \<open>A token that is not final consumes text\<close>

lemma match_word_length: "match_word s w = Some r \<Longrightarrow> length s = length w + length r"
  by (induction s w rule: match_word.induct) (auto split: if_splits)

text \<open>
  The shape shared by the scanner and its parts: it stands still on an unknown token, and any
  other token that is not final leaves a shorter text.
\<close>

definition consuming :: "(string \<Rightarrow> token \<times> string) \<Rightarrow> bool" where
  "consuming f \<longleftrightarrow>
     (\<forall>s t r. s \<noteq> [] \<longrightarrow> f s = (t, r) \<longrightarrow>
        (t = PARSER_UNKNOWN_TOKEN \<longrightarrow> r = s) \<and> (\<not> is_final t \<longrightarrow> length r < length s))"

lemma consumingI:
  assumes "\<And>s t r. s \<noteq> [] \<Longrightarrow> f s = (t, r) \<Longrightarrow>
    (t = PARSER_UNKNOWN_TOKEN \<longrightarrow> r = s) \<and> (\<not> is_final t \<longrightarrow> length r < length s)"
  shows "consuming f"
  using assms by (simp add: consuming_def)

lemma consuming_expect_token [simp]:
  "w \<noteq> [] \<Longrightarrow> t \<noteq> PARSER_UNKNOWN_TOKEN \<Longrightarrow> consuming (expect_token w t)"
  by (rule consumingI)
    (auto simp: expect_token_def is_final_def split: option.splits if_splits
      dest!: match_word_length)

lemma consuming_unknown [simp]: "consuming (Pair PARSER_UNKNOWN_TOKEN)"
  by (simp add: consuming_def is_final_def)

lemma consuming_tl [simp]: "t \<noteq> PARSER_UNKNOWN_TOKEN \<Longrightarrow> consuming (\<lambda>s. (t, tl s))"
  by (simp add: consuming_def)

lemma consuming_if [simp]:
  "consuming f \<Longrightarrow> consuming g \<Longrightarrow> consuming (\<lambda>s. if b s then f s else g s)"
  by (simp add: consuming_def)

lemma consuming_scan_digit [simp]: "t \<noteq> PARSER_UNKNOWN_TOKEN \<Longrightarrow> consuming (scan_digit t)"
  by (auto simp: consuming_def scan_digit_def is_final_def split: option.splits if_splits)

lemma consuming_scan_c [simp]: "consuming scan_c"
proof -
  have "consuming (\<lambda>s. case expect_token ''COMMITTED'' TOK_COMMITTED s of
      (t, r) \<Rightarrow> if t = PARSER_UNKNOWN_TOKEN then expect_token ''COMMIT'' TOK_COMMIT r else (t, r))"
    using consuming_expect_token [of "''COMMITTED''" TOK_COMMITTED]
      consuming_expect_token [of "''COMMIT''" TOK_COMMIT]
    by (force simp: consuming_def split: prod.splits if_splits)
  then show ?thesis
    unfolding scan_c_def by simp
qed

lemma consuming_scan_token: "consuming scan_token"
  unfolding scan_token_def Let_def scan_at_def scan_o_def scan_r_def scan_s_def scan_t_def
    scan_w_def
  by (intro consuming_if) simp_all

lemma next_token_length:
  assumes "next_token s = (t, r)" and "\<not> is_final t"
  shows "length r < length s"
proof -
  let ?b = "bypass_whitespace s"
  from assms have "?b \<noteq> []" and "scan_token ?b = (t, r)"
    by (auto simp: next_token_def Let_def is_final_def split: if_splits)
  with assms(2) consuming_scan_token have "length r < length ?b"
    by (auto simp: consuming_def)
  then show ?thesis
    using bypass_whitespace_length [of s] by simp
qed

lemma next_token_shrinks:
  "(t, r) = next_token s \<Longrightarrow> \<not> is_final t \<Longrightarrow> length r < length s"
  using next_token_length [of s t r] by simp

section \<open>Statements\<close>

definition parse_work :: "u32 \<Rightarrow> string \<Rightarrow> u32 \<times> string" where
  "parse_work type_mask s =
     (case next_token s of
        (token, r) \<Rightarrow> if token = PARSER_EXHAUSTED then (type_mask, r) else (0, r))"

definition parse_begin :: "u32 \<Rightarrow> string \<Rightarrow> u32 \<times> string" where
  "parse_begin type_mask s =
     (let type_mask = type_mask OR TYPE_BEGIN_TRX in
      case next_token s of
        (token, r) \<Rightarrow>
          if token = TOK_WORK then parse_work type_mask r
          else if token = PARSER_EXHAUSTED then (type_mask, r)
          else (0, r))"

definition parse_commit :: "u32 \<Rightarrow> string \<Rightarrow> u32 \<times> string" where
  "parse_commit type_mask s =
     (let type_mask = type_mask OR TYPE_COMMIT in
      case next_token s of
        (token, r) \<Rightarrow>
          if token = TOK_WORK then parse_work type_mask r
          else if token = PARSER_EXHAUSTED then (type_mask, r)
          else (0, r))"

definition parse_rollback :: "u32 \<Rightarrow> string \<Rightarrow> u32 \<times> string" where
  "parse_rollback type_mask s =
     (let type_mask = type_mask OR TYPE_ROLLBACK in
      case next_token s of
        (token, r) \<Rightarrow>
          if token = TOK_WORK then parse_work type_mask r
          else if token = PARSER_EXHAUSTED then (type_mask, r)
          else (0, r))"

text \<open>
  \<open>START TRANSACTION\<close> and its characteristics. The routines call each other: a comma after a
  characteristic leads back to \<open>parse_transaction\<close>. Every call on the way has consumed a
  token, so the text gets shorter.
\<close>

function
  parse_transaction :: "u32 \<Rightarrow> string \<Rightarrow> u32 \<times> string"
  and parse_read :: "u32 \<Rightarrow> string \<Rightarrow> u32 \<times> string"
  and parse_only :: "u32 \<Rightarrow> string \<Rightarrow> u32 \<times> string"
  and parse_write :: "u32 \<Rightarrow> string \<Rightarrow> u32 \<times> string"
  and parse_with_consistent_snapshot :: "u32 \<Rightarrow> string \<Rightarrow> u32 \<times> string"
where
  "parse_transaction type_mask s =
     (let type_mask = type_mask OR TYPE_BEGIN_TRX in
      case next_token s of
        (token, r) \<Rightarrow>
          if token = TOK_READ then parse_read type_mask r
          else if token = TOK_WITH then parse_with_consistent_snapshot type_mask r
          else if token = PARSER_EXHAUSTED then (type_mask, r)
          else (0, r))"
| "parse_read type_mask s =
     (case next_token s of
        (token, r) \<Rightarrow>
          if token = TOK_ONLY then parse_only type_mask r
          else if token = TOK_WRITE then parse_write type_mask r
          else (0, r))"
| "parse_only type_mask s =
     (let type_mask = type_mask OR TYPE_READ in
      case next_token s of
        (token, r) \<Rightarrow>
          if token = TOK_COMMA then parse_transaction type_mask r
          else if token = PARSER_EXHAUSTED then (type_mask, r)
          else (0, r))"
| "parse_write type_mask s =
     (let type_mask = type_mask OR TYPE_WRITE in
      case next_token s of
        (token, r) \<Rightarrow>
          if token = TOK_COMMA then parse_transaction type_mask r
          else if token = PARSER_EXHAUSTED then (type_mask, r)
          else (0, r))"
| "parse_with_consistent_snapshot type_mask s =
     (case next_token s of
        (token, r) \<Rightarrow>
          if token = TOK_CONSISTENT then
            (case next_token r of
               (token2, r2) \<Rightarrow>
                 if token2 = TOK_SNAPSHOT then
                   (case next_token r2 of
                      (token3, r3) \<Rightarrow>
                        if token3 = TOK_COMMA then parse_transaction type_mask r3
                        else if token3 = PARSER_EXHAUSTED then (type_mask, r3)
                        else (0, r3))
                 else (type_mask, r2))
          else (type_mask, r))"
  by pat_completeness auto
termination
  by (relation "measure (\<lambda>x. case x of
        Inl (Inl (_, s)) \<Rightarrow> length s
      | Inl (Inr (_, s)) \<Rightarrow> length s
      | Inr (Inl (_, s)) \<Rightarrow> length s
      | Inr (Inr (Inl (_, s))) \<Rightarrow> length s
      | Inr (Inr (Inr (_, s))) \<Rightarrow> length s)")
    (auto simp: is_final_def dest!: next_token_shrinks)

declare parse_transaction.simps [simp del] parse_read.simps [simp del] parse_only.simps [simp del]
  parse_write.simps [simp del] parse_with_consistent_snapshot.simps [simp del]

definition parse_start :: "u32 \<Rightarrow> string \<Rightarrow> u32 \<times> string" where
  "parse_start type_mask s =
     (case next_token s of
        (token, r) \<Rightarrow> if token = TOK_TRANSACTION then parse_transaction type_mask r else (0, r))"

definition parse_set_autocommit :: "u32 \<Rightarrow> string \<Rightarrow> u32 \<times> string" where
  "parse_set_autocommit type_mask s =
     (case next_token s of
        (token, r) \<Rightarrow>
          if token = TOK_EQ then
            (case next_token r of
               (token2, r2) \<Rightarrow>
                 if token2 = TOK_ONE \<or> token2 = TOK_TRUE then
                   (type_mask OR (TYPE_COMMIT OR TYPE_ENABLE_AUTOCOMMIT), r2)
                 else if token2 = TOK_ZERO \<or> token2 = TOK_FALSE then
                   (TYPE_BEGIN_TRX OR TYPE_DISABLE_AUTOCOMMIT, r2)
                 else (0, r2))
          else (0, r))"

definition parse_isolation_level :: "u32 \<Rightarrow> string \<Rightarrow> u32 \<times> string" where
  "parse_isolation_level type_mask s =
     (case next_token s of
        (token, r) \<Rightarrow>
          if token = TOK_REPEATABLE then
            (case next_token r of
               (token2, r2) \<Rightarrow> if token2 \<noteq> TOK_READ then (0, r2) else (type_mask, r2))
          else if token = TOK_READ then
            (case next_token r of
               (token2, r2) \<Rightarrow>
                 if token2 = TOK_COMMITTED \<or> token2 = TOK_UNCOMMITTED then (type_mask, r2)
                 else (0, r2))
          else if token = TOK_SERIALIZABLE then (type_mask, r)
          else (0, r))"

definition parse_access_mode :: "u32 \<Rightarrow> string \<Rightarrow> u32 \<times> string" where
  "parse_access_mode type_mask s =
     (case next_token s of
        (token, r) \<Rightarrow>
          if token = TOK_WRITE \<or> token = TOK_ONLY then
            (type_mask OR (if token = TOK_WRITE then TYPE_READWRITE else TYPE_READONLY), r)
          else (0, r))"

definition parse_set_transaction :: "u32 \<Rightarrow> string \<Rightarrow> u32 \<times> string" where
  "parse_set_transaction type_mask s =
     (case next_token s of
        (token, r) \<Rightarrow>
          if token = TOK_READ then
            (case parse_access_mode type_mask r of
               (type_mask2, r2) \<Rightarrow>
                 (case next_token r2 of
                    (token3, r3) \<Rightarrow>
                      if token3 = TOK_COMMA then
                        (case next_token r3 of
                           (token4, r4) \<Rightarrow>
                             if token4 = TOK_ISOLATION then
                               (case next_token r4 of
                                  (token5, r5) \<Rightarrow>
                                    if token5 = TOK_LEVEL then parse_isolation_level type_mask2 r5
                                    else (0, r5))
                             else (0, r4))
                      else (type_mask2, r3)))
          else if token = TOK_ISOLATION then
            (case next_token r of
               (token2, r2) \<Rightarrow>
                 if token2 = TOK_LEVEL then
                   (case parse_isolation_level type_mask r2 of
                      (type_mask3, r3) \<Rightarrow>
                        (case next_token r3 of
                           (token4, r4) \<Rightarrow>
                             if token4 = TOK_COMMA then
                               (case next_token r4 of
                                  (token5, r5) \<Rightarrow>
                                    if token5 = TOK_READ then parse_access_mode type_mask3 r5
                                    else (0, r5))
                             else (type_mask3, r4)))
                 else (0, r2))
          else (0, r))"

definition parse_set :: "u32 \<Rightarrow> string \<Rightarrow> u32 \<times> string" where
  "parse_set type_mask s =
     (case next_token s of
        (token, r) \<Rightarrow>
          if token = TOK_AUTOCOMMIT then parse_set_autocommit type_mask r
          else if token = TOK_SESSION then
            (case next_token r of
               (token2, r2) \<Rightarrow>
                 if token2 = TOK_AUTOCOMMIT then parse_set_autocommit type_mask r2
                 else if token2 = TOK_TRANSACTION then parse_set_transaction type_mask r2
                 else (0, r2))
          else if token = TOK_SESSION_VAR then
            (case next_token r of
               (token2, r2) \<Rightarrow>
                 if token2 = TOK_DOT then
                   (case next_token r2 of
                      (token3, r3) \<Rightarrow>
                        if token3 = TOK_AUTOCOMMIT then parse_set_autocommit type_mask r3
                        else (0, r3))
                 else (0, r2))
          else if token = TOK_GLOBAL_VAR \<or> token = TOK_GLOBAL then (0, r)
          else if token = TOK_TRANSACTION then
            parse_set_transaction (type_mask OR TYPE_NEXT_TRX) r
          else (0, r))"

definition parse_xa :: "u32 \<Rightarrow> string \<Rightarrow> u32 \<times> string" where
  "parse_xa type_mask s =
     (case next_token s of
        (token, r) \<Rightarrow>
          if token = TOK_START \<or> token = TOK_BEGIN then (type_mask OR TYPE_BEGIN_TRX, r)
          else if token = TOK_END then (type_mask OR TYPE_COMMIT, r)
          else if token = PARSER_EXHAUSTED then (type_mask, r)
          else (0, r))"

definition parse :: "string \<Rightarrow> u32" where
  "parse s =
     (case next_token s of
        (token, r) \<Rightarrow>
          fst (if token = TOK_BEGIN then parse_begin 0 r
               else if token = TOK_COMMIT then parse_commit 0 r
               else if token = TOK_ROLLBACK then parse_rollback 0 r
               else if token = TOK_START then parse_start 0 r
               else if token = TOK_SET then parse_set 0 r
               else if token = TOK_XA then parse_xa 0 r
               else (0, r)))"

text \<open>
  The two entry points of the source, over a pointer and a length and over a string view,
  differ only in that the second returns at once on an empty text.
\<close>

definition type_mask_of :: "string \<Rightarrow> u32" where
  "type_mask_of sql = (if sql \<noteq> [] then parse sql else 0)"

section \<open>Letter case does not matter\<close>

lemma match_word_upcase [case_folding]:
  "match_word (upcase s) w = map_option upcase (match_word s w)"
  by (induction s w rule: match_word.induct) (simp_all add: case_folding)

lemma expect_token_upcase [case_folding]:
  "expect_token w t (upcase s) = apsnd upcase (expect_token w t s)"
  by (auto simp: expect_token_def case_folding hd_map split: option.split)

lemma upper_letters [simp]:
  "isupper CHR ''A''" "isupper CHR ''E''" "isupper CHR ''F''" "isupper CHR ''G''"
  "isupper CHR ''I''" "isupper CHR ''L''" "isupper CHR ''M''" "isupper CHR ''N''"
  "isupper CHR ''O''" "isupper CHR ''P''" "isupper CHR ''R''" "isupper CHR ''S''"
  "isupper CHR ''T''" "isupper CHR ''U''"
  by (simp_all add: isupper_def)

lemma case_apsnd [case_folding]:
  "(case apsnd g p of (a, b) \<Rightarrow> f a b) = (case p of (a, b) \<Rightarrow> f a (g b))"
  by (cases p) simp

lemma apsnd_case [case_folding]:
  "apsnd g (case p of (a, b) \<Rightarrow> f a b) = (case p of (a, b) \<Rightarrow> apsnd g (f a b))"
  by (cases p) simp

lemma apsnd_if [case_folding]: "apsnd g (if b then x else y) = (if b then apsnd g x else apsnd g y)"
  by simp

lemma scan_parts_upcase [case_folding]:
  "scan_at (upcase s) = apsnd upcase (scan_at s)" "scan_c (upcase s) = apsnd upcase (scan_c s)"
  "scan_o (upcase s) = apsnd upcase (scan_o s)" "scan_r (upcase s) = apsnd upcase (scan_r s)"
  "scan_s (upcase s) = apsnd upcase (scan_s s)" "scan_t (upcase s) = apsnd upcase (scan_t s)"
  "scan_w (upcase s) = apsnd upcase (scan_w s)"
  unfolding scan_defs by (simp_all add: case_folding split: prod.split)

lemma scan_digit_upcase [case_folding]:
  "scan_digit t (upcase s) = apsnd upcase (scan_digit t s)"
  by (auto simp: scan_digit_def peek_next_char_def case_folding map_tl)

lemma scan_token_upcase [case_folding]:
  "s \<noteq> [] \<Longrightarrow> scan_token (upcase s) = apsnd upcase (scan_token s)"
  unfolding scan_token_def Let_def by (simp add: case_folding hd_map map_tl)

lemma next_token_upcase [case_folding]: "next_token (upcase s) = apsnd upcase (next_token s)"
proof -
  have "dropWhile isspace (upcase r) = upcase (dropWhile isspace r)" for r
    by (simp add: dropWhile_map comp_def case_folding)
  then show ?thesis
    by (auto simp: next_token_def Let_def case_folding hd_map map_tl [symmetric])
qed

lemma parse_chars_upcase [case_folding]:
  "parse_transaction m (upcase s) = apsnd upcase (parse_transaction m s)"
  "parse_read m (upcase s) = apsnd upcase (parse_read m s)"
  "parse_only m (upcase s) = apsnd upcase (parse_only m s)"
  "parse_write m (upcase s) = apsnd upcase (parse_write m s)"
  "parse_with_consistent_snapshot m (upcase s) = apsnd upcase (parse_with_consistent_snapshot m s)"
proof (induction m s and m s and m s and m s and m s
    rule: parse_transaction_parse_read_parse_only_parse_write_parse_with_consistent_snapshot.induct)
  case (1 m s)
  then show ?case
    by (simp add: parse_transaction.simps [of _ s] parse_transaction.simps [of _ "upcase s"]
        Let_def case_folding split: prod.split)
next
  case (2 m s)
  then show ?case
    by (simp add: parse_read.simps [of _ s] parse_read.simps [of _ "upcase s"] case_folding
        split: prod.split)
next
  case (3 m s)
  then show ?case
    by (simp add: parse_only.simps [of _ s] parse_only.simps [of _ "upcase s"] Let_def case_folding
        split: prod.split)
next
  case (4 m s)
  then show ?case
    by (simp add: parse_write.simps [of _ s] parse_write.simps [of _ "upcase s"] Let_def
        case_folding split: prod.split)
next
  case (5 m s)
  then show ?case
    by (simp add: parse_with_consistent_snapshot.simps [of _ s]
        parse_with_consistent_snapshot.simps [of _ "upcase s"] case_folding split: prod.split)
qed

lemma parse_stmt_upcase [case_folding]:
  "parse_work m (upcase s) = apsnd upcase (parse_work m s)"
  "parse_set_autocommit m (upcase s) = apsnd upcase (parse_set_autocommit m s)"
  "parse_isolation_level m (upcase s) = apsnd upcase (parse_isolation_level m s)"
  "parse_access_mode m (upcase s) = apsnd upcase (parse_access_mode m s)"
  "parse_start m (upcase s) = apsnd upcase (parse_start m s)"
  "parse_xa m (upcase s) = apsnd upcase (parse_xa m s)"
  unfolding parse_work_def parse_set_autocommit_def parse_isolation_level_def
    parse_access_mode_def parse_start_def parse_xa_def
  by (simp_all add: case_folding split: prod.split)

lemma parse_set_upcase [case_folding]:
  "parse_begin m (upcase s) = apsnd upcase (parse_begin m s)"
  "parse_commit m (upcase s) = apsnd upcase (parse_commit m s)"
  "parse_rollback m (upcase s) = apsnd upcase (parse_rollback m s)"
  "parse_set_transaction m (upcase s) = apsnd upcase (parse_set_transaction m s)"
  unfolding parse_begin_def parse_commit_def parse_rollback_def parse_set_transaction_def Let_def
  by (simp_all add: case_folding split: prod.split)

lemma parse_set_all_upcase [case_folding]: "parse_set m (upcase s) = apsnd upcase (parse_set m s)"
  unfolding parse_set_def by (simp add: case_folding split: prod.split)

text \<open>The scanner meets the contract that the token streams of the next theory rest on.\<close>

lemma next_token_spaces: "list_all isspace ws \<Longrightarrow> next_token (ws @ s) = next_token s"
  by (simp add: next_token_def bypass_whitespace_spaces)

interpretation tbp: token_scanner next_token is_final
  by unfold_locales (simp_all add: next_token_length next_token_upcase next_token_spaces)

text \<open>
  The mask of a statement does not depend on the case of its letters: a statement and its
  upper-cased form have the same type mask.
\<close>

theorem type_mask_of_case_insensitive: "type_mask_of (upcase s) = type_mask_of s"
  by (simp add: type_mask_of_def parse_def case_folding if_distrib [of fst] split: prod.split)

end
