(* ===== verification/Trx_Grammar.thy ===== *)
theory Trx_Grammar
  imports Trx_Boundary_Parser
begin

text \<open>
  What \<open>TrxBoundaryParser\<close> recognises, stated apart from how it parses: the token sequence of
  a statement, a grammar over token sequences that gives each statement its mask, and the
  theorem that the parser computes exactly the masks of the grammar.
\<close>

section \<open>Token sequences\<close>

text \<open>All tokens of a statement, up to and including the first final one.\<close>

function tokens_of :: "string \<Rightarrow> token list" where
  "tokens_of s = (case next_token s of (t, r) \<Rightarrow> if is_final t then [t] else t # tokens_of r)"
  by pat_completeness auto
termination
  by (relation "measure length") (auto dest: next_token_shrinks)

declare tokens_of.simps [simp del]

lemma tokens_of_next:
  "next_token s = (t, r) \<Longrightarrow> tokens_of s = (if is_final t then [t] else t # tokens_of r)"
  by (simp add: tokens_of.simps)

section \<open>The grammar\<close>

text \<open>
  The characteristics after \<open>START TRANSACTION\<close>, and what may follow one of them. The rules
  \<open>with_other\<close> and \<open>consistent_other\<close> are the two places where the parser accepts a statement
  that is not SQL: after \<open>WITH\<close> it does not insist on \<open>CONSISTENT SNAPSHOT\<close>.
\<close>

inductive trx_chars :: "token list \<Rightarrow> u32 \<Rightarrow> bool"
  and trx_tail :: "token list \<Rightarrow> u32 \<Rightarrow> bool"
where
  no_chars: "trx_chars [PARSER_EXHAUSTED] 0"
| read_only: "trx_tail ts m \<Longrightarrow> trx_chars (TOK_READ # TOK_ONLY # ts) (TYPE_READ OR m)"
| read_write: "trx_tail ts m \<Longrightarrow> trx_chars (TOK_READ # TOK_WRITE # ts) (TYPE_WRITE OR m)"
| snapshot: "trx_tail ts m \<Longrightarrow> trx_chars (TOK_WITH # TOK_CONSISTENT # TOK_SNAPSHOT # ts) m"
| with_other: "t \<noteq> TOK_CONSISTENT \<Longrightarrow> trx_chars (TOK_WITH # t # ts) 0"
| consistent_other: "t \<noteq> TOK_SNAPSHOT \<Longrightarrow> trx_chars (TOK_WITH # TOK_CONSISTENT # t # ts) 0"
| no_more: "trx_tail [PARSER_EXHAUSTED] 0"
| more: "trx_chars ts m \<Longrightarrow> trx_tail (TOK_COMMA # ts) m"

inductive_simps trx_chars_simps: "trx_chars (t # ts) m"
inductive_simps trx_tail_simps: "trx_tail (t # ts) m"

definition opt_work :: "token list \<Rightarrow> bool" where
  "opt_work ts \<longleftrightarrow> ts = [PARSER_EXHAUSTED] \<or> ts = [TOK_WORK, PARSER_EXHAUSTED]"

inductive autocommit_value :: "token list \<Rightarrow> u32 \<Rightarrow> bool" where
  autocommit_on: "t \<in> {TOK_ONE, TOK_TRUE} \<Longrightarrow>
    autocommit_value (TOK_EQ # t # ts) (TYPE_COMMIT OR TYPE_ENABLE_AUTOCOMMIT)"
| autocommit_off: "t \<in> {TOK_ZERO, TOK_FALSE} \<Longrightarrow>
    autocommit_value (TOK_EQ # t # ts) (TYPE_BEGIN_TRX OR TYPE_DISABLE_AUTOCOMMIT)"

inductive_simps autocommit_value_simps: "autocommit_value (t # ts) m"

text \<open>The statements that start or end a transaction. What follows the value of autocommit or
  the verb of an \<open>XA\<close> statement is not looked at.\<close>

inductive trx_stmt :: "token list \<Rightarrow> u32 \<Rightarrow> bool" where
  begin_work: "opt_work ts \<Longrightarrow> trx_stmt (TOK_BEGIN # ts) TYPE_BEGIN_TRX"
| commit_work: "opt_work ts \<Longrightarrow> trx_stmt (TOK_COMMIT # ts) TYPE_COMMIT"
| rollback_work: "opt_work ts \<Longrightarrow> trx_stmt (TOK_ROLLBACK # ts) TYPE_ROLLBACK"
| start_trx: "trx_chars ts c \<Longrightarrow> trx_stmt (TOK_START # TOK_TRANSACTION # ts) (TYPE_BEGIN_TRX OR c)"
| set_plain: "autocommit_value ts m \<Longrightarrow> trx_stmt (TOK_SET # TOK_AUTOCOMMIT # ts) m"
| set_session: "autocommit_value ts m \<Longrightarrow>
    trx_stmt (TOK_SET # TOK_SESSION # TOK_AUTOCOMMIT # ts) m"
| set_session_var: "autocommit_value ts m \<Longrightarrow>
    trx_stmt (TOK_SET # TOK_SESSION_VAR # TOK_DOT # TOK_AUTOCOMMIT # ts) m"
| xa_start: "t \<in> {TOK_START, TOK_BEGIN} \<Longrightarrow> trx_stmt (TOK_XA # t # ts) TYPE_BEGIN_TRX"
| xa_end: "trx_stmt (TOK_XA # TOK_END # ts) TYPE_COMMIT"

inductive_simps trx_stmt_simps: "trx_stmt (t # ts) m"

section \<open>The parser computes the grammar\<close>

lemma bit_nonzero:
  "bit m n \<Longrightarrow> m \<noteq> (0::u32)" "bit m n \<Longrightarrow> m OR c \<noteq> (0::u32)"
  "bit m n \<Longrightarrow> (m OR c) OR d \<noteq> (0::u32)"
  by (auto dest: arg_cong [where f = "\<lambda>w. bit w n"] simp: bit_simps)

lemma bit_begin: "bit (m OR TYPE_BEGIN_TRX) 10"
  by (simp add: flag_bit bit_simps)

lemma or_begin:
  "bit m 10 \<Longrightarrow> (m OR c) OR TYPE_BEGIN_TRX = m OR c" "bit m 10 \<Longrightarrow> m OR TYPE_BEGIN_TRX = m"
  by (rule bit_word_eqI, auto simp: flag_bit bit_simps)+

text \<open>
  The routines for the characteristics. Each is stated on the tokens still to come, with the
  token its caller has already consumed put back in front.
\<close>

lemma parse_chars_correct:
  "(fst (parse_transaction m s) = x \<and> x \<noteq> 0) \<longleftrightarrow>
     (\<exists>c. trx_chars (tokens_of s) c \<and> x = (m OR TYPE_BEGIN_TRX) OR c)"
  "bit m 10 \<Longrightarrow> (fst (parse_read m s) = x \<and> x \<noteq> 0) \<longleftrightarrow>
     (\<exists>c. trx_chars (TOK_READ # tokens_of s) c \<and> x = m OR c)"
  "bit m 10 \<Longrightarrow> (fst (parse_only m s) = x \<and> x \<noteq> 0) \<longleftrightarrow>
     (\<exists>c. trx_tail (tokens_of s) c \<and> x = (m OR TYPE_READ) OR c)"
  "bit m 10 \<Longrightarrow> (fst (parse_write m s) = x \<and> x \<noteq> 0) \<longleftrightarrow>
     (\<exists>c. trx_tail (tokens_of s) c \<and> x = (m OR TYPE_WRITE) OR c)"
  "bit m 10 \<Longrightarrow> (fst (parse_with_consistent_snapshot m s) = x \<and> x \<noteq> 0) \<longleftrightarrow>
     (\<exists>c. trx_chars (TOK_WITH # tokens_of s) c \<and> x = m OR c)"
proof (induction m s and m s and m s and m s and m s
    rule: parse_transaction_parse_read_parse_only_parse_write_parse_with_consistent_snapshot.induct)
  case (1 m s)
  obtain t r where n: "next_token s = (t, r)" by force
  note IH = 1(1) [OF refl n [symmetric] _ bit_begin] 1(2) [OF refl n [symmetric] _ _ bit_begin]
  show ?case
  proof (cases "t = TOK_READ \<or> t = TOK_WITH")
    case True
    with IH n show ?thesis
      by (auto simp: parse_transaction.simps [of m s] tokens_of_next is_final_def)
  next
    case False
    with n bit_nonzero [OF bit_begin, of m] show ?thesis
      by (auto simp: parse_transaction.simps [of m s] tokens_of_next is_final_def trx_chars_simps)
  qed
next
  case (2 m s)
  obtain t r where n: "next_token s = (t, r)" by force
  from 2(1) [OF n [symmetric]] 2(2) [OF n [symmetric]] n 2(3) show ?case
    by (auto simp: parse_read.simps [of m s] tokens_of_next is_final_def trx_chars_simps or.assoc)
next
  case (3 m s)
  obtain t r where n: "next_token s = (t, r)" by force
  from 3(1) [OF refl n [symmetric]] n 3(2) bit_nonzero [OF 3(2)] show ?case
    by (cases "t = TOK_COMMA")
      (auto simp: parse_only.simps [of m s] Let_def tokens_of_next is_final_def trx_tail_simps
        or_begin)
next
  case (4 m s)
  obtain t r where n: "next_token s = (t, r)" by force
  from 4(1) [OF refl n [symmetric]] n 4(2) bit_nonzero [OF 4(2)] show ?case
    by (cases "t = TOK_COMMA")
      (auto simp: parse_write.simps [of m s] Let_def tokens_of_next is_final_def trx_tail_simps
        or_begin)
next
  case (5 m s)
  obtain t r where n: "next_token s = (t, r)" by force
  obtain t2 r2 where n2: "next_token r = (t2, r2)" by force
  obtain t3 r3 where n3: "next_token r2 = (t3, r3)" by force
  from 5(1) [OF n [symmetric] _ n2 [symmetric] _ n3 [symmetric]] n n2 n3 5(2)
    bit_nonzero [OF 5(2)]
  show ?case
    by (auto simp: parse_with_consistent_snapshot.simps [of m s] tokens_of_next is_final_def
        trx_tail_simps trx_chars_simps or_begin)
qed

lemma tokens_of_nonempty: "tokens_of s \<noteq> []"
  by (subst tokens_of.simps) (simp split: prod.split)

lemma not_boundary_zero [simp]: "\<not> trx_boundary 0"
  by (simp add: trx_boundary_bits)

lemmas token_steps = tokens_of_next is_final_def trx_stmt_simps

lemma parse_start_correct:
  "(fst (parse_start 0 s) = x \<and> trx_boundary x) \<longleftrightarrow> trx_stmt (TOK_START # tokens_of s) x"
proof -
  obtain t r where n: "next_token s = (t, r)" by force
  have "trx_boundary (TYPE_BEGIN_TRX OR c)" for c
    by (simp add: trx_boundary_bits flag_bit bit_simps)
  moreover have "trx_boundary x \<Longrightarrow> x \<noteq> 0"
    by auto
  ultimately show ?thesis
    using n parse_chars_correct(1) [of 0 r x] by (auto simp: parse_start_def token_steps)
qed

lemma parse_work_correct:
  "fst (parse_work m s) = (if tokens_of s = [PARSER_EXHAUSTED] then m else 0)"
  by (cases "next_token s") (auto simp: parse_work_def tokens_of_next is_final_def)

lemma parse_work_stmts_correct:
  "fst (parse_begin 0 s) = (if opt_work (tokens_of s) then TYPE_BEGIN_TRX else 0)"
  "fst (parse_commit 0 s) = (if opt_work (tokens_of s) then TYPE_COMMIT else 0)"
  "fst (parse_rollback 0 s) = (if opt_work (tokens_of s) then TYPE_ROLLBACK else 0)"
  using tokens_of_nonempty [of "snd (next_token s)"]
  by (cases "next_token s"; auto simp: parse_begin_def parse_commit_def parse_rollback_def
      opt_work_def parse_work_correct tokens_of_next is_final_def)+

lemma parse_set_autocommit_correct:
  "(fst (parse_set_autocommit 0 s) = x \<and> trx_boundary x) \<longleftrightarrow> autocommit_value (tokens_of s) x"
proof -
  obtain t r where n: "next_token s = (t, r)" by force
  obtain t2 r2 where n2: "next_token r = (t2, r2)" by force
  from n n2 show ?thesis
    by (auto simp: parse_set_autocommit_def token_steps autocommit_value_simps trx_boundary_bits
        flag_bit bit_simps)
qed

lemma parse_set_transaction_bits:
  "bit (fst (parse_set_transaction m s)) n \<Longrightarrow> bit m n \<or> n = 23 \<or> n = 24"
  by (auto simp: parse_set_transaction_def parse_access_mode_def parse_isolation_level_def
      flag_bit bit_simps split: prod.splits if_splits)

lemma parse_set_correct:
  "(fst (parse_set 0 s) = x \<and> trx_boundary x) \<longleftrightarrow> trx_stmt (TOK_SET # tokens_of s) x"
proof -
  obtain t r where n: "next_token s = (t, r)" by force
  obtain t2 r2 where n2: "next_token r = (t2, r2)" by force
  obtain t3 r3 where n3: "next_token r2 = (t3, r3)" by force
  have no: "\<not> trx_boundary (fst (parse_set_transaction m r'))" if "m = 0 \<or> m = TYPE_NEXT_TRX" for m r'
    using that by (auto simp: trx_boundary_bits flag_bit dest!: parse_set_transaction_bits)
  note autocommit = parse_set_autocommit_correct [of r x] parse_set_autocommit_correct [of r2 x]
    parse_set_autocommit_correct [of r3 x]
  consider "t = TOK_AUTOCOMMIT" | "t = TOK_SESSION" | "t = TOK_SESSION_VAR"
    | "t \<notin> {TOK_AUTOCOMMIT, TOK_SESSION, TOK_SESSION_VAR}"
    by blast
  then show ?thesis
    by cases (use n n2 n3 autocommit no in \<open>auto simp: parse_set_def token_steps\<close>)
qed

lemma parse_xa_correct:
  "(fst (parse_xa 0 s) = x \<and> trx_boundary x) \<longleftrightarrow> trx_stmt (TOK_XA # tokens_of s) x"
  by (cases "next_token s") (auto simp: parse_xa_def token_steps trx_boundary_bits flag_bit)

lemma type_mask_of_parse: "type_mask_of s = parse s"
  by (simp add: type_mask_of_def parse_def next_token_def)

lemma type_mask_of_iff_trx_stmt:
  "trx_stmt (tokens_of s) m \<longleftrightarrow> type_mask_of s = m \<and> trx_boundary m"
proof -
  obtain t r where n: "next_token s = (t, r)" by force
  note stmts = parse_start_correct [of r m] parse_set_correct [of r m] parse_xa_correct [of r m]
  have flags: "trx_boundary TYPE_BEGIN_TRX" "trx_boundary TYPE_COMMIT" "trx_boundary TYPE_ROLLBACK"
    by (simp_all add: trx_boundary_bits flag_bit)
  show ?thesis
  proof (cases "t \<in> {TOK_START, TOK_SET, TOK_XA}")
    case True
    with n stmts show ?thesis
      by (auto simp: type_mask_of_parse parse_def tokens_of_next is_final_def)
  next
    case False
    with n flags show ?thesis
      by (auto simp: type_mask_of_parse parse_def token_steps parse_work_stmts_correct)
  qed
qed

text \<open>
  C11. The parser recognises exactly the statements of the grammar: a statement has a mask that
  starts or ends a transaction if and only if its token sequence is a statement of the grammar,
  and then the mask is the one the grammar gives it.
\<close>

theorem type_mask_of_grammar:
  "trx_stmt (tokens_of s) m \<longleftrightarrow> type_mask_of s = m \<and> trx_boundary m"
  by (rule type_mask_of_iff_trx_stmt)

section \<open>The bits of a mask\<close>

lemma trx_chars_bits:
  "trx_chars ts m \<Longrightarrow> bit m n \<Longrightarrow> n = 1 \<or> n = 2"
  "trx_tail ts m \<Longrightarrow> bit m n \<Longrightarrow> n = 1 \<or> n = 2"
  by (induction rule: trx_chars_trx_tail.inducts) (auto simp: flag_bit bit_simps)

lemma trx_stmt_bits:
  assumes "trx_stmt ts m" "bit m n"
  shows "n \<in> {1, 2, 10, 11, 12, 13, 14}"
  using assms
  by cases (auto simp: flag_bit bit_simps autocommit_value.simps dest: trx_chars_bits(1))

lemma type_mask_of_bits:
  assumes "\<not> trx_boundary (type_mask_of s)" "bit (type_mask_of s) n"
  shows "n \<in> {23, 24, 25}"
proof -
  obtain t r where n: "next_token s = (t, r)" by force
  obtain t' r' where "next_token r = (t', r')" by force
  then have start: "fst (parse_start 0 r) \<noteq> 0 \<Longrightarrow> trx_boundary (fst (parse_start 0 r))"
    using parse_chars_correct(1) [of 0 r' "fst (parse_transaction 0 r')"]
    by (auto simp: parse_start_def trx_boundary_bits flag_bit bit_simps split: if_splits)
  have set: "\<not> trx_boundary (fst (parse_set 0 r)) \<Longrightarrow> bit (fst (parse_set 0 r)) n \<Longrightarrow> n \<in> {23,24,25}"
    by (auto simp: parse_set_def parse_set_autocommit_def trx_boundary_bits flag_bit bit_simps
      split: prod.splits if_splits dest!: parse_set_transaction_bits)
  show ?thesis
   using assms start set n bit_nonzero(1) [of "fst (parse_start 0 r)" n]
   by (auto simp: type_mask_of_parse parse_def parse_work_stmts_correct parse_xa_def trx_boundary_bits flag_bit bit_simps
     split: if_splits prod.splits)
qed

text \<open>
  How the bits of a mask of the parser depend on each other. Transaction tracking reads them in
  this sense: a statement never starts and ends a transaction at once, autocommit is enabled
  by a statement that commits and disabled by one that begins, the access mode of \<open>START
  TRANSACTION\<close> comes with its begin bit, and \<open>SET TRANSACTION\<close> is no transaction boundary.
\<close>

definition boundary_mask_ok :: "u32 \<Rightarrow> bool" where
  "boundary_mask_ok m \<longleftrightarrow>
     (any_bit m TYPE_BEGIN_TRX \<longrightarrow>
        \<not> any_bit m (TYPE_COMMIT OR TYPE_ROLLBACK OR TYPE_ENABLE_AUTOCOMMIT)) \<and>
     (any_bit m TYPE_COMMIT \<longrightarrow> \<not> any_bit m TYPE_ROLLBACK) \<and>
     (any_bit m TYPE_ENABLE_AUTOCOMMIT \<longrightarrow> any_bit m TYPE_COMMIT) \<and>
     (any_bit m (TYPE_READ OR TYPE_WRITE OR TYPE_DISABLE_AUTOCOMMIT) \<longrightarrow>
        any_bit m TYPE_BEGIN_TRX) \<and>
     (any_bit m (TYPE_READONLY OR TYPE_READWRITE OR TYPE_NEXT_TRX) \<longrightarrow> \<not> trx_boundary m)"

text \<open>
  Every mask the parser returns is consistent in the sense above, whatever the text.
\<close>

theorem type_mask_of_shape: "boundary_mask_ok (type_mask_of s)"
proof (cases "trx_boundary (type_mask_of s)")
  case True
  then have stmt: "trx_stmt (tokens_of s) (type_mask_of s)"
    by (simp add: type_mask_of_iff_trx_stmt)
  then show ?thesis
    using trx_stmt_bits [OF stmt]
    by cases (auto simp: boundary_mask_ok_def flag_bits flag_bit bit_simps autocommit_value.simps
        trx_boundary_bits dest: trx_chars_bits(1))
next
  case False
  with type_mask_of_bits [OF False] show ?thesis
    by (force simp: boundary_mask_ok_def flag_bits)
qed

section \<open>Comments in front of a statement\<close>

lemma hash_rest: "CHR 0x0A \<notin> set l \<Longrightarrow> skip_line (l @ CHR 0x0A # s) = s"
  by (induction l) (auto simp: skip_line_def)

lemma scan_token_space:
  assumes "isspace c"
  shows "scan_token (c # s) = (PARSER_UNKNOWN_TOKEN, c # s)"
proof -
  from assms have "c \<in> {CHR 0x20, CHR 0x09, CHR 0x0A, CHR 0x0B, CHR 0x0C, CHR 0x0D}"
    by (auto simp: isspace_def char_eq_code simp del: of_char_eq_iff)
  then show ?thesis
    by (elim insertE emptyE) (simp_all add: scan_token_def toupper_def)
qed

lemma type_mask_of_unknown: "fst (next_token s) = PARSER_UNKNOWN_TOKEN \<Longrightarrow> type_mask_of s = 0"
  by (auto simp: type_mask_of_parse parse_def split: prod.split)

text \<open>
  A line comment that starts with \<open>#\<close> ends the skipping of whitespace: when the line
  after it is indented, the statement on it is not recognised, whatever it is.
\<close>

theorem hash_comment_then_space:
  assumes "CHR 0x0A \<notin> set comment" and "isspace c"
  shows "type_mask_of (CHR ''#'' # comment @ CHR 0x0A # c # stmt) = 0"
proof (rule type_mask_of_unknown)
  have "c \<noteq> CHR '';''" using assms(2) by (auto simp: isspace_def)
  then show "fst (next_token (CHR ''#'' # comment @ CHR 0x0A # c # stmt)) = PARSER_UNKNOWN_TOKEN"
    using assms by (simp add: next_token_def hash_rest scan_token_space)
qed

theorem hash_comment_then_space_witness:
  "type_mask_of (CHR ''#'' # ''note'' @ CHR 0x0A # CHR '' '' # ''BEGIN'') = 0 \<and>
   type_mask_of (CHR ''#'' # ''note'' @ CHR 0x0A # ''BEGIN'') = TYPE_BEGIN_TRX"
proof
  show "type_mask_of (CHR ''#'' # ''note'' @ CHR 0x0A # CHR '' '' # ''BEGIN'') = 0"
    by (rule hash_comment_then_space) (simp_all add: isspace_def)
  show "type_mask_of (CHR ''#'' # ''note'' @ CHR 0x0A # ''BEGIN'') = TYPE_BEGIN_TRX"
    by code_simp
qed

text \<open>
  When the whitespace that makes \<open>--\<close> a comment is the newline itself, the comment
  swallows the line after it: a statement there is not recognised.
\<close>

theorem dash_newline_hides_line:
  assumes "CHR 0x0A \<notin> set stmt"
  shows "type_mask_of (CHR ''-'' # CHR ''-'' # CHR 0x0A # stmt) = 0"
proof -
  have "skip_line stmt = []"
    using assms by (induction stmt) (auto simp: skip_line_def)
  moreover have "isspace CHR 0x0A" by (simp add: isspace_def)
  ultimately show ?thesis by (simp add: type_mask_of_parse parse_def next_token_def)
qed

theorem dash_newline_hides_line_witness:
  "type_mask_of (CHR ''-'' # CHR ''-'' # CHR 0x0A # ''BEGIN'') = 0 \<and>
   type_mask_of (CHR ''-'' # CHR ''-'' # CHR '' '' # CHR 0x0A # ''BEGIN'') = TYPE_BEGIN_TRX"
proof
  show "type_mask_of (CHR ''-'' # CHR ''-'' # CHR 0x0A # ''BEGIN'') = 0"
    by (rule dash_newline_hides_line) simp
  show "type_mask_of (CHR ''-'' # CHR ''-'' # CHR '' '' # CHR 0x0A # ''BEGIN'') = TYPE_BEGIN_TRX"
    by code_simp
qed

end
