(* ===== verification/Mariadb_Packet.thy ===== *)
theory Mariadb_Packet
  imports Prelude "HOL-Library.Monad_Syntax"
begin

text \<open>
  The wire format of the MariaDB protocol: the little-endian integers, packet header and
  length-encoded integers of \<open>include/maxscale/protocol/mariadb/mysql.hh\<close>,
  \<open>maxutils/maxsql/src/mariadb.cc\<close> and \<open>server/modules/protocol/MariaDB/mariadb_common.cc\<close>, the
  routines of the latter that build packets, take them apart and cut a stream into packets. A
  buffer is its list of bytes and a pointer into it the rest of the list from there on. A read
  past the end of the buffer, which the code never checks for inside of the primitives, is the
  value \<open>None\<close>: that an operation returns \<open>Some\<close> is its memory safety.
\<close>

type_synonym bytes = "u8 list"

abbreviation (input) MYSQL_HEADER_LEN :: nat where "MYSQL_HEADER_LEN \<equiv> 4"
abbreviation (input) GW_MYSQL_MAX_PACKET_LEN :: nat where "GW_MYSQL_MAX_PACKET_LEN \<equiv> 0xffffff"

definition str_bytes :: "string \<Rightarrow> bytes" where
  "str_bytes s = map of_char s"

section \<open>Integers in memory\<close>

text \<open>
  The bytes of a word as \<open>memcpy\<close> of a little-endian value writes them, and the word that it
  reads back.
\<close>

definition le_bytes :: "nat \<Rightarrow> 'a::len word \<Rightarrow> bytes" where
  "le_bytes n v = map (\<lambda>i. ucast (drop_bit (8 * i) v)) [0..<n]"

fun of_le_bytes :: "bytes \<Rightarrow> 'a::len word" where
  "of_le_bytes [] = 0"
| "of_le_bytes (b # bs) = ucast b OR push_bit 8 (of_le_bytes bs)"

definition set_byte1 :: "u8 \<Rightarrow> bytes" where "set_byte1 val = [val]"
definition set_byte2 :: "u16 \<Rightarrow> bytes" where "set_byte2 val = le_bytes 2 val"
definition set_byte3 :: "u32 \<Rightarrow> bytes" where
  "set_byte3 val = set_byte2 (ucast val) @ [ucast (drop_bit 16 val)]"
definition set_byte4 :: "u32 \<Rightarrow> bytes" where "set_byte4 val = le_bytes 4 val"
definition set_byte8 :: "u64 \<Rightarrow> bytes" where "set_byte8 val = le_bytes 8 val"

definition read_le :: "nat \<Rightarrow> bytes \<Rightarrow> 'a::len word option" where
  "read_le n buffer = (if n \<le> length buffer then Some (of_le_bytes (take n buffer)) else None)"

definition get_byte2 :: "bytes \<Rightarrow> u16 option" where "get_byte2 buffer = read_le 2 buffer"

definition get_byte3 :: "bytes \<Rightarrow> u32 option" where
  "get_byte3 buffer =
     (case get_byte2 buffer of
        None \<Rightarrow> None
      | Some low \<Rightarrow>
          (if length buffer \<le> 2 then None
           else Some (ucast low OR push_bit 16 (ucast (buffer ! 2)))))"

definition get_byte4 :: "bytes \<Rightarrow> u32 option" where "get_byte4 buffer = read_le 4 buffer"
definition get_byte8 :: "bytes \<Rightarrow> u64 option" where "get_byte8 buffer = read_le 8 buffer"

lemma length_le_bytes [simp]: "length (le_bytes n v) = n"
  by (simp add: le_bytes_def)

lemma bit_of_le_bytes:
  "bit (of_le_bytes bs :: 'a::len word) k \<longleftrightarrow>
     k < LENGTH('a) \<and> k div 8 < length bs \<and> bit (bs ! (k div 8)) (k mod 8)"
proof (induction bs arbitrary: k)
  case (Cons b bs)
  show ?case
  proof (cases "k < 8")
    case True
    then show ?thesis by (auto simp: bit_simps)
  next
    case False
    then obtain j where k: "k = j + 8" by (metis add.commute le_add_diff_inverse not_less)
    have "\<not> bit b (j + 8)" using bit_imp_le_length [of b "j + 8"] by auto
    moreover have "(j + 8) div 8 = Suc (j div 8)" by simp
    ultimately show ?thesis using k Cons.IH [of j] by (auto simp: bit_simps)
  qed
qed simp

lemma bit_nth_le_bytes:
  "i < n \<Longrightarrow> bit (le_bytes n v ! i) k \<longleftrightarrow> k < 8 \<and> bit v (8 * i + k)"
  by (auto simp: le_bytes_def bit_simps)

lemma of_le_bytes_le_bytes:
  "of_le_bytes (le_bytes n v) = (take_bit (8 * n) v :: 'a::len word)"
proof (rule bit_word_eqI)
  fix k
  assume k: "k < LENGTH('a)"
  show "bit (of_le_bytes (le_bytes n v) :: 'a word) k \<longleftrightarrow> bit (take_bit (8 * n) v) k"
    using k by (auto simp: bit_of_le_bytes bit_nth_le_bytes bit_take_bit_iff less_mult_imp_div_less
        mult.commute div_less_iff_less_mult)
qed

lemma le_bytes_of_le_bytes:
  assumes "8 * length bs \<le> LENGTH('a)"
  shows "le_bytes (length bs) (of_le_bytes bs :: 'a::len word) = bs"
proof (rule nth_equalityI)
  fix i
  assume i: "i < length (le_bytes (length bs) (of_le_bytes bs :: 'a word))"
  show "le_bytes (length bs) (of_le_bytes bs :: 'a word) ! i = bs ! i"
  proof (rule bit_word_eqI)
    fix k
    assume "k < LENGTH(8)"
    with i assms show "bit (le_bytes (length bs) (of_le_bytes bs :: 'a word) ! i) k \<longleftrightarrow> bit (bs ! i) k"
      by (auto simp: bit_nth_le_bytes bit_of_le_bytes)
  qed
qed simp

section \<open>Packet headers\<close>

record header_data =
  pl_length :: u32
  seq :: u8

definition get_header :: "bytes \<Rightarrow> header_data option" where
  "get_header buffer =
     map_option (\<lambda>bytes. \<lparr>pl_length = bytes AND 0xFFFFFF, seq = ucast (drop_bit 24 bytes)\<rparr>)
       (get_byte4 buffer)"

definition write_header :: "u32 \<Rightarrow> u8 \<Rightarrow> bytes" where
  "write_header pl_size seq_no =
     (let seq_expanded = push_bit 24 (ucast seq_no);
          host_bytes = seq_expanded OR pl_size
      in set_byte4 host_bytes)"

definition get_packet_length :: "bytes \<Rightarrow> u32 option" where
  "get_packet_length buffer = map_option (\<lambda>h. of_nat MYSQL_HEADER_LEN + pl_length h) (get_header buffer)"

definition MYSQL_GET_COMMAND :: "bytes \<Rightarrow> u8 option" where
  "MYSQL_GET_COMMAND header = (if length header \<le> 4 then None else Some (header ! 4))"

definition MYSQL_GET_PACKET_NO :: "bytes \<Rightarrow> u8 option" where
  "MYSQL_GET_PACKET_NO header = (if length header \<le> 3 then None else Some (header ! 3))"

definition MYSQL_GET_PAYLOAD_LEN :: "bytes \<Rightarrow> u32 option" where
  "MYSQL_GET_PAYLOAD_LEN header = get_byte3 header"

lemma read_le_le_bytes [simp]: "read_le n (le_bytes n v @ rest) = Some (of_le_bytes (le_bytes n v))"
  by (simp add: read_le_def)

lemma of_le_bytes_full: "LENGTH('a) \<le> 8 * n \<Longrightarrow> of_le_bytes (le_bytes n v) = (v :: 'a::len word)"
  by (simp add: of_le_bytes_le_bytes take_bit_word_beyond_length_eq)

lemma get_set_byte2 [simp]: "get_byte2 (set_byte2 v @ rest) = Some v"
  by (simp add: get_byte2_def set_byte2_def of_le_bytes_full)
lemma get_set_byte4 [simp]: "get_byte4 (set_byte4 v @ rest) = Some v"
  by (simp add: get_byte4_def set_byte4_def of_le_bytes_full)
lemma get_set_byte8 [simp]: "get_byte8 (set_byte8 v @ rest) = Some v"
  by (simp add: get_byte8_def set_byte8_def of_le_bytes_full)
lemma length_set_byte [simp]: "length (set_byte2 a) = 2" "length (set_byte3 b) = 3"
  "length (set_byte4 b) = 4" "length (set_byte8 c) = 8"
  by (simp_all add: set_byte2_def set_byte3_def set_byte4_def set_byte8_def)

lemma set_byte3_le: "set_byte3 v = le_bytes 3 v"
  by (auto simp: set_byte3_def set_byte2_def le_bytes_def numeral_3_eq_3 numeral_2_eq_2 bit_simps intro!: bit_word_eqI)
lemma join_byte3: "ucast (of_le_bytes [a, b] :: u16) OR push_bit 16 (ucast c) = (of_le_bytes [a, b, c] :: u32)"
proof (rule bit_word_eqI)
  fix n
  show "bit (ucast (of_le_bytes [a, b] :: u16) OR push_bit 16 (ucast c) :: u32) n \<longleftrightarrow> bit (of_le_bytes [a, b, c] :: u32) n"
    using bit_imp_le_length [of a n] bit_imp_le_length [of b "n - 8"]
    by (auto simp: bit_simps)
qed
lemma get_byte3_le: "get_byte3 buf = read_le 3 buf"
proof (cases "3 \<le> length buf")
  case True
  then obtain a b c r where "buf = a # b # c # r"
    by (metis (no_types, lifting) One_nat_def Suc_le_length_iff numeral_3_eq_3)
  then show ?thesis
    using join_byte3 [of a b c]
    by (simp add: get_byte3_def get_byte2_def read_le_def del: of_le_bytes.simps)
qed (auto simp: get_byte3_def get_byte2_def read_le_def)
lemma get_set_byte3: "get_byte3 (set_byte3 v @ rest) = Some (take_bit 24 v)"
  by (simp add: get_byte3_le set_byte3_le of_le_bytes_le_bytes)

lemma and_FFFFFF: "(x AND 0xFFFFFF :: u32) = take_bit 24 x"
proof -
  have "(0xFFFFFF::u32) = mask 24" by (simp add: mask_eq_exp_minus_1)
  then show ?thesis by (simp add: take_bit_eq_mask)
qed

lemma get_header_write:
  "get_header (write_header pl_size n @ rest) =
     Some \<lparr>pl_length = take_bit 24 pl_size, seq = n OR ucast (drop_bit 24 pl_size)\<rparr>"
  by (auto simp: get_header_def write_header_def Let_def and_FFFFFF bit_simps intro!: bit_word_eqI)

text \<open>
  A header that was written is read back, whatever follows it: the payload length modulo
  two to the power of 24, and the sequence number, into which a payload length beyond 24 bits
  would spill.
\<close>

theorem get_header_write_header:
  "get_header (write_header pl_size n @ rest) =
     Some \<lparr>pl_length = take_bit 24 pl_size, seq = n OR ucast (drop_bit 24 pl_size)\<rparr>"
  by (rule get_header_write)


section \<open>Length-encoded integers\<close>

definition leint_prefix_bytes :: "u64 \<Rightarrow> nat" where
  "leint_prefix_bytes len =
     (if len < 251 then 1 else if len < 0xffff then 3 else if len < 0xffffff then 4 else 9)"

definition encode_leint :: "nat \<Rightarrow> u64 \<Rightarrow> bytes" where
  "encode_leint prefix_size val =
     (if prefix_size = 1 then [ucast val]
      else if prefix_size = 3 then 0xfc # set_byte2 (ucast val)
      else if prefix_size = 4 then 0xfd # set_byte3 (ucast val)
      else if prefix_size = 9 then 0xfe # set_byte8 val
      else [])"

definition leint_bytes :: "bytes \<Rightarrow> nat option" where
  "leint_bytes ptr =
     (case ptr of
        [] \<Rightarrow> None
      | val # _ \<Rightarrow>
          Some (if val \<le> 0xfb then 1 else if val = 0xfc then 3 else if val = 0xfd then 4 else 9))"

definition leint_value :: "bytes \<Rightarrow> u64 option" where
  "leint_value ptr =
     (case ptr of
        [] \<Rightarrow> None
      | c # rest \<Rightarrow>
          (if c < 0xfb then Some (ucast c)
           else if c = 0xfc then read_le 2 rest
           else if c = 0xfd then read_le 3 rest
           else if c = 0xfe then read_le 8 rest
           else Some 0))"

definition advance :: "nat \<Rightarrow> bytes \<Rightarrow> bytes option" where
  "advance n ptr = (if n \<le> length ptr then Some (drop n ptr) else None)"

definition leint_consume :: "bytes \<Rightarrow> (u64 \<times> bytes) option" where
  "leint_consume ptr =
     do { rval \<leftarrow> leint_value ptr; n \<leftarrow> leint_bytes ptr; rest \<leftarrow> advance n ptr; Some (rval, rest) }"

definition lestr_consume :: "bytes \<Rightarrow> (bytes \<times> bytes) option" where
  "lestr_consume ptr =
     do { (slen, start) \<leftarrow> leint_consume ptr;
          rest \<leftarrow> advance (unat slen) start;
          Some (take (unat slen) start, rest) }"

lemma leint_prefix_values: "leint_prefix_bytes v \<in> {1, 3, 4, 9}"
  by (simp add: leint_prefix_bytes_def)

lemma length_encode_leint [simp]: "length (encode_leint (leint_prefix_bytes v) v) = leint_prefix_bytes v"
  by (simp add: leint_prefix_bytes_def encode_leint_def)

lemma take_bit_word_small: "unat v < 2 ^ n \<Longrightarrow> take_bit n v = (v::'a::len word)"
  by (rule unsigned_word_eqI [where 'a = nat]) (simp add: unsigned_take_bit_eq take_bit_nat_eq_self)

lemma le_bytes_ucast: "8 * n \<le> LENGTH('b) \<Longrightarrow> le_bytes n (ucast (v::'a::len word) :: 'b::len word) = le_bytes n v"
  by (rule nth_equalityI) (auto simp: le_bytes_def bit_simps intro!: bit_word_eqI)

lemma ucast_byte_small: "v < 251 \<Longrightarrow> ucast (ucast (v::u64) :: u8) = v \<and> (ucast v :: u8) < 251"
proof -
  assume v: "v < 251"
  then have u: "unat (ucast v :: u8) = unat v" by (simp add: unsigned_ucast_eq word_less_nat_alt take_bit_nat_eq_self)
  have "take_bit 8 v = v" using v by (intro take_bit_word_small) (simp add: word_less_nat_alt)
  moreover have "ucast (ucast v :: u8) = take_bit 8 v" by (auto simp: bit_simps intro!: bit_word_eqI)
  ultimately show ?thesis using u v by (simp add: word_less_nat_alt)
qed

lemmas leint_defs = leint_consume_def leint_prefix_bytes_def encode_leint_def leint_value_def
  leint_bytes_def advance_def

lemma leint_consume_encode:
  "leint_consume (encode_leint (leint_prefix_bytes v) v @ rest) = Some (v, rest)"
proof -
  consider "v < 251" | "\<not> v < 251" "v < 0xffff" | "\<not> v < 251" "\<not> v < 0xffff" "v < 0xffffff"
    | "\<not> v < 251" "\<not> v < 0xffff" "\<not> v < 0xffffff" by blast
  then show ?thesis
  proof cases
    case 1
    then show ?thesis using ucast_byte_small [OF 1] by (simp add: leint_defs word_less_nat_alt word_le_nat_alt)
  next
    case 2
    then have "take_bit 16 v = v" by (intro take_bit_word_small) (simp add: word_less_nat_alt)
    then show ?thesis using 2 by (simp add: leint_defs set_byte2_def le_bytes_ucast of_le_bytes_le_bytes)
  next
    case 3
    then have "take_bit 24 v = v" by (intro take_bit_word_small) (simp add: word_less_nat_alt)
    with 3 show ?thesis by (simp add: leint_defs set_byte3_le le_bytes_ucast of_le_bytes_le_bytes)
  next
    case 4
    then show ?thesis by (simp add: leint_defs set_byte8_def of_le_bytes_full)
  qed
qed

text \<open>
  Every 64-bit value that is written as a length-encoded integer of the size that
  \<open>leint_prefix_bytes\<close> chooses for it is read back by \<open>leint_consume\<close>, which leaves the pointer at
  the first byte after it.
\<close>

theorem leint_round_trip:
  "leint_consume (encode_leint (leint_prefix_bytes v) v @ rest) = Some (v, rest)"
  by (rule leint_consume_encode)

section \<open>Commands\<close>

text \<open>The command bytes of \<open>mxs_mysql_cmd_t\<close>.\<close>

abbreviation (input) MXS_COM_SLEEP :: u8 where "MXS_COM_SLEEP \<equiv> 0"
abbreviation (input) MXS_COM_QUIT :: u8 where "MXS_COM_QUIT \<equiv> 1"
abbreviation (input) MXS_COM_INIT_DB :: u8 where "MXS_COM_INIT_DB \<equiv> 2"
abbreviation (input) MXS_COM_QUERY :: u8 where "MXS_COM_QUERY \<equiv> 3"
abbreviation (input) MXS_COM_FIELD_LIST :: u8 where "MXS_COM_FIELD_LIST \<equiv> 4"
abbreviation (input) MXS_COM_CREATE_DB :: u8 where "MXS_COM_CREATE_DB \<equiv> 5"
abbreviation (input) MXS_COM_DROP_DB :: u8 where "MXS_COM_DROP_DB \<equiv> 6"
abbreviation (input) MXS_COM_REFRESH :: u8 where "MXS_COM_REFRESH \<equiv> 7"
abbreviation (input) MXS_COM_SHUTDOWN :: u8 where "MXS_COM_SHUTDOWN \<equiv> 8"
abbreviation (input) MXS_COM_STATISTICS :: u8 where "MXS_COM_STATISTICS \<equiv> 9"
abbreviation (input) MXS_COM_PROCESS_INFO :: u8 where "MXS_COM_PROCESS_INFO \<equiv> 10"
abbreviation (input) MXS_COM_CONNECT :: u8 where "MXS_COM_CONNECT \<equiv> 11"
abbreviation (input) MXS_COM_PROCESS_KILL :: u8 where "MXS_COM_PROCESS_KILL \<equiv> 12"
abbreviation (input) MXS_COM_DEBUG :: u8 where "MXS_COM_DEBUG \<equiv> 13"
abbreviation (input) MXS_COM_PING :: u8 where "MXS_COM_PING \<equiv> 14"
abbreviation (input) MXS_COM_TIME :: u8 where "MXS_COM_TIME \<equiv> 15"
abbreviation (input) MXS_COM_DELAYED_INSERT :: u8 where "MXS_COM_DELAYED_INSERT \<equiv> 16"
abbreviation (input) MXS_COM_CHANGE_USER :: u8 where "MXS_COM_CHANGE_USER \<equiv> 17"
abbreviation (input) MXS_COM_BINLOG_DUMP :: u8 where "MXS_COM_BINLOG_DUMP \<equiv> 18"
abbreviation (input) MXS_COM_TABLE_DUMP :: u8 where "MXS_COM_TABLE_DUMP \<equiv> 19"
abbreviation (input) MXS_COM_CONNECT_OUT :: u8 where "MXS_COM_CONNECT_OUT \<equiv> 20"
abbreviation (input) MXS_COM_REGISTER_SLAVE :: u8 where "MXS_COM_REGISTER_SLAVE \<equiv> 21"
abbreviation (input) MXS_COM_STMT_PREPARE :: u8 where "MXS_COM_STMT_PREPARE \<equiv> 22"
abbreviation (input) MXS_COM_STMT_EXECUTE :: u8 where "MXS_COM_STMT_EXECUTE \<equiv> 23"
abbreviation (input) MXS_COM_STMT_SEND_LONG_DATA :: u8 where "MXS_COM_STMT_SEND_LONG_DATA \<equiv> 24"
abbreviation (input) MXS_COM_STMT_CLOSE :: u8 where "MXS_COM_STMT_CLOSE \<equiv> 25"
abbreviation (input) MXS_COM_STMT_RESET :: u8 where "MXS_COM_STMT_RESET \<equiv> 26"
abbreviation (input) MXS_COM_SET_OPTION :: u8 where "MXS_COM_SET_OPTION \<equiv> 27"
abbreviation (input) MXS_COM_STMT_FETCH :: u8 where "MXS_COM_STMT_FETCH \<equiv> 28"
abbreviation (input) MXS_COM_DAEMON :: u8 where "MXS_COM_DAEMON \<equiv> 29"
abbreviation (input) MXS_COM_UNSUPPORTED :: u8 where "MXS_COM_UNSUPPORTED \<equiv> 30"
abbreviation (input) MXS_COM_RESET_CONNECTION :: u8 where "MXS_COM_RESET_CONNECTION \<equiv> 31"
abbreviation (input) MXS_COM_XPAND_REPL :: u8 where "MXS_COM_XPAND_REPL \<equiv> 0x42"
abbreviation (input) MXS_COM_STMT_BULK_EXECUTE :: u8 where "MXS_COM_STMT_BULK_EXECUTE \<equiv> 0xfa"
abbreviation (input) MXS_COM_MULTI :: u8 where "MXS_COM_MULTI \<equiv> 0xfe"
abbreviation (input) MXS_COM_UNDEFINED :: u8 where "MXS_COM_UNDEFINED \<equiv> 0xff"

text \<open>
  The table of valid commands. It has one element for each index below the largest value of a
  byte, so the largest value itself is no index of it.
\<close>

definition create_command_lut :: "bool list" where
  "create_command_lut =
     map (\<lambda>i. of_nat i \<in> set
       [MXS_COM_SLEEP, MXS_COM_QUIT, MXS_COM_INIT_DB, MXS_COM_QUERY, MXS_COM_FIELD_LIST,
        MXS_COM_CREATE_DB, MXS_COM_DROP_DB, MXS_COM_REFRESH, MXS_COM_SHUTDOWN, MXS_COM_STATISTICS,
        MXS_COM_PROCESS_INFO, MXS_COM_CONNECT, MXS_COM_PROCESS_KILL, MXS_COM_DEBUG, MXS_COM_PING,
        MXS_COM_TIME, MXS_COM_DELAYED_INSERT, MXS_COM_CHANGE_USER, MXS_COM_BINLOG_DUMP,
        MXS_COM_TABLE_DUMP, MXS_COM_CONNECT_OUT, MXS_COM_REGISTER_SLAVE, MXS_COM_STMT_PREPARE,
        MXS_COM_STMT_EXECUTE, MXS_COM_STMT_SEND_LONG_DATA, MXS_COM_STMT_CLOSE, MXS_COM_STMT_RESET,
        MXS_COM_SET_OPTION, MXS_COM_STMT_FETCH, MXS_COM_DAEMON, MXS_COM_UNSUPPORTED,
        MXS_COM_RESET_CONNECTION, MXS_COM_XPAND_REPL, MXS_COM_STMT_BULK_EXECUTE, MXS_COM_MULTI])
       [0..<255]"

definition mxs_mysql_is_valid_command :: "u8 \<Rightarrow> bool option" where
  "mxs_mysql_is_valid_command command =
     (if unat command < length create_command_lut then Some (create_command_lut ! unat command)
      else None)"

definition mxs_mysql_is_ok_packet :: "bytes \<Rightarrow> bool" where
  "mxs_mysql_is_ok_packet buffer \<longleftrightarrow> length buffer > MYSQL_HEADER_LEN \<and> buffer ! MYSQL_HEADER_LEN = 0"

definition mxs_mysql_is_err_packet :: "bytes \<Rightarrow> bool" where
  "mxs_mysql_is_err_packet buffer \<longleftrightarrow>
     length buffer > MYSQL_HEADER_LEN \<and> buffer ! MYSQL_HEADER_LEN = 0xff"

definition mxs_mysql_get_mysql_errno :: "bytes \<Rightarrow> u16 option" where
  "mxs_mysql_get_mysql_errno buffer =
     (if mxs_mysql_is_err_packet buffer then get_byte2 (drop (MYSQL_HEADER_LEN + 1) buffer)
      else Some 0)"

definition mxs_mysql_is_ps_command :: "u8 \<Rightarrow> bool" where
  "mxs_mysql_is_ps_command cmd \<longleftrightarrow>
     cmd = MXS_COM_STMT_EXECUTE \<or> cmd = MXS_COM_STMT_BULK_EXECUTE \<or>
     cmd = MXS_COM_STMT_SEND_LONG_DATA \<or> cmd = MXS_COM_STMT_CLOSE \<or>
     cmd = MXS_COM_STMT_FETCH \<or> cmd = MXS_COM_STMT_RESET"

definition mxs_mysql_get_command :: "bytes \<Rightarrow> u8" where
  "mxs_mysql_get_command buffer =
     (if length buffer > MYSQL_HEADER_LEN then buffer ! MYSQL_HEADER_LEN else MXS_COM_UNDEFINED)"

text \<open>\<open>GWBUF::copy_data\<close> copies as many bytes as there are.\<close>

definition copy_data :: "bytes \<Rightarrow> nat \<Rightarrow> nat \<Rightarrow> bytes" where
  "copy_data buffer offset n_bytes = (if offset < length buffer then take n_bytes (drop offset buffer) else [])"

definition mxs_mysql_extract_ps_id :: "bytes \<Rightarrow> u32" where
  "mxs_mysql_extract_ps_id buffer =
     (let ident = copy_data buffer (MYSQL_HEADER_LEN + 1) 4
      in case get_byte4 ident of Some v \<Rightarrow> v | None \<Rightarrow> 0)"

definition mxs_mysql_command_will_respond :: "u8 \<Rightarrow> bool" where
  "mxs_mysql_command_will_respond cmd \<longleftrightarrow>
     cmd \<noteq> MXS_COM_STMT_SEND_LONG_DATA \<and> cmd \<noteq> MXS_COM_QUIT \<and> cmd \<noteq> MXS_COM_STMT_CLOSE"

definition is_com_query :: "bytes \<Rightarrow> bool" where
  "is_com_query buf \<longleftrightarrow> length buf > MYSQL_HEADER_LEN \<and> buf ! MYSQL_HEADER_LEN = MXS_COM_QUERY"

definition is_com_prepare :: "bytes \<Rightarrow> bool" where
  "is_com_prepare buf \<longleftrightarrow>
     length buf > MYSQL_HEADER_LEN \<and> buf ! MYSQL_HEADER_LEN = MXS_COM_STMT_PREPARE"

definition is_com_query_or_prepare :: "bytes \<Rightarrow> bool" where
  "is_com_query_or_prepare buf \<longleftrightarrow>
     length buf > MYSQL_HEADER_LEN \<and>
     (let cmd = buf ! MYSQL_HEADER_LEN in cmd = MXS_COM_QUERY \<or> cmd = MXS_COM_STMT_PREPARE)"

definition get_sql :: "bytes \<Rightarrow> bytes" where
  "get_sql packet =
     (if is_com_query_or_prepare packet then drop (MYSQL_HEADER_LEN + 1) packet else [])"

subsection \<open>Names of commands\<close>

definition command_names :: "(u8 \<times> string) list" where
  "command_names =
     [(MXS_COM_SLEEP, ''COM_SLEEP''), (MXS_COM_QUIT, ''COM_QUIT''),
      (MXS_COM_INIT_DB, ''COM_INIT_DB''), (MXS_COM_QUERY, ''COM_QUERY''),
      (MXS_COM_FIELD_LIST, ''COM_FIELD_LIST''), (MXS_COM_CREATE_DB, ''COM_CREATE_DB''),
      (MXS_COM_DROP_DB, ''COM_DROP_DB''), (MXS_COM_REFRESH, ''COM_REFRESH''),
      (MXS_COM_SHUTDOWN, ''COM_SHUTDOWN''), (MXS_COM_STATISTICS, ''COM_STATISTICS''),
      (MXS_COM_PROCESS_INFO, ''COM_PROCESS_INFO''), (MXS_COM_CONNECT, ''COM_CONNECT''),
      (MXS_COM_PROCESS_KILL, ''COM_PROCESS_KILL''), (MXS_COM_DEBUG, ''COM_DEBUG''),
      (MXS_COM_PING, ''COM_PING''), (MXS_COM_TIME, ''COM_TIME''),
      (MXS_COM_DELAYED_INSERT, ''COM_DELAYED_INSERT''), (MXS_COM_CHANGE_USER, ''COM_CHANGE_USER''),
      (MXS_COM_BINLOG_DUMP, ''COM_BINLOG_DUMP''), (MXS_COM_TABLE_DUMP, ''COM_TABLE_DUMP''),
      (MXS_COM_CONNECT_OUT, ''COM_CONNECT_OUT''), (MXS_COM_REGISTER_SLAVE, ''COM_REGISTER_SLAVE''),
      (MXS_COM_STMT_PREPARE, ''COM_STMT_PREPARE''), (MXS_COM_STMT_EXECUTE, ''COM_STMT_EXECUTE''),
      (MXS_COM_STMT_SEND_LONG_DATA, ''COM_STMT_SEND_LONG_DATA''), (MXS_COM_STMT_CLOSE, ''COM_STMT_CLOSE''),
      (MXS_COM_STMT_RESET, ''COM_STMT_RESET''), (MXS_COM_SET_OPTION, ''COM_SET_OPTION''),
      (MXS_COM_STMT_FETCH, ''COM_STMT_FETCH''), (MXS_COM_DAEMON, ''COM_DAEMON''),
      (MXS_COM_RESET_CONNECTION, ''COM_RESET_CONNECTION''), (MXS_COM_STMT_BULK_EXECUTE, ''COM_STMT_BULK_EXECUTE''),
      (MXS_COM_MULTI, ''COM_MULTI''), (MXS_COM_XPAND_REPL, ''COM_XPAND_REPL'')]"

definition hex_digit :: "nat \<Rightarrow> char" where
  "hex_digit n = char_of (if n < 10 then 48 + n else 87 + n)"

definition cmd_to_string :: "u8 \<Rightarrow> string" where
  "cmd_to_string cmd =
     (case map_of command_names cmd of
        Some name \<Rightarrow> name
      | None \<Rightarrow> ''COM_UNKNOWN('' @ [hex_digit (unat cmd div 16), hex_digit (unat cmd mod 16)] @ '')'')"

section \<open>Building packets\<close>

definition mysql_create_com_quit :: bytes where
  "mysql_create_com_quit = [1, 0, 0, 0, 1]"

definition mysql_create_custom_error :: "int \<Rightarrow> int \<Rightarrow> u16 \<Rightarrow> bytes \<Rightarrow> bytes" where
  "mysql_create_custom_error packet_number affected_rows errnum errmsg =
     (let mysql_statemsg = str_bytes ''#HY000'';
          mysql_payload_size = of_nat (1 + 2 + length mysql_statemsg + length errmsg)
      in set_byte3 mysql_payload_size @ [word_of_int packet_number] @
         [0xff] @ set_byte2 errnum @ mysql_statemsg @ errmsg)"

definition create_error_packet :: "u8 \<Rightarrow> u16 \<Rightarrow> bytes \<Rightarrow> bytes \<Rightarrow> bytes" where
  "create_error_packet sequence err_num sqlstate msg =
     (let payload_len = 1 + 2 + 1 + length sqlstate + length msg
      in write_header (of_nat payload_len) sequence @
         [0xff] @ set_byte2 err_num @ str_bytes ''#'' @ sqlstate @ msg)"

definition create_query :: "bytes \<Rightarrow> bytes" where
  "create_query query =
     (let plen = length query + 1
      in write_header (of_nat plen) 0 @ [MXS_COM_QUERY] @ query)"

text \<open>The system variables that an OK packet reports as changed.\<close>

definition size_prefix :: "bytes \<Rightarrow> nat" where
  "size_prefix s = leint_prefix_bytes (of_nat (length s))"

definition sysvar_payload_bytes :: "bytes \<Rightarrow> bytes \<Rightarrow> nat" where
  "sysvar_payload_bytes k v = size_prefix k + length k + size_prefix v + length v"

definition total_sysvar_bytes :: "(bytes \<times> bytes) list \<Rightarrow> u32" where
  "total_sysvar_bytes attrs =
     of_nat (sum_list (map (\<lambda>(k, v).
       let payload_bytes = sysvar_payload_bytes k v;
           payload_prefix_bytes = leint_prefix_bytes (of_nat payload_bytes)
       in 1 + payload_prefix_bytes + payload_bytes) attrs))"

definition encode_sysvar :: "bytes \<Rightarrow> bytes \<Rightarrow> bytes" where
  "encode_sysvar k v =
     (let payload_bytes = sysvar_payload_bytes k v;
          payload_prefix_bytes = leint_prefix_bytes (of_nat payload_bytes)
      in [0] @ encode_leint payload_prefix_bytes (of_nat payload_bytes) @
         encode_leint (size_prefix k) (of_nat (length k)) @ k @
         encode_leint (size_prefix v) (of_nat (length v)) @ v)"

definition SERVER_STATUS_AUTOCOMMIT :: u16 where "SERVER_STATUS_AUTOCOMMIT = 2"
definition SERVER_SESSION_STATE_CHANGED :: u16 where "SERVER_SESSION_STATE_CHANGED = 0x4000"

definition ok_attr_prefix :: "(bytes \<times> bytes) list \<Rightarrow> nat" where
  "ok_attr_prefix attrs = (if attrs = [] then 0 else leint_prefix_bytes (ucast (total_sysvar_bytes attrs)))"

definition ok_attr_total :: "(bytes \<times> bytes) list \<Rightarrow> u32" where
  "ok_attr_total attrs =
     (if attrs = [] then 0 else total_sysvar_bytes attrs + of_nat (ok_attr_prefix attrs))"

definition ok_payload_size :: "u64 \<Rightarrow> (bytes \<times> bytes) list \<Rightarrow> u32" where
  "ok_payload_size affected_rows attrs =
     6 + of_nat (leint_prefix_bytes affected_rows) + 1 + ok_attr_total attrs"

definition create_ok_packet :: "u8 \<Rightarrow> u64 \<Rightarrow> (bytes \<times> bytes) list \<Rightarrow> bytes" where
  "create_ok_packet sequence affected_rows attrs =
     (let server_status =
            (if attrs = [] then SERVER_STATUS_AUTOCOMMIT
             else SERVER_STATUS_AUTOCOMMIT OR SERVER_SESSION_STATE_CHANGED)
      in write_header (ok_payload_size affected_rows attrs) sequence @ [0] @
         encode_leint (leint_prefix_bytes affected_rows) affected_rows @ [0] @
         set_byte2 server_status @ set_byte2 0 @ [0] @
         (if ok_attr_total attrs \<noteq> 0 then
            encode_leint (ok_attr_prefix attrs) (ucast (total_sysvar_bytes attrs)) @
            concat (map (\<lambda>(k, v). encode_sysvar k v) attrs)
          else []))"

section \<open>Taking error packets apart\<close>

text \<open>
  The SQL state and the message as pointer and length; the length is kept in 16 bits.
\<close>

definition extract_error_state :: "bytes \<Rightarrow> (bytes \<times> u16) option" where
  "extract_error_state pBuffer =
     do { pState \<leftarrow> advance (MYSQL_HEADER_LEN + 1 + 2) pBuffer;
          case pState of
            [] \<Rightarrow> None
          | c # _ \<Rightarrow> Some (pState, if c = of_char (CHR ''#'') then 6 else 0) }"

definition extract_error_message :: "bytes \<Rightarrow> (bytes \<times> u16) option" where
  "extract_error_message pBuffer =
     do { payload_len \<leftarrow> MYSQL_GET_PAYLOAD_LEN pBuffer;
          let packet_len = of_nat MYSQL_HEADER_LEN + payload_len;
          pMessage \<leftarrow> advance (MYSQL_HEADER_LEN + 1 + 2) pBuffer;
          let nMessage = ucast (packet_len - of_nat MYSQL_HEADER_LEN - 1 - 2);
          case pMessage of
            [] \<Rightarrow> None
          | c # _ \<Rightarrow>
              (if c = of_char (CHR ''#'') then
                 do { pMessage' \<leftarrow> advance 6 pMessage; Some (pMessage', nMessage - 6) }
               else Some (pMessage, nMessage)) }"

definition read_string :: "bytes \<Rightarrow> nat \<Rightarrow> bytes option" where
  "read_string ptr n = (if n \<le> length ptr then Some (take n ptr) else None)"

definition extract_error :: "bytes \<Rightarrow> bytes option" where
  "extract_error buffer =
     do { cmd \<leftarrow> MYSQL_GET_COMMAND buffer;
          if cmd = 0xff then
            do { (pState, nState) \<leftarrow> extract_error_state buffer;
                 (pMessage, nMessage) \<leftarrow> extract_error_message buffer;
                 err \<leftarrow> read_string pState (unat nState);
                 msg \<leftarrow> read_string pMessage (unat nMessage);
                 Some (if err = [] then msg else err @ str_bytes '': '' @ msg) }
          else Some [] }"

section \<open>Cutting a stream into packets\<close>

definition get_next_MySQL_packet :: "bytes \<Rightarrow> (bytes \<times> bytes) option" where
  "get_next_MySQL_packet buffer =
     (if MYSQL_HEADER_LEN \<le> length buffer then
        do { header \<leftarrow> get_header buffer;
             let packetlen = MYSQL_HEADER_LEN + unat (pl_length header);
             Some (if packetlen \<le> length buffer then (take packetlen buffer, drop packetlen buffer)
                   else ([], buffer)) }
      else Some ([], buffer))"

function complete_offset :: "bytes \<Rightarrow> nat \<Rightarrow> nat \<Rightarrow> nat option" where
  "complete_offset start offset len_remaining =
     (if MYSQL_HEADER_LEN \<le> len_remaining then
        do { header \<leftarrow> get_header (drop offset start);
             let packet_len = MYSQL_HEADER_LEN + unat (pl_length header);
             if packet_len \<le> len_remaining then
               complete_offset start (offset + packet_len) (len_remaining - packet_len)
             else Some offset }
      else Some offset)"
  by pat_completeness auto
termination
  by (relation "measure (\<lambda>(_, _, len_remaining). len_remaining)") auto

definition get_complete_packets :: "bytes \<Rightarrow> (bytes \<times> bytes) option" where
  "get_complete_packets buffer =
     do { offset \<leftarrow> complete_offset buffer 0 (length buffer);
          Some (take offset buffer, drop offset buffer) }"

declare complete_offset.simps [simp del]

lemma get_header_Some: "get_header b = None \<longleftrightarrow> length b < 4"
  by (simp add: get_header_def get_byte4_def read_le_def)

text \<open>A buffer that holds exactly one packet.\<close>

definition frame :: "bytes \<Rightarrow> bool" where
  "frame p \<longleftrightarrow>
     (case get_header p of None \<Rightarrow> False | Some h \<Rightarrow> length p = MYSQL_HEADER_LEN + unat (pl_length h))"

lemma get_header_append: "4 \<le> length p \<Longrightarrow> get_header (p @ r) = get_header p"
  by (simp add: get_header_def get_byte4_def read_le_def)

lemma get_next_frame: "frame p \<Longrightarrow> get_next_MySQL_packet (p @ rest) = Some (p, rest)"
  by (auto simp: frame_def get_next_MySQL_packet_def get_header_append split: option.splits)

lemma get_next_safe: "\<exists>p rest. get_next_MySQL_packet b = Some (p, rest) \<and> p @ rest = b \<and> (p = [] \<or> frame p)"
proof (cases "get_header b")
  case None
  then show ?thesis by (simp add: get_header_Some get_next_MySQL_packet_def)
next
  case (Some h)
  let ?n = "4 + unat (pl_length h)"
  have "?n \<le> length b \<Longrightarrow> get_header (take ?n b) = Some h"
    using get_header_append [of "take ?n b" "drop ?n b"] Some by simp
  with Some show ?thesis
    by (auto simp: get_next_MySQL_packet_def frame_def get_header_Some Let_def)
qed

lemma frame_not_Nil: "frame p \<Longrightarrow> p \<noteq> []" by (auto simp: frame_def split: option.splits)

text \<open>All the packets that repeated calls of \<open>get_next_MySQL_packet\<close> take from a buffer.\<close>

function cut_packets :: "bytes \<Rightarrow> bytes list \<times> bytes" where
  "cut_packets b =
     (case get_next_MySQL_packet b of
        Some (p, rest) \<Rightarrow> (if p = [] then ([], b) else apfst ((#) p) (cut_packets rest))
      | None \<Rightarrow> ([], b))"
  by pat_completeness auto
termination
proof (relation "measure length")
  fix b and x :: "bytes \<times> bytes" and p rest
  assume "get_next_MySQL_packet b = Some x" "(p, rest) = x" "p \<noteq> []"
  then show "(rest, b) \<in> measure length" using get_next_safe [of b] by auto
qed simp

declare cut_packets.simps [simp del]

lemma complete_offset_cut:
  "complete_offset start offset (length (drop offset start)) =
   Some (offset + length (concat (fst (cut_packets (drop offset start)))))"
proof (induction "drop offset start" arbitrary: offset rule: cut_packets.induct)
  case 1
  obtain p rest where n: "get_next_MySQL_packet (drop offset start) = Some (p, rest)"
     "p @ rest = drop offset start" "p = [] \<or> frame p" using get_next_safe by blast
  show ?case
  proof (cases "p = []")
    case True
    then have "cut_packets (drop offset start) = ([], drop offset start)" by (subst cut_packets.simps) (simp add: n)
    moreover have "complete_offset start offset (length (drop offset start)) = Some offset"
      using n(1) True by (subst complete_offset.simps) (auto simp: get_next_MySQL_packet_def Let_def split: if_splits Option.bind_splits)
    ultimately show ?thesis by simp
  next
    case False
    then obtain h where h: "get_header p = Some h" "length p = 4 + unat (pl_length h)" using n(3) by (auto simp: frame_def split: option.splits)
    have r: "rest = drop (offset + length p) start"
      using n(2) by (metis append_eq_conv_conj drop_drop add.commute)
    have hd: "get_header (drop offset start) = Some h" using get_header_append [of p rest] h n(2) by simp
    have c: "cut_packets (drop offset start) = apfst ((#) p) (cut_packets rest)"
      by (subst cut_packets.simps) (simp add: n(1) False)
    have l: "length (drop offset start) = length p + length rest" using n(2) by (metis length_append)
    have "complete_offset start offset (length (drop offset start)) = complete_offset start (offset + length p) (length rest)"
      unfolding l by (subst complete_offset.simps) (simp add: hd h)
    also have "\<dots> = Some (offset + length p + length (concat (fst (cut_packets rest))))"
      using 1 [OF n(1), of p "offset + length p"] False r by simp
    finally show ?thesis by (simp add: c)
  qed
qed

lemma cut_packets_concat: "concat (fst (cut_packets b)) @ snd (cut_packets b) = b"
proof (induction b rule: cut_packets.induct)
  case (1 b)
  obtain p rest where n: "get_next_MySQL_packet b = Some (p, rest)" "p @ rest = b" using get_next_safe by blast
  show ?case using 1 [OF n(1) refl] n
    by (subst (1 2) cut_packets.simps) auto
qed

lemma get_complete_packets_eq:
  "get_complete_packets b = Some (concat (fst (cut_packets b)), snd (cut_packets b))"
proof -
  have "complete_offset b 0 (length b) = Some (length (concat (fst (cut_packets b))))"
    using complete_offset_cut [of b 0] by simp
  then show ?thesis using cut_packets_concat [of b]
    unfolding get_complete_packets_def by (simp) (metis append_eq_conv_conj)
qed

text \<open>
  C29. Taking all complete packets of a buffer at once gives exactly the packets that repeated
  calls of \<open>get_next_MySQL_packet\<close> give, and leaves the same rest; neither reads outside of the
  buffer.
\<close>

theorem get_complete_packets_cut:
  "get_complete_packets b = Some (concat (fst (cut_packets b)), snd (cut_packets b))"
  by (rule get_complete_packets_eq)

lemma cut_frames:
  assumes "list_all frame ps" "fst (cut_packets tail) = []"
  shows "cut_packets (concat ps @ tail) = (ps, tail)"
  using assms(1)
proof (induction ps)
  case Nil
  then show ?case using assms(2) cut_packets_concat [of tail] by (cases "cut_packets tail") simp
next
  case (Cons p ps)
  then show ?case
    by (subst cut_packets.simps) (simp add: get_next_frame frame_not_Nil)
qed

text \<open>
  A stream of whole packets that ends in an incomplete one is cut at the start of the
  incomplete one: no packet is split, lost or held back.
\<close>

theorem get_complete_packets_frames:
  assumes "list_all frame ps" "fst (cut_packets tail) = []"
  shows "get_complete_packets (concat ps @ tail) = Some (concat ps, tail)"
  using cut_frames [OF assms] by (simp add: get_complete_packets_eq)

theorem get_complete_packets_frames_witness:
  "get_complete_packets [1, 0, 0, 0, 14, 0, 0, 0, 1, 9, 0, 0] =
     Some ([1, 0, 0, 0, 14, 0, 0, 0, 1], [9, 0, 0])"
  using get_complete_packets_frames [of "[[1, 0, 0, 0, 14], [0, 0, 0, 1]]" "[9, 0, 0]"]
  by (simp add: frame_def get_header_def get_byte4_def read_le_def cut_packets.simps
      get_next_MySQL_packet_def)

lemma unat_of_nat_u32: "n < 2 ^ 24 \<Longrightarrow> unat (take_bit 24 (of_nat n :: u32)) = n"
  by (simp add: unsigned_take_bit_eq unsigned_of_nat take_bit_nat_eq_self)
lemma unat_take_bit_less: "unat (take_bit n (x :: 'a::len word)) < 2 ^ n"
  by (simp add: unsigned_take_bit_eq)
lemma length_write_header [simp]: "length (write_header n s) = 4"
  by (simp add: write_header_def Let_def)
lemma frame_write_header:
  "length payload < 2 ^ 24 \<Longrightarrow> frame (write_header (of_nat (length payload)) s @ payload)"
  by (simp add: frame_def get_header_write unat_of_nat_u32)

text \<open>
  The text of a query packet is the text it was created from, and the packet's header
  describes it exactly if the text with its command byte is shorter than two to the power of 24
  bytes; a longer text is not cut into several packets.
\<close>

theorem create_query_round_trip:
  "get_sql (create_query q) = q \<and> is_com_query (create_query q) \<and>
   (frame (create_query q) \<longleftrightarrow> length q + 1 < 2 ^ 24)"
proof -
  have "frame (create_query q) \<longleftrightarrow> length q + 1 = unat (take_bit 24 (of_nat (length q + 1) :: u32))"
    by (simp add: frame_def create_query_def Let_def get_header_write)
  also have "\<dots> \<longleftrightarrow> length q + 1 < 2 ^ 24"
    using unat_of_nat_u32 [of "length q + 1"] unat_take_bit_less [of 24 "of_nat (length q + 1) :: u32"] by linarith
  finally show ?thesis
    by (simp add: get_sql_def is_com_query_or_prepare_def is_com_query_def create_query_def Let_def nth_append)
qed

lemma take_le_bytes: "m \<le> n \<Longrightarrow> take m (le_bytes n v) = le_bytes m v"
  by (simp add: le_bytes_def take_map take_upt)

lemma get_byte3_write_header:
  "get_byte3 (write_header n s @ r) = Some (take_bit 24 n)"
  by (simp add: get_byte3_le write_header_def Let_def set_byte4_def read_le_def take_le_bytes of_le_bytes_le_bytes)
   (auto simp: bit_simps intro!: bit_word_eqI)

lemma length_str_bytes [simp]: "length (str_bytes s) = length s" by (simp add: str_bytes_def)

lemma create_error_packet_drop:
  "drop 5 (create_error_packet sn e state msg) = set_byte2 e @ str_bytes ''#'' @ state @ msg"
  "drop 7 (create_error_packet sn e state msg) = str_bytes ''#'' @ state @ msg"
  "create_error_packet sn e state msg ! 4 = 0xff"
  "length (create_error_packet sn e state msg) = 8 + length state + length msg"
  by (simp_all add: create_error_packet_def Let_def nth_append)

lemma take_bit_of_nat_small: "n < 2 ^ 24 \<Longrightarrow> take_bit 24 (of_nat n :: u32) = of_nat n"
  by (rule take_bit_word_small) (simp add: unsigned_of_nat take_bit_nat_eq_self)
lemma create_error_packet_payload:
  assumes "4 + length state + length msg < 2 ^ 24"
  shows "get_byte3 (create_error_packet sn e state msg) = Some (of_nat (4 + length state + length msg))"
proof -
  have "1 + 2 + 1 + length state + length msg = 4 + length state + length msg" by simp
  then show ?thesis
    unfolding create_error_packet_def Let_def get_byte3_write_header
    using take_bit_of_nat_small [OF assms] by metis
qed

lemma ucast_of_nat_u16: "n < 2 ^ 16 \<Longrightarrow> ucast (of_nat n :: u32) = (of_nat n :: u16)"
  by (rule unsigned_word_eqI [where 'a = nat]) (simp add: unsigned_ucast_eq unsigned_of_nat take_bit_nat_eq_self)

lemma unat_u16: "n < 2 ^ 16 \<Longrightarrow> unat (of_nat n :: u16) = n"
  by (simp add: unsigned_of_nat take_bit_nat_eq_self)

lemma message_length:
  assumes "length msg + 6 < 2 ^ 16"
  shows "ucast (of_nat 4 + (of_nat (9 + length msg) :: u32) - of_nat 4 - 1 - 2) - 6 = (of_nat (length msg) :: u16)"
proof -
  have "(of_nat 4 + of_nat (9 + length msg) - of_nat 4 - 1 - 2 :: u32) = of_nat (length msg + 6)"
    by (simp add: algebra_simps)
  moreover have "ucast (of_nat (length msg + 6) :: u32) - 6 = (of_nat (length msg) :: u16)"
    unfolding ucast_of_nat_u16 [OF assms] by (simp add: algebra_simps)
  ultimately show ?thesis by presburger
qed

text \<open>
  C30. The error number and the text of an error packet are those it was created from; the
  message has to fit into the 16 bits in which its length is kept.
\<close>

theorem error_packet_round_trip:
  assumes "length state = 5" "length msg + 6 < 2 ^ 16"
  shows "mxs_mysql_get_mysql_errno (create_error_packet sn e state msg) = Some e \<and>
   extract_error (create_error_packet sn e state msg) = Some (str_bytes ''#'' @ state @ str_bytes '': '' @ msg)"
proof -
  let ?p = "create_error_packet sn e state msg"
  have s: "extract_error_state ?p = Some (str_bytes ''#'' @ state @ msg, 6)"
    by (simp add: extract_error_state_def advance_def create_error_packet_drop)
      (simp add: str_bytes_def)
  have m: "extract_error_message ?p = Some (msg, of_nat (length msg))"
    using create_error_packet_payload [of state msg sn e] assms message_length [OF assms(2)]
    by (simp add: extract_error_message_def advance_def create_error_packet_drop MYSQL_GET_PAYLOAD_LEN_def str_bytes_def Let_def)
  show ?thesis
    using assms s m unat_u16 [of "length msg"] 
    by (auto simp: mxs_mysql_get_mysql_errno_def mxs_mysql_is_err_packet_def extract_error_def MYSQL_GET_COMMAND_def
      create_error_packet_drop read_string_def str_bytes_def)
qed

theorem error_packet_round_trip_witness:
  "extract_error (create_error_packet 1 1045 (str_bytes ''28000'') (str_bytes ''denied'')) =
     Some (str_bytes ''#28000: denied'')"
  using error_packet_round_trip [of "str_bytes ''28000''" "str_bytes ''denied''" 1 1045]
  by (simp add: str_bytes_def)


lemma length_lut: "length create_command_lut = 255" by (simp add: create_command_lut_def)

lemma u8_le_iff: "(c :: u8) \<le> 31 \<longleftrightarrow> c \<in> set (map of_nat [0..<32])"
proof
  assume "c \<le> 31"
  then have "unat c < 32" by (simp add: word_le_nat_alt)
  then show "c \<in> set (map of_nat [0..<32])" by (auto intro!: image_eqI [of _ _ "unat c"])
next
  assume "c \<in> set (map of_nat [0..<32])"
  then show "c \<le> 31" by (auto simp: word_le_nat_alt unsigned_of_nat take_bit_nat_eq_self)
qed

lemma small_commands: "map of_nat [0..<32] = ([0, 1, 2, 3, 4, 5, 6, 7, 8, 9, 10, 11, 12, 13, 14, 15,
     16, 17, 18, 19, 20, 21, 22, 23, 24, 25, 26, 27, 28, 29, 30, 31] :: u8 list)"
  by code_simp

text \<open>
  The table of valid commands holds the commands of the protocol, but it has no element for
  the byte 255: the check of that command byte reads past the end of the table.
\<close>

theorem valid_command_spec:
  "mxs_mysql_is_valid_command c =
     (if c = 255 then None else Some (c \<le> 31 \<or> c \<in> {0x42, 0xfa, 0xfe}))"
proof -
  have e: "c = 255 \<longleftrightarrow> \<not> unat c < 255"
    using unsigned_less [of c, where 'a = nat] by (auto simp: word_unat_eq_iff)
  have "unat c < 255 \<Longrightarrow> create_command_lut ! unat c \<longleftrightarrow> c \<le> 31 \<or> c \<in> {0x42, 0xfa, 0xfe}"
    unfolding u8_le_iff small_commands create_command_lut_def by (simp del: upt_Suc upt_rec_numeral)
  with e show ?thesis by (simp add: mxs_mysql_is_valid_command_def length_lut)
qed

section \<open>The length of OK packets\<close>

definition sysvar_bytes :: "(bytes \<times> bytes) list \<Rightarrow> nat" where
  "sysvar_bytes attrs = sum_list (map (\<lambda>(k, v). length (encode_sysvar k v)) attrs)"

lemma length_encode_sysvar:
  "length (encode_sysvar k v) = 1 + leint_prefix_bytes (of_nat (sysvar_payload_bytes k v)) + sysvar_payload_bytes k v"
  by (simp add: encode_sysvar_def Let_def sysvar_payload_bytes_def size_prefix_def)

lemma total_sysvar_bytes_alt: "total_sysvar_bytes attrs = of_nat (sysvar_bytes attrs)"
  by (simp add: total_sysvar_bytes_def sysvar_bytes_def length_encode_sysvar Let_def case_prod_beta)

lemma length_concat_sysvars: "length (concat (map (\<lambda>(k, v). encode_sysvar k v) attrs)) = sysvar_bytes attrs"
  by (induction attrs) (auto simp: sysvar_bytes_def)

lemma leint_prefix_le: "leint_prefix_bytes v \<le> 9" "1 \<le> leint_prefix_bytes v" by (simp_all add: leint_prefix_bytes_def)

lemma unat_of_nat_small: "n < 2 ^ 32 \<Longrightarrow> unat (of_nat n :: u32) = n"
  by (simp add: unsigned_of_nat take_bit_nat_eq_self)

lemma ok_attr_total_unat:
  assumes "sysvar_bytes attrs + 32 < 2 ^ 32"
  shows "unat (ok_attr_total attrs) = (if attrs = [] then 0 else sysvar_bytes attrs + ok_attr_prefix attrs)"
proof (cases "attrs = []")
  case False
  have "ok_attr_total attrs = of_nat (sysvar_bytes attrs + ok_attr_prefix attrs)"
    using False by (simp add: ok_attr_total_def total_sysvar_bytes_alt)
  moreover have "sysvar_bytes attrs + ok_attr_prefix attrs < 2 ^ 32"
    using assms False leint_prefix_le [of "ucast (total_sysvar_bytes attrs)"] by (simp add: ok_attr_prefix_def)
  ultimately show ?thesis using False unat_of_nat_small by metis
qed (simp add: ok_attr_total_def)

lemma ok_payload_unat:
  assumes "sysvar_bytes attrs + 32 < 2 ^ 32"
  shows "unat (ok_payload_size rows attrs) = 7 + leint_prefix_bytes rows + unat (ok_attr_total attrs)"
proof -
  have "ok_payload_size rows attrs = of_nat (7 + leint_prefix_bytes rows + unat (ok_attr_total attrs))"
    by (simp add: ok_payload_size_def)
  moreover have "7 + leint_prefix_bytes rows + unat (ok_attr_total attrs) < 2 ^ 32"
    using ok_attr_total_unat [OF assms] assms leint_prefix_le(1) [of rows] leint_prefix_le(1) [of "ucast (total_sysvar_bytes attrs)"]
    by (auto simp: ok_attr_prefix_def)
  ultimately show ?thesis using unat_of_nat_small by metis
qed

text \<open>
  An OK packet, with any session variables, is exactly as long as the buffer that is
  allocated for it, so writing it neither runs past the buffer nor leaves a part of it unset,
  and as long as it is not too large for a packet its header describes it.
\<close>

theorem create_ok_packet_fills:
  assumes "sysvar_bytes attrs + 32 < 2 ^ 32"
  shows "length (create_ok_packet sn rows attrs) = 4 + unat (ok_payload_size rows attrs) \<and>
     (sysvar_bytes attrs + 32 < 2 ^ 24 \<longrightarrow> frame (create_ok_packet sn rows attrs))"
proof -
  have n: "length (create_ok_packet sn rows attrs) = 4 + unat (ok_payload_size rows attrs)"
    unfolding ok_payload_unat [OF assms] using ok_attr_total_unat [OF assms] 
    by (auto simp: create_ok_packet_def Let_def length_concat_sysvars ok_attr_prefix_def ok_attr_total_def unat_eq_0)
  moreover have "frame (create_ok_packet sn rows attrs)" if "sysvar_bytes attrs + 32 < 2 ^ 24"
  proof -
    have "unat (ok_payload_size rows attrs) < 2 ^ 24"
      using that ok_payload_unat [OF assms] ok_attr_total_unat [OF assms] leint_prefix_le(1) [of rows] leint_prefix_le(1) [of "ucast (total_sysvar_bytes attrs)"]
      by (auto simp: ok_attr_prefix_def)
    then have t: "take_bit 24 (ok_payload_size rows attrs) = ok_payload_size rows attrs" by (rule take_bit_word_small)
    have "get_header (create_ok_packet sn rows attrs) = Some \<lparr>pl_length = take_bit 24 (ok_payload_size rows attrs),
        seq = sn OR ucast (drop_bit 24 (ok_payload_size rows attrs))\<rparr>"
      unfolding create_ok_packet_def Let_def by (rule get_header_write)
    then show ?thesis using n t by (simp add: frame_def)
  qed
  ultimately show ?thesis by blast
qed

theorem create_ok_packet_fills_witness:
  "length (create_ok_packet 1 300 [([97], [98, 99])]) = 4 + unat (ok_payload_size 300 [([97], [98, 99])]) \<and>
   frame (create_ok_packet 1 300 [([97], [98, 99])])"
  using create_ok_packet_fills [of "[([97], [98, 99])]" 1 300]
  by (simp add: sysvar_bytes_def length_encode_sysvar sysvar_payload_bytes_def size_prefix_def
      leint_prefix_bytes_def)

end
