(* ===== verification/Packet_Parser.thy ===== *)
theory Packet_Parser
  imports Mariadb_Packet "HOL-Library.Sublist"
begin

text \<open>
  The parser of the client's handshake response and of the change-user request,
  \<open>server/modules/protocol/MariaDB/packet_parser.cc\<close>, and the two functions of
  \<open>mariadb_client.cc\<close> that feed it. A parse routine takes the bytes that are left and returns its
  result with the bytes it leaves; \<open>None\<close> stands for a read or an erase outside of the data,
  which the code does not check for. Lengths that are read from the packet are 64-bit words.
\<close>

section \<open>Capabilities\<close>

definition CAP_CLIENT_MYSQL :: u32 where [flag_defs]: "CAP_CLIENT_MYSQL = push_bit 0 1"
definition CAP_CONNECT_WITH_DB :: u32 where [flag_defs]: "CAP_CONNECT_WITH_DB = push_bit 3 1"
definition CAP_SECURE_CONNECTION :: u32 where [flag_defs]: "CAP_SECURE_CONNECTION = push_bit 15 1"
definition CAP_PLUGIN_AUTH :: u32 where [flag_defs]: "CAP_PLUGIN_AUTH = push_bit 19 1"
definition CAP_CONNECT_ATTRS :: u32 where [flag_defs]: "CAP_CONNECT_ATTRS = push_bit 20 1"
definition CAP_AUTH_LENENC_DATA :: u32 where [flag_defs]: "CAP_AUTH_LENENC_DATA = push_bit 21 1"

definition MXS_EXTRA_CAPABILITIES_SERVER :: u32 where
  "MXS_EXTRA_CAPABILITIES_SERVER = push_bit 2 1 OR push_bit 4 1"

record client_capabilities =
  basic_capabilities :: u32
  ext_capabilities :: u32
  advertised_capabilities :: u64

lemma any_bit_cap [flag_bits]:
  "any_bit x CAP_CLIENT_MYSQL \<longleftrightarrow> bit x 0" "any_bit x CAP_CONNECT_WITH_DB \<longleftrightarrow> bit x 3"
  "any_bit x CAP_SECURE_CONNECTION \<longleftrightarrow> bit x 15" "any_bit x CAP_PLUGIN_AUTH \<longleftrightarrow> bit x 19"
  "any_bit x CAP_CONNECT_ATTRS \<longleftrightarrow> bit x 20" "any_bit x CAP_AUTH_LENENC_DATA \<longleftrightarrow> bit x 21"
  unfolding flag_defs by (rule any_bit_push)+

lemma all_bits_cap [flag_bits]:
  "all_bits x CAP_CONNECT_WITH_DB \<longleftrightarrow> bit x 3" "all_bits x CAP_PLUGIN_AUTH \<longleftrightarrow> bit x 19"
  "all_bits x 0"
  unfolding flag_defs by (rule all_bits_push, simp)+ (simp add: all_bits_def)

section \<open>The parse routines\<close>

definition pop_front :: "nat \<Rightarrow> bytes \<Rightarrow> bytes option" where
  "pop_front len data = (if len \<le> length data then Some (drop len data) else None)"

text \<open>A C string at the start of the data.\<close>

definition c_string :: "bytes \<Rightarrow> bytes option" where
  "c_string data = (if 0 \<in> set data then Some (takeWhile (\<lambda>b. b \<noteq> 0) data) else None)"

definition read_stringz_if_cap ::
  "bytes \<Rightarrow> u32 \<Rightarrow> u32 \<Rightarrow> ((bool \<times> bytes) \<times> bytes) option" where
  "read_stringz_if_cap data client_caps req_caps =
     (if all_bits client_caps req_caps then
        if data \<noteq> [] then
          do { result_str \<leftarrow> c_string data;
               rest \<leftarrow> pop_front (length result_str + 1) data;
               Some ((True, result_str), rest) }
        else Some ((False, []), data)
      else Some ((True, []), data))"

record caps_result =
  capabilities :: client_capabilities
  collation :: u16

definition parse_client_capabilities ::
  "bytes \<Rightarrow> client_capabilities \<Rightarrow> (caps_result \<times> bytes) option" where
  "parse_client_capabilities data old_info =
     do { client \<leftarrow> get_byte4 data;
          let basic = (basic_capabilities old_info OR client)
                AND ucast (advertised_capabilities old_info);
          coll \<leftarrow> (if length data \<le> 8 then None else Some (data ! 8));
          ext \<leftarrow> (if \<not> any_bit basic CAP_CLIENT_MYSQL then
                   map_option (\<lambda>e. e AND MXS_EXTRA_CAPABILITIES_SERVER) (get_byte4 (drop 28 data))
                 else Some (ext_capabilities old_info));
          rest \<leftarrow> pop_front 32 data;
          Some (\<lparr>capabilities =
                   \<lparr>basic_capabilities = basic,
                    ext_capabilities = ext AND ucast (drop_bit 32 (advertised_capabilities old_info)),
                    advertised_capabilities = advertised_capabilities old_info\<rparr>,
                 collation = ucast coll\<rparr>, rest) }"

datatype auth_packet_type = HANDSHAKE_RESPONSE | COM_CHANGE_USER

record auth_parse_result =
  token_success :: bool
  auth_token :: bytes
  old_protocol :: bool

text \<open>The length of the token, with the number of bytes it is written in.\<close>

datatype token_length = Token_Length u64 u64 | Length_Overrun | Old_Protocol

definition auth_token_length :: "bytes \<Rightarrow> u32 \<Rightarrow> auth_packet_type \<Rightarrow> token_length option" where
  "auth_token_length data client_caps packet_type =
     (if packet_type = HANDSHAKE_RESPONSE \<and> any_bit client_caps CAP_AUTH_LENENC_DATA then
        do { n \<leftarrow> leint_bytes data;
             if n \<le> length data then
               do { len \<leftarrow> leint_value data; Some (Token_Length (of_nat n) len) }
             else Some Length_Overrun }
      else if any_bit client_caps CAP_SECURE_CONNECTION then
        (case data of [] \<Rightarrow> None | c # _ \<Rightarrow> Some (Token_Length 1 (ucast c)))
      else Some Old_Protocol)"

definition parse_auth_token ::
  "bytes \<Rightarrow> u32 \<Rightarrow> auth_packet_type \<Rightarrow> (auth_parse_result \<times> bytes) option" where
  "parse_auth_token data client_caps packet_type =
     (let failed = \<lparr>token_success = False, auth_token = [], old_protocol = False\<rparr> in
      if data = [] then Some (failed, data)
      else
        do { len \<leftarrow> auth_token_length data client_caps packet_type;
             case len of
               Length_Overrun \<Rightarrow> Some (failed, data)
             | Old_Protocol \<Rightarrow> Some (failed\<lparr>old_protocol := True\<rparr>, data)
             | Token_Length len_bytes token_len \<Rightarrow>
                 (let total_len = len_bytes + token_len in
                  if total_len \<le> of_nat (length data) then
                    do { ptr \<leftarrow> advance (unat len_bytes) data;
                         token \<leftarrow> read_string ptr (unat token_len);
                         rest \<leftarrow> pop_front (unat total_len) data;
                         Some (failed\<lparr>token_success := True, auth_token := token\<rparr>, rest) }
                  else Some (failed, data)) })"

record attr_parse_result =
  attr_success :: bool
  attr_data :: bytes

definition parse_attributes :: "bytes \<Rightarrow> u32 \<Rightarrow> (attr_parse_result \<times> bytes) option" where
  "parse_attributes data client_caps =
     (let failed = \<lparr>attr_success = False, attr_data = []\<rparr> in
      if data = [] then Some (failed, data)
      else if any_bit client_caps CAP_CONNECT_ATTRS then
        do { leint_len \<leftarrow> leint_bytes data;
             if leint_len \<le> length data then
               do { attr_len \<leftarrow> leint_value data;
                    let total_attr_len = of_nat leint_len + attr_len;
                    if total_attr_len \<le> of_nat (length data) then
                      do { attrs \<leftarrow> read_string data (unat total_attr_len);
                           rest \<leftarrow> pop_front (unat total_attr_len) data;
                           Some (\<lparr>attr_success = True, attr_data = attrs\<rparr>, rest) }
                    else Some (failed, data) }
             else Some (failed, data) }
      else Some (failed\<lparr>attr_success := True\<rparr>, data))"

definition to_lower :: "bytes \<Rightarrow> bytes" where
  "to_lower s = map (\<lambda>b. if 65 \<le> b \<and> b \<le> 90 then b + 32 else b) s"

record client_response =
  success :: bool
  username :: bytes
  db :: bytes
  plugin :: bytes
  token_res :: auth_parse_result
  attr_res :: attr_parse_result

definition parse_client_response :: "bytes \<Rightarrow> u32 \<Rightarrow> (client_response \<times> bytes) option" where
  "parse_client_response data client_caps =
     do { name \<leftarrow> c_string data;
          data \<leftarrow> pop_front (length name + 1) data;
          (tres, data) \<leftarrow> parse_auth_token data client_caps HANDSHAKE_RESPONSE;
          let rval = \<lparr>success = False, username = name, db = [], plugin = [], token_res = tres,
                      attr_res = \<lparr>attr_success = False, attr_data = []\<rparr>\<rparr>;
          if token_success tres then
            do { ((db_ok, db_str), data) \<leftarrow> read_stringz_if_cap data client_caps CAP_CONNECT_WITH_DB;
                 ((plugin_ok, plugin_str), data) \<leftarrow> read_stringz_if_cap data client_caps CAP_PLUGIN_AUTH;
                 if db_ok \<and> plugin_ok then
                   do { (ares, data) \<leftarrow> parse_attributes data client_caps;
                        Some (rval\<lparr>success := True, db := db_str, plugin := to_lower plugin_str,
                                   attr_res := ares\<rparr>, data) }
                 else Some (rval, data) }
          else Some (rval, data) }"

record change_user_response = client_response +
  charset :: u16

definition parse_change_user_packet :: "bytes \<Rightarrow> u32 \<Rightarrow> (change_user_response \<times> bytes) option" where
  "parse_change_user_packet data client_caps =
     do { data \<leftarrow> advance 1 data;
          name \<leftarrow> c_string data;
          data \<leftarrow> pop_front (length name + 1) data;
          (tres, data) \<leftarrow> parse_auth_token data client_caps COM_CHANGE_USER;
          let rval = \<lparr>success = False, username = name, db = [], plugin = [], token_res = tres,
                      attr_res = \<lparr>attr_success = False, attr_data = []\<rparr>, charset = 0\<rparr>;
          if token_success tres then
            do { ((db_ok, db_str), data) \<leftarrow> read_stringz_if_cap data client_caps 0;
                 if db_ok then
                   let rval = rval\<lparr>db := db_str\<rparr> in
                   if 2 \<le> length data then
                     do { cs \<leftarrow> get_byte2 data;
                          data \<leftarrow> pop_front 2 data;
                          let rval = rval\<lparr>charset := cs\<rparr>;
                          ((plugin_ok, plugin_str), data) \<leftarrow>
                            read_stringz_if_cap data client_caps CAP_PLUGIN_AUTH;
                          if plugin_ok then
                            do { (ares, data) \<leftarrow> parse_attributes data client_caps;
                                 Some (rval\<lparr>plugin := plugin_str, attr_res := ares,
                                            success := attr_success ares\<rparr>, data) }
                          else Some (rval, data) }
                   else Some (rval, data)
                 else Some (rval, data) }
          else Some (rval, data) }"

definition parse_auth_switch_request :: "bytes \<Rightarrow> (bytes \<times> bytes) option" where
  "parse_auth_switch_request data =
     (if 3 \<le> length data \<and> data ! 0 = 0xfe then
        (let ptr = drop 1 data;
             name = takeWhile (\<lambda>b. b \<noteq> 0) ptr
         in if 0 < length name \<and> length name < length ptr
            then Some (name, drop (length name + 1) ptr) else None)
      else None)"

section \<open>The handshake response and change-user packets\<close>

text \<open>
  The part of \<open>parse_handshake_response_packet\<close> and \<open>start_change_user\<close> of the client connection
  that fills in the authentication data. The outer value is \<open>None\<close> for an access outside of the
  data, the inner one if the packet is refused.
\<close>

record auth_data =
  user :: bytes
  client_token :: bytes
  default_db :: bytes
  auth_plugin :: bytes
  attributes :: bytes
  auth_collation :: u16

definition parse_handshake_response_packet ::
  "client_capabilities \<Rightarrow> bytes \<Rightarrow> (auth_data \<times> client_capabilities) option option" where
  "parse_handshake_response_packet client_caps buffer =
     (if 36 + 2 \<le> length buffer \<and> length buffer \<le> 0xffffff - 1 then
        do { (client_info, data) \<leftarrow>
               parse_client_capabilities (drop MYSQL_HEADER_LEN buffer @ [0]) client_caps;
             (parse_res, data) \<leftarrow>
               parse_client_response data (basic_capabilities (capabilities client_info));
             Some (if success parse_res \<and> 1 \<le> length data then
               let caps = capabilities client_info;
                   complete = (length data = 1);
                   attrs = (if complete then attr_data (attr_res parse_res) else []);
                   caps = (if complete then caps
                     else caps\<lparr>basic_capabilities := basic_capabilities caps AND NOT CAP_CONNECT_ATTRS\<rparr>)
               in Some (\<lparr>user = username parse_res, client_token = auth_token (token_res parse_res),
                         default_db = db parse_res, auth_plugin = plugin parse_res, attributes = attrs,
                         auth_collation = collation client_info\<rparr>, caps)
             else None) }
      else Some None)"

definition start_change_user :: "u32 \<Rightarrow> bytes \<Rightarrow> auth_data option option" where
  "start_change_user client_caps buffer =
     (if 4 + 5 \<le> length buffer \<and> length buffer \<le> 4 + 5 + 128 + 128 + 1000 then
        do { (parse_res, data) \<leftarrow>
               parse_change_user_packet (drop MYSQL_HEADER_LEN buffer @ [0]) client_caps;
             Some (if success parse_res \<and> length data = 1 then
               Some \<lparr>user = username parse_res, client_token = auth_token (token_res parse_res),
                     default_db = db parse_res, auth_plugin = plugin parse_res,
                     attributes = attr_data (attr_res parse_res), auth_collation = charset parse_res\<rparr>
             else None) }
      else Some None)"

section \<open>Memory safety\<close>

text \<open>
  A length that is read at the start of the data does not wrap around when the bytes it takes
  are added to it, and data that was given a terminating zero and from which only a part at the
  front was taken.
\<close>

definition length_fits :: "bytes \<Rightarrow> bool" where
  "length_fits data = (case leint_value data of None \<Rightarrow> True | Some len \<Rightarrow> unat len + 9 < 2 ^ 64)"

definition zero_terminated :: "bytes \<Rightarrow> bool" where
  "zero_terminated data \<longleftrightarrow> data = [] \<or> last data = 0"

lemma zero_terminated_suffix: "zero_terminated data \<Longrightarrow> suffix rest data \<Longrightarrow> zero_terminated rest"
  by (cases "rest = []") (auto simp: zero_terminated_def suffix_def)

lemma c_string_pop:
  assumes "zero_terminated data" "data \<noteq> []"
  obtains s rest where "c_string data = Some s" "pop_front (length s + 1) data = Some rest" "suffix rest data"
proof
  have "0 \<in> set data" using assms by (auto simp: zero_terminated_def dest: last_in_set)
  then show "c_string data = Some (takeWhile (\<lambda>b. b \<noteq> 0) data)" by (simp add: c_string_def)
  have "length (takeWhile (\<lambda>b. b \<noteq> 0) data) < length data"
    using \<open>0 \<in> set data\<close> by (metis (mono_tags, lifting) length_takeWhile_le nat_less_le takeWhile_eq_all_conv takeWhile_eq_take take_all)
  then show "pop_front (length (takeWhile (\<lambda>b. b \<noteq> 0) data) + 1) data = Some (drop (length (takeWhile (\<lambda>b. b \<noteq> 0) data) + 1) data)"
    by (simp add: pop_front_def)
qed (rule suffix_drop)

lemma read_stringz_safe:
  assumes "zero_terminated data"
  obtains ok s rest where "read_stringz_if_cap data caps req = Some ((ok, s), rest)" "suffix rest data"
proof (cases "data \<noteq> [] \<and> all_bits caps req")
  case True
  obtain s rest where "c_string data = Some s" "pop_front (length s + 1) data = Some rest" "suffix rest data"
    using c_string_pop [OF assms] True by blast
  then show ?thesis using True by (intro that [of True s rest]) (auto simp: read_stringz_if_cap_def)
next
  case False
  then show ?thesis
    by (intro that [of "\<not> all_bits caps req" "[]" data]) (auto simp: read_stringz_if_cap_def)
qed

lemma leint_bytes_pos: "data \<noteq> [] \<Longrightarrow> \<exists>n. leint_bytes data = Some n \<and> 1 \<le> n \<and> n \<le> 9"
  by (cases data) (auto simp: leint_bytes_def)

lemma leint_value_safe: "leint_bytes data = Some n \<Longrightarrow> n \<le> length data \<Longrightarrow> \<exists>len. leint_value data = Some len"
  by (cases data) (auto simp: leint_bytes_def leint_value_def read_le_def split: if_splits)

lemma total_fits:
  assumes "unat (len :: u64) + 9 < 2 ^ 64" "unat b \<le> 9"
  shows "unat (b + len) = unat b + unat len"
  using assms by (simp add: unat_word_ariths)

lemma unat_of_nat_9: "n \<le> 9 \<Longrightarrow> unat (of_nat n :: u64) = n"
  by (simp add: unsigned_of_nat take_bit_nat_eq_self)

lemma le_of_nat_u64: "length data < 2 ^ 64 \<Longrightarrow> (x :: u64) \<le> of_nat (length data) \<longleftrightarrow> unat x \<le> length data"
  by (simp add: word_le_nat_alt unsigned_of_nat take_bit_nat_eq_self)

lemma unat_byte: "unat (ucast (b :: u8) :: u64) = unat b \<and> unat b < 256"
proof -
  have "unat b < 256" using unsigned_less [of b, where 'a = nat] by simp
  then show ?thesis by (simp add: unsigned_ucast_eq take_bit_nat_eq_self)
qed

lemma parse_auth_token_safe:
  assumes "length data < 2 ^ 64" "length_fits data"
  shows "\<exists>r rest. parse_auth_token data caps pt = Some (r, rest) \<and> suffix rest data"
proof (cases "data = []")
  case True
  then show ?thesis by (simp add: parse_auth_token_def)
next
  case False
  obtain n where n: "leint_bytes data = Some n" "1 \<le> n" "n \<le> 9" using leint_bytes_pos [OF False] by blast
  have one: "unat (ucast (hd data) :: u64) + 9 < 2 ^ 64" using unat_byte [of "hd data"] by simp
  have "\<exists>l. auth_token_length data caps pt = Some l \<and>
    (\<forall>b len. l = Token_Length b len \<longrightarrow> unat b \<le> 9 \<and> unat len + 9 < 2 ^ 64)"
    using n leint_value_safe [OF n(1)] False assms(2) one unat_of_nat_9 [OF n(3)]
    by (cases data) (auto simp: auth_token_length_def length_fits_def)
  then obtain l where l: "auth_token_length data caps pt = Some l"
    "\<And>b len. l = Token_Length b len \<Longrightarrow> unat b \<le> 9 \<and> unat len + 9 < 2 ^ 64" by blast
  show ?thesis
  proof (cases l)
    case (Token_Length b len)
    with l(2) have k: "unat b \<le> 9" "unat len + 9 < 2 ^ 64" by blast+
    show ?thesis
      using Token_Length l(1) False total_fits [OF k(2,1)] le_of_nat_u64 [OF assms(1), of "b + len"]
      by (cases "unat b + unat len \<le> length data")
        (auto simp: parse_auth_token_def advance_def read_string_def pop_front_def suffix_drop le_diff_conv2)
  qed (use l False in \<open>auto simp: parse_auth_token_def\<close>)
qed

lemma parse_attributes_safe:
  assumes "length data < 2 ^ 64" "length_fits data"
  shows "\<exists>r rest. parse_attributes data caps = Some (r, rest) \<and> suffix rest data"
proof (cases "data = []")
  case False
  obtain n where n: "leint_bytes data = Some n" "1 \<le> n" "n \<le> 9" using leint_bytes_pos [OF False] by blast
  show ?thesis
  proof (cases "n \<le> length data")
    case True
    then obtain len where len: "leint_value data = Some len" using leint_value_safe [OF n(1)] by blast
    then have k: "unat len + 9 < 2 ^ 64" using assms(2) by (simp add: length_fits_def)
    show ?thesis
      using n True len False total_fits [OF k, of "of_nat n"] unat_of_nat_9 [OF n(3)] le_of_nat_u64 [OF assms(1), of "of_nat n + len"]
      by (auto simp: parse_attributes_def read_string_def pop_front_def suffix_drop Let_def)
  qed (use n False in \<open>auto simp: parse_attributes_def Let_def\<close>)
qed (simp add: parse_attributes_def)

lemma parse_client_capabilities_Some:
  "32 \<le> length data \<Longrightarrow> \<exists>r. parse_client_capabilities data old = Some (r, drop 32 data)"
  by (auto simp: parse_client_capabilities_def Let_def get_byte4_def read_le_def pop_front_def)

lemma parse_client_response_safe:
  assumes "data \<noteq> []" "last data = 0" "length data < 2 ^ 64" "list_all length_fits (suffixes data)"
  shows "\<exists>r rest. parse_client_response data caps = Some (r, rest) \<and> suffix rest data"
proof -
  have z: "zero_terminated d" "length d < 2 ^ 64" "length_fits d" if "suffix d data" for d
    using assms that zero_terminated_suffix [of data d] 
    by (auto simp: zero_terminated_def list_all_iff suffix_length_le le_less_trans dest: suffix_length_le)
  obtain name d1 where 1: "c_string data = Some name" "pop_front (length name + 1) data = Some d1" "suffix d1 data"
    using c_string_pop z(1) [of data] assms(1) by blast
  obtain tres d2 where 2: "parse_auth_token d1 caps HANDSHAKE_RESPONSE = Some (tres, d2)" "suffix d2 d1"
    using parse_auth_token_safe z(2,3) 1(3) by blast
  have s2: "suffix d2 data" using 2 1 suffix_order.trans by blast
  obtain o3 s3 d3 where 3: "read_stringz_if_cap d2 caps CAP_CONNECT_WITH_DB = Some ((o3, s3), d3)" "suffix d3 d2"
    using read_stringz_safe z(1) s2 by blast
  have s3: "suffix d3 data" using 3 s2 suffix_order.trans by blast
  obtain o4 s4 d4 where 4: "read_stringz_if_cap d3 caps CAP_PLUGIN_AUTH = Some ((o4, s4), d4)" "suffix d4 d3"
    using read_stringz_safe z(1) s3 by blast
  have s4: "suffix d4 data" using 4 s3 suffix_order.trans by blast
  obtain ar d5 where 5: "parse_attributes d4 caps = Some (ar, d5)" "suffix d5 d4"
    using parse_attributes_safe z(2,3) s4 by blast
  have s5: "suffix d5 data" using 5 s4 suffix_order.trans by blast
  show ?thesis
    using 1 2 3 4 5 s2 s3 s4 s5 by (simp add: parse_client_response_def Let_def)
qed

text \<open>
  C26. A handshake response packet of any content is parsed without a read outside of its data,
  provided that no length field in it wraps around: the parser only reads strings that the
  zero added by the caller ends.
\<close>

theorem handshake_packet_safe:
  assumes "list_all length_fits (suffixes (drop 36 buffer @ [0]))"
  shows "\<exists>res. parse_handshake_response_packet caps buffer = Some res"
proof (cases "38 \<le> length buffer \<and> length buffer \<le> 0xfffffe")
  case True
  let ?data = "drop 36 buffer @ [0]"
  have "32 \<le> length (drop 4 buffer @ [0])" "drop 32 (drop 4 buffer @ [0]) = ?data"
    using True by (simp_all, linarith)
  with parse_client_capabilities_Some [of "drop 4 buffer @ [0]" caps]
  obtain ci where ci: "parse_client_capabilities (drop 4 buffer @ [0]) caps = Some (ci, ?data)"
    by auto
  obtain pr rest where "parse_client_response ?data (basic_capabilities (capabilities ci)) = Some (pr, rest)"
    using parse_client_response_safe [OF _ _ _ assms] True by fastforce
  with ci True show ?thesis by (simp add: parse_handshake_response_packet_def)
qed (auto simp: parse_handshake_response_packet_def)

theorem handshake_packet_safe_witness:
  "\<exists>res. parse_handshake_response_packet
      \<lparr>basic_capabilities = 0, ext_capabilities = 0, advertised_capabilities = - 1\<rparr>
      (replicate 36 0 @ [97, 0, 5, 0xfd]) = Some res"
  by (rule handshake_packet_safe)
    (simp add: length_fits_def leint_value_def read_le_def unat_byte)

text \<open>
  C28. The limit is real: a client that sends a token length just below two to the power of 64
  makes the sum of the length and its own size wrap around to a small number, so the check of
  the length passes and the token is read far outside of the packet.
\<close>

theorem parse_auth_token_overflow:
  assumes "any_bit caps CAP_AUTH_LENENC_DATA" "k < 9" "length rest < 2 ^ 63"
  shows "parse_auth_token (0xfe # set_byte8 (of_nat k - 9) @ rest) caps HANDSHAKE_RESPONSE = None"
proof -
  let ?d = "0xfe # set_byte8 (of_nat k - 9) @ rest"
  have l: "auth_token_length ?d caps HANDSHAKE_RESPONSE = Some (Token_Length 9 (of_nat k - 9))"
    using assms(1) by (simp add: auth_token_length_def leint_bytes_def leint_value_def set_byte8_def of_le_bytes_full)
  have "k \<in> {0, 1, 2, 3, 4, 5, 6, 7, 8}" using assms(2) by auto
  then have u: "unat (of_nat k - 9 :: u64) > 2 ^ 63" by (elim insertE) (simp_all add: unsigned_minus_1_eq_mask mask_eq_exp_minus_1)
  have "(of_nat k :: u64) \<le> of_nat (length ?d)"
    using assms(2,3) by (simp add: word_le_nat_alt unsigned_of_nat take_bit_nat_eq_self del: of_nat_add of_nat_Suc)
  then show ?thesis using l u assms(3)
    by (simp add: parse_auth_token_def advance_def read_string_def Let_def)
qed

theorem parse_auth_token_overflow_witness:
  "parse_auth_token (0xfe # set_byte8 (of_nat 3 - 9) @ [0, 0]) CAP_AUTH_LENENC_DATA HANDSHAKE_RESPONSE = None"
  using parse_auth_token_overflow [of CAP_AUTH_LENENC_DATA 3 "[0, 0]"]
  by (simp add: any_bit_def CAP_AUTH_LENENC_DATA_def)

section \<open>What is parsed\<close>

text \<open>
  The capabilities of a session are never more than those that were offered to the client,
  and capabilities that an earlier packet of the same handshake brought are kept.
\<close>

theorem parse_client_capabilities_bounded:
  assumes "32 \<le> length data"
  shows "\<exists>r. parse_client_capabilities data old = Some (r, drop 32 data) \<and>
    mask_within (basic_capabilities (capabilities r)) (ucast (advertised_capabilities old)) \<and>
    mask_within (ext_capabilities (capabilities r))
      (ucast (drop_bit 32 (advertised_capabilities old))) \<and>
    mask_within (basic_capabilities old AND ucast (advertised_capabilities old))
      (basic_capabilities (capabilities r))"
  using assms
  by (auto simp: parse_client_capabilities_def mask_within_iff bit_simps Let_def get_byte4_def
      read_le_def pop_front_def)

theorem parse_client_capabilities_bounded_witness:
  "\<exists>r. parse_client_capabilities (replicate 40 7)
      \<lparr>basic_capabilities = 8, ext_capabilities = 0, advertised_capabilities = 10\<rparr> = Some (r, replicate 8 7) \<and>
    mask_within (basic_capabilities (capabilities r)) 10"
  using parse_client_capabilities_bounded [of "replicate 40 7"
      "\<lparr>basic_capabilities = 8, ext_capabilities = 0, advertised_capabilities = 10\<rparr>"]
  by auto

text \<open>
  A handshake response as clients that support all of the optional fields send it, after the
  capabilities.
\<close>

definition lenenc :: "bytes \<Rightarrow> bytes" where
  "lenenc s = encode_leint (size_prefix s) (of_nat (length s)) @ s"

definition handshake_response :: "bytes \<Rightarrow> bytes \<Rightarrow> bytes \<Rightarrow> bytes \<Rightarrow> bytes \<Rightarrow> bytes" where
  "handshake_response uname token dbname plugin_name attrs =
     uname @ [0] @ lenenc token @ dbname @ [0] @ plugin_name @ [0] @ lenenc attrs"

lemma c_string_append: "0 \<notin> set s \<Longrightarrow> c_string (s @ 0 # r) = Some s"
  by (simp add: c_string_def takeWhile_append)

lemma pop_front_append: "pop_front (Suc (length s)) (s @ c # r) = Some r"
  by (simp add: pop_front_def)

lemma read_stringz_append:
  "0 \<notin> set s \<Longrightarrow> all_bits caps req \<Longrightarrow> read_stringz_if_cap (s @ 0 # r) caps req = Some ((True, s), r)"
  by (simp add: read_stringz_if_cap_def c_string_append pop_front_append)

lemma leint_encode_parts:
  "leint_value (encode_leint (leint_prefix_bytes v) v @ r) = Some v"
  "leint_bytes (encode_leint (leint_prefix_bytes v) v @ r) = Some (leint_prefix_bytes v)"
proof -
  obtain n where n: "leint_value (encode_leint (leint_prefix_bytes v) v @ r) = Some v"
    "leint_bytes (encode_leint (leint_prefix_bytes v) v @ r) = Some n"
    "advance n (encode_leint (leint_prefix_bytes v) v @ r) = Some r"
    using leint_consume_encode [of v r] unfolding leint_consume_def by (auto split: Option.bind_splits)
  then show "leint_value (encode_leint (leint_prefix_bytes v) v @ r) = Some v"
    "leint_bytes (encode_leint (leint_prefix_bytes v) v @ r) = Some (leint_prefix_bytes v)"
    by (auto simp: advance_def split: if_splits dest: arg_cong [of _ _ length])
qed

lemma size_prefix_bounds: "1 \<le> size_prefix s" "size_prefix s \<le> 9"
  using leint_prefix_le by (simp_all add: size_prefix_def)

lemma length_lenenc: "length (lenenc s) = size_prefix s + length s"
  by (simp add: lenenc_def size_prefix_def)

lemma lenenc_not_Nil: "lenenc s \<noteq> []"
  using length_lenenc [of s] size_prefix_bounds [of s] by (metis add_is_0 list.size(3) not_one_le_zero)

lemma lenenc_parts:
  "leint_value (lenenc s @ r) = Some (of_nat (length s))" "leint_bytes (lenenc s @ r) = Some (size_prefix s)"
  "drop (size_prefix s) (lenenc s) = s"
  by (simp_all add: lenenc_def size_prefix_def leint_encode_parts)

lemma lenenc_total:
  assumes "length s < 2 ^ 62"
  shows "unat (of_nat (size_prefix s) + of_nat (length s) :: u64) = length (lenenc s)"
    "unat (of_nat (length s) :: u64) = length s" "unat (of_nat (size_prefix s) :: u64) = size_prefix s"
  using assms size_prefix_bounds [of s]
  by (simp_all add: length_lenenc unat_word_ariths unsigned_of_nat take_bit_nat_eq_self)

lemma lenenc_le_data:
  assumes "length s + length r < 2 ^ 62"
  shows "(of_nat (size_prefix s) + of_nat (length s) :: u64) \<le> of_nat (length (lenenc s @ r))"
proof -
  have "length (lenenc s @ r) < 2 ^ 64" "length s < 2 ^ 62" using assms size_prefix_bounds [of s] by (simp_all add: length_lenenc)
  then show ?thesis using le_of_nat_u64 [of "lenenc s @ r"] lenenc_total(1) [of s] by simp
qed

lemma parse_auth_token_lenenc:
  assumes "any_bit caps CAP_AUTH_LENENC_DATA" "length token + length r < 2 ^ 62"
  shows "parse_auth_token (lenenc token @ r) caps HANDSHAKE_RESPONSE =
    Some (\<lparr>token_success = True, auth_token = token, old_protocol = False\<rparr>, r)"
proof -
  have t: "length token < 2 ^ 62" using assms(2) by simp
  have "auth_token_length (lenenc token @ r) caps HANDSHAKE_RESPONSE =
     Some (Token_Length (of_nat (size_prefix token)) (of_nat (length token)))"
    using assms(1) by (simp add: auth_token_length_def lenenc_parts length_lenenc)
  then show ?thesis
    using lenenc_le_data [OF assms(2)] lenenc_total [OF t] lenenc_not_Nil [of token]
    by (simp add: parse_auth_token_def advance_def read_string_def pop_front_def lenenc_parts length_lenenc Let_def del: of_nat_add)
qed

lemma parse_attributes_lenenc:
  assumes "any_bit caps CAP_CONNECT_ATTRS" "length attrs + length r < 2 ^ 62"
  shows "parse_attributes (lenenc attrs @ r) caps = Some (\<lparr>attr_success = True, attr_data = lenenc attrs\<rparr>, r)"
proof -
  have t: "length attrs < 2 ^ 62" using assms(2) by simp
  then show ?thesis
    using assms(1) lenenc_le_data [OF assms(2)] lenenc_total [OF t] lenenc_not_Nil [of attrs]
    by (simp add: parse_attributes_def read_string_def pop_front_def lenenc_parts length_lenenc Let_def)
qed

text \<open>
  C27. From a response of a client that supports all optional fields the parser takes exactly
  the user name, authentication token, database and connection attributes that the client sent,
  and the name of the plugin in lower case, and leaves the terminating zero.
\<close>

theorem handshake_response_round_trip:
  assumes "0 \<notin> set uname" "0 \<notin> set dbname" "0 \<notin> set plugin_name"
    and "length token + length dbname + length plugin_name + length attrs < 2 ^ 61"
    and "all_bits caps CAP_CONNECT_WITH_DB" "all_bits caps CAP_PLUGIN_AUTH" "any_bit caps CAP_AUTH_LENENC_DATA" "any_bit caps CAP_CONNECT_ATTRS"
  shows "parse_client_response (handshake_response uname token dbname plugin_name attrs @ [0]) caps =
    Some (\<lparr>success = True, username = uname, db = dbname, plugin = to_lower plugin_name,
       token_res = \<lparr>token_success = True, auth_token = token, old_protocol = False\<rparr>,
       attr_res = \<lparr>attr_success = True, attr_data = lenenc attrs\<rparr>\<rparr>, [0])"
proof -
  have l: "length token + length (dbname @ [0] @ plugin_name @ [0] @ lenenc attrs @ [0]) < 2 ^ 62"
    "length attrs + length [0::u8] < 2 ^ 62"
    using assms(4) size_prefix_bounds [of attrs] by (simp_all add: length_lenenc)
  show ?thesis
    using parse_auth_token_lenenc [OF assms(7) l(1)] parse_attributes_lenenc [OF assms(8) l(2)] assms(1-3,5,6)
    by (simp add: handshake_response_def parse_client_response_def c_string_append pop_front_append read_stringz_append Let_def)
qed

theorem handshake_response_round_trip_witness:
  "parse_client_response (handshake_response [97] [1, 2, 0, 3] [100, 98] [80] [7] @ [0]) (- 1) =
    Some (\<lparr>success = True, username = [97], db = [100, 98], plugin = to_lower [80],
       token_res = \<lparr>token_success = True, auth_token = [1, 2, 0, 3], old_protocol = False\<rparr>,
       attr_res = \<lparr>attr_success = True, attr_data = lenenc [7]\<rparr>\<rparr>, [0])"
  by (rule handshake_response_round_trip) (simp_all add: flag_bits)

end
