(* ===== verification/Trx_Tracker.thy ===== *)
theory Trx_Tracker
  imports Sql_Types
begin

text \<open>
  \<open>mariadb::TrxTracker\<close> (\<open>include/maxscale/queryclassifier.hh\<close>): the transaction state of
  a session, kept as a byte of flags, the default access mode and the autocommit mode. It is
  driven by the type masks of the statements (\<open>track_transaction_state\<close>) and corrected from
  the status bits of the replies (\<open>fix_trx_state\<close>).

  The theory models the two operations on the flag byte and refines them to a machine over an
  explicit phase of the transaction, in which the sequences of statements are easy to follow.
\<close>

section \<open>The tracker\<close>

definition TRX_INACTIVE :: u8 where [flag_defs]: "TRX_INACTIVE = 0"
definition TRX_ACTIVE :: u8 where [flag_defs]: "TRX_ACTIVE = push_bit 0 1"
definition TRX_READ_ONLY :: u8 where [flag_defs]: "TRX_READ_ONLY = push_bit 1 1"
definition TRX_ENDING :: u8 where [flag_defs]: "TRX_ENDING = push_bit 2 1"
definition TRX_STARTING :: u8 where [flag_defs]: "TRX_STARTING = push_bit 3 1"

record trx_tracker =
  m_default_trx_mode :: u8
  m_trx_state :: u8
  m_autocommit :: bool

text \<open>The member initialisers of the class.\<close>

definition new_trx_tracker :: trx_tracker where
  "new_trx_tracker =
     \<lparr>m_default_trx_mode = 0, m_trx_state = TRX_INACTIVE, m_autocommit = True\<rparr>"

definition is_autocommit :: "trx_tracker \<Rightarrow> bool" where
  "is_autocommit t \<longleftrightarrow> m_autocommit t"

definition is_trx_read_only :: "trx_tracker \<Rightarrow> bool" where
  "is_trx_read_only t \<longleftrightarrow> any_bit (m_trx_state t) TRX_READ_ONLY"

definition is_trx_ending :: "trx_tracker \<Rightarrow> bool" where
  "is_trx_ending t \<longleftrightarrow> any_bit (m_trx_state t) TRX_ENDING"

definition is_trx_starting :: "trx_tracker \<Rightarrow> bool" where
  "is_trx_starting t \<longleftrightarrow> any_bit (m_trx_state t) TRX_STARTING"

definition is_trx_active :: "trx_tracker \<Rightarrow> bool" where
  "is_trx_active t \<longleftrightarrow> any_bit (m_trx_state t) TRX_ACTIVE"

definition set_autocommit :: "trx_tracker \<Rightarrow> bool \<Rightarrow> trx_tracker" where
  "set_autocommit t value = t\<lparr>m_autocommit := value\<rparr>"

definition set_state :: "trx_tracker \<Rightarrow> u8 \<Rightarrow> trx_tracker" where
  "set_state t state = t\<lparr>m_trx_state := state\<rparr>"

text \<open>
  The first half of \<open>track_transaction_state\<close>: what the previous statement left behind is
  settled before the type of the new one is looked at.
\<close>

definition settle_trx_state :: "trx_tracker \<Rightarrow> trx_tracker" where
  "settle_trx_state t =
     (let trx_starting_active = TRX_ACTIVE OR TRX_STARTING in
      if any_bit (m_trx_state t) TRX_ENDING then
        if m_autocommit t then t\<lparr>m_trx_state := TRX_INACTIVE\<rparr>
        else t\<lparr>m_trx_state := trx_starting_active OR m_default_trx_mode t\<rparr>
      else if any_bit (m_trx_state t) TRX_STARTING then
        t\<lparr>m_trx_state := m_trx_state t AND NOT TRX_STARTING\<rparr>
      else if \<not> m_autocommit t \<and> m_trx_state t = TRX_INACTIVE then
        t\<lparr>m_trx_state := trx_starting_active OR m_default_trx_mode t\<rparr>
      else t)"

text \<open>The second half: the effect of the type of the statement.\<close>

definition apply_trx_type :: "trx_tracker \<Rightarrow> u32 \<Rightarrow> trx_tracker" where
  "apply_trx_type t type =
     (let trx_starting_active = TRX_ACTIVE OR TRX_STARTING in
      if any_bit type TYPE_BEGIN_TRX then
        if any_bit type TYPE_DISABLE_AUTOCOMMIT then
          t\<lparr>m_autocommit := False, m_trx_state := TRX_INACTIVE\<rparr>
        else
          (let new_trx_state = trx_starting_active OR m_default_trx_mode t;
               new_trx_state =
                 (if any_bit type TYPE_READ then new_trx_state OR TRX_READ_ONLY
                  else if any_bit type TYPE_WRITE then new_trx_state AND NOT TRX_READ_ONLY
                  else new_trx_state)
           in t\<lparr>m_trx_state := new_trx_state\<rparr>)
      else if any_bit type (TYPE_COMMIT OR TYPE_ROLLBACK) then
        (let new_trx_state = (m_trx_state t OR TRX_ENDING) AND NOT TRX_STARTING;
             t' = t\<lparr>m_trx_state := new_trx_state\<rparr>
         in if any_bit type TYPE_ENABLE_AUTOCOMMIT then t'\<lparr>m_autocommit := True\<rparr> else t')
      else if any_bit type (TYPE_READWRITE OR TYPE_READONLY) then
        (let mode = (if any_bit type TYPE_READONLY then TRX_READ_ONLY else 0)
         in if \<not> any_bit type TYPE_NEXT_TRX then t\<lparr>m_default_trx_mode := mode\<rparr> else t)
      else t)"

definition track_transaction_state :: "trx_tracker \<Rightarrow> u32 \<Rightarrow> trx_tracker" where
  "track_transaction_state t type = apply_trx_type (settle_trx_state t) type"

text \<open>The status word of a reply; \<open>NO_SERVER_STATUS\<close> is the largest 32-bit value.\<close>

definition NO_SERVER_STATUS :: u32 where "NO_SERVER_STATUS = - 1"
definition STATUS_IN_TRX :: u32 where [flag_defs]: "STATUS_IN_TRX = push_bit 0 1"
definition STATUS_AUTOCOMMIT :: u32 where [flag_defs]: "STATUS_AUTOCOMMIT = push_bit 1 1"
definition STATUS_IN_RO_TRX :: u32 where [flag_defs]: "STATUS_IN_RO_TRX = push_bit 13 1"

definition fix_trx_state :: "trx_tracker \<Rightarrow> u32 \<Rightarrow> trx_tracker" where
  "fix_trx_state t0 status =
     (if status = NO_SERVER_STATUS then t0
      else
        (let t = t0\<lparr>m_autocommit := any_bit status STATUS_AUTOCOMMIT\<rparr>;
             in_trx = any_bit status (STATUS_IN_TRX OR STATUS_IN_RO_TRX) in
         if \<not> is_trx_active t \<and> in_trx then
           (let t' = t\<lparr>m_trx_state := TRX_ACTIVE OR TRX_STARTING\<rparr>
            in if any_bit status STATUS_IN_RO_TRX
               then t'\<lparr>m_trx_state := m_trx_state t' OR TRX_READ_ONLY\<rparr> else t')
         else if is_trx_active t \<and> \<not> is_trx_ending t \<and> \<not> is_trx_starting t \<and> \<not> in_trx then
           t\<lparr>m_trx_state := m_trx_state t OR TRX_ENDING\<rparr>
         else t))"

subsection \<open>Flags as bits\<close>

lemma any_bit_trx [flag_bits]:
  "any_bit x TRX_ACTIVE \<longleftrightarrow> bit x 0" "any_bit x TRX_READ_ONLY \<longleftrightarrow> bit x 1"
  "any_bit x TRX_ENDING \<longleftrightarrow> bit x 2" "any_bit x TRX_STARTING \<longleftrightarrow> bit x 3"
  "any_bit y STATUS_IN_TRX \<longleftrightarrow> bit y 0" "any_bit y STATUS_AUTOCOMMIT \<longleftrightarrow> bit y 1"
  "any_bit y STATUS_IN_RO_TRX \<longleftrightarrow> bit y 13"
  unfolding flag_defs by (rule any_bit_push)+

lemma bit_trx [flag_bit]:
  "bit TRX_ACTIVE n \<longleftrightarrow> n = 0" "bit TRX_READ_ONLY n \<longleftrightarrow> n = 1"
  "bit TRX_ENDING n \<longleftrightarrow> n = 2" "bit TRX_STARTING n \<longleftrightarrow> n = 3"
  unfolding flag_defs by (rule bit_flag, simp)+

lemma bit_trx_inactive [simp]: "\<not> bit TRX_INACTIVE n"
  by (simp add: TRX_INACTIVE_def)

lemmas tracker_defs = is_autocommit_def is_trx_read_only_def is_trx_ending_def
  is_trx_starting_def is_trx_active_def

lemmas tracker_bits = tracker_defs flag_bits flag_bit bit_simps

section \<open>The invariant\<close>

text \<open>
  The state byte uses the four flags only, a transaction that is starting or that is read-only
  is active, and no transaction is both starting and ending, which is what the source asserts
  on entry of \<open>track_transaction_state\<close>. The default mode is one of the two values that are
  assigned to it.
\<close>

definition tracker_ok :: "trx_tracker \<Rightarrow> bool" where
  "tracker_ok t \<longleftrightarrow>
     m_default_trx_mode t \<in> {0, TRX_READ_ONLY} \<and>
     mask_within (m_trx_state t) (TRX_ACTIVE OR TRX_READ_ONLY OR TRX_ENDING OR TRX_STARTING) \<and>
     (is_trx_starting t \<longrightarrow> is_trx_active t \<and> \<not> is_trx_ending t) \<and>
     (is_trx_read_only t \<longrightarrow> is_trx_active t)"

lemma tracker_ok_bits:
  "tracker_ok t \<longleftrightarrow>
     m_default_trx_mode t \<in> {0, TRX_READ_ONLY} \<and> (\<forall>n>3. \<not> bit (m_trx_state t) n) \<and>
     (bit (m_trx_state t) 3 \<longrightarrow> bit (m_trx_state t) 0 \<and> \<not> bit (m_trx_state t) 2) \<and>
     (bit (m_trx_state t) 1 \<longrightarrow> bit (m_trx_state t) 0)"
proof -
  have "(\<forall>n. bit x n \<longrightarrow> n = 0 \<or> n = 1 \<or> n = 2 \<or> n = (3::nat)) \<longleftrightarrow> (\<forall>n>3. \<not> bit x n)" for x :: u8
    by (metis One_nat_def Suc_1 less_Suc_eq less_nat_zero_code numeral_3_eq_3 nat_neq_iff)
  then show ?thesis
    unfolding tracker_ok_def mask_within_iff by (auto simp: tracker_bits)
qed

lemma tracker_ok_new: "tracker_ok new_trx_tracker"
  by (simp add: tracker_ok_bits new_trx_tracker_def)

lemma tracker_ok_settle: "tracker_ok t \<Longrightarrow> tracker_ok (settle_trx_state t)"
  unfolding tracker_ok_bits settle_trx_state_def Let_def
  by (auto simp: flag_bits flag_bit bit_simps)

lemma trx_type_cases:
  fixes m :: u32
  obtains (opens) "bit m 10" | (closes) "\<not> bit m 10" "bit m 13 \<or> bit m 14"
    | (neither) "\<not> bit m 10" "\<not> (bit m 13 \<or> bit m 14)"
  by blast

lemma tracker_ok_apply: "tracker_ok t \<Longrightarrow> tracker_ok (apply_trx_type t m)"
  unfolding tracker_ok_bits apply_trx_type_def Let_def
  by (cases m rule: trx_type_cases) (auto simp: flag_bits flag_bit bit_simps)

lemma tracker_ok_track: "tracker_ok t \<Longrightarrow> tracker_ok (track_transaction_state t m)"
  by (simp add: track_transaction_state_def tracker_ok_settle tracker_ok_apply)

lemma tracker_ok_fix: "tracker_ok t \<Longrightarrow> tracker_ok (fix_trx_state t status)"
  unfolding tracker_ok_bits fix_trx_state_def Let_def tracker_defs
  by (auto simp: flag_bits flag_bit bit_simps)

lemma new_tracker_views:
  "is_autocommit new_trx_tracker" "\<not> is_trx_active new_trx_tracker"
  "\<not> is_trx_starting new_trx_tracker" "\<not> is_trx_ending new_trx_tracker"
  "\<not> is_trx_read_only new_trx_tracker"
  by (simp_all add: new_trx_tracker_def tracker_bits)

text \<open>The two events that reach the tracker of a session, in any order.\<close>

datatype tracker_event = Statement u32 | Server_Status u32

fun tracker_step :: "trx_tracker \<Rightarrow> tracker_event \<Rightarrow> trx_tracker" where
  "tracker_step t (Statement type) = track_transaction_state t type"
| "tracker_step t (Server_Status status) = fix_trx_state t status"

lemma tracker_ok_step: "tracker_ok t \<Longrightarrow> tracker_ok (tracker_step t e)"
  by (cases e) (simp_all add: tracker_ok_track tracker_ok_fix)

interpretation tracker: invariant_machine tracker_step "\<lambda>t. t = new_trx_tracker" tracker_ok
  by unfold_locales (simp_all add: tracker_ok_new tracker_ok_step)

text \<open>
  C13. Whatever statements and server replies a session sees, in any order and of any type and
  status, its tracker stays well formed; in particular the assertion on entry of
  \<open>track_transaction_state\<close>, that no transaction is starting and ending at once, never fails.
\<close>

theorem tracker_run_ok:
  "tracker_ok (foldl tracker_step new_trx_tracker es) \<and>
   \<not> (is_trx_starting (foldl tracker_step new_trx_tracker es) \<and>
      is_trx_ending (foldl tracker_step new_trx_tracker es))"
  using tracker.inv_run [OF refl, of es] by (auto simp: tracker_ok_def)

section \<open>Refinement of an explicit machine\<close>

text \<open>
  The phases of a transaction as a session goes through them. \<open>Ending\<close> remembers whether a
  transaction was open: a commit outside of a transaction also passes through it.
\<close>

datatype trx_phase =
    Idle
  | Starting (read_only: bool)
  | Running (read_only: bool)
  | Ending (was_open: bool) (read_only: bool)
where
  "read_only Idle = False"

record trx_session =
  phase :: trx_phase
  default_read_only :: bool
  autocommit :: bool

datatype trx_event =
    Begin_Trx "bool option"
  | Disable_Autocommit
  | End_Trx bool
  | Default_Mode bool
  | No_Effect

definition event_of :: "u32 \<Rightarrow> trx_event" where
  "event_of type =
     (if any_bit type TYPE_BEGIN_TRX then
        if any_bit type TYPE_DISABLE_AUTOCOMMIT then Disable_Autocommit
        else Begin_Trx (if any_bit type TYPE_READ then Some True
          else if any_bit type TYPE_WRITE then Some False else None)
      else if any_bit type (TYPE_COMMIT OR TYPE_ROLLBACK) then
        End_Trx (any_bit type TYPE_ENABLE_AUTOCOMMIT)
      else if any_bit type (TYPE_READWRITE OR TYPE_READONLY) \<and> \<not> any_bit type TYPE_NEXT_TRX then
        Default_Mode (any_bit type TYPE_READONLY)
      else No_Effect)"

fun settled :: "bool \<Rightarrow> bool \<Rightarrow> trx_phase \<Rightarrow> trx_phase" where
  "settled ac ro Idle = (if ac then Idle else Starting ro)"
| "settled ac ro (Starting r) = Running r"
| "settled ac ro (Running r) = Running r"
| "settled ac ro (Ending _ _) = (if ac then Idle else Starting ro)"

definition settle_session :: "trx_session \<Rightarrow> trx_session" where
  "settle_session s = s\<lparr>phase := settled (autocommit s) (default_read_only s) (phase s)\<rparr>"

fun apply_event :: "trx_session \<Rightarrow> trx_event \<Rightarrow> trx_session" where
  "apply_event s (Begin_Trx mode) =
     s\<lparr>phase := Starting (case mode of None \<Rightarrow> default_read_only s | Some ro \<Rightarrow> ro)\<rparr>"
| "apply_event s Disable_Autocommit = s\<lparr>phase := Idle, autocommit := False\<rparr>"
| "apply_event s (End_Trx enable) =
     s\<lparr>phase := Ending (phase s \<noteq> Idle) (read_only (phase s)), autocommit := enable \<or> autocommit s\<rparr>"
| "apply_event s (Default_Mode ro) = s\<lparr>default_read_only := ro\<rparr>"
| "apply_event s No_Effect = s"

definition session_step :: "trx_session \<Rightarrow> trx_event \<Rightarrow> trx_session" where
  "session_step s e = apply_event (settle_session s) e"

text \<open>How the tracker represents a session.\<close>

definition phase_of :: "trx_tracker \<Rightarrow> trx_phase" where
  "phase_of t =
     (if is_trx_ending t then Ending (is_trx_active t) (is_trx_read_only t)
      else if is_trx_starting t then Starting (is_trx_read_only t)
      else if is_trx_active t then Running (is_trx_read_only t)
      else Idle)"

definition session_of :: "trx_tracker \<Rightarrow> trx_session" where
  "session_of t =
     \<lparr>phase = phase_of t, default_read_only = any_bit (m_default_trx_mode t) TRX_READ_ONLY,
      autocommit = m_autocommit t\<rparr>"

lemma trx_inactive_iff:
  assumes ok: "tracker_ok t"
  shows "m_trx_state t = TRX_INACTIVE \<longleftrightarrow> \<not> bit (m_trx_state t) 0 \<and> \<not> bit (m_trx_state t) 2"
proof -
  have "\<not> bit (m_trx_state t) n" if "\<not> bit (m_trx_state t) 0" "\<not> bit (m_trx_state t) 2" for n
  proof -
    consider "n > 3" | "n = 0" | "n = 1" | "n = 2" | "n = 3" by linarith
    then show ?thesis by cases (use ok that in \<open>simp_all add: tracker_ok_bits\<close>)
  qed
  then show ?thesis by (auto simp: TRX_INACTIVE_def intro: bit_word_eqI)
qed

lemma session_of_settle:
  "tracker_ok t \<Longrightarrow> session_of (settle_trx_state t) = settle_session (session_of t)"
  using trx_inactive_iff [of t]
  unfolding tracker_ok_bits settle_trx_state_def settle_session_def Let_def session_of_def
    phase_of_def tracker_defs
  by (auto simp: flag_bits flag_bit bit_simps)

lemma not_ending_settle: "tracker_ok t \<Longrightarrow> \<not> is_trx_ending (settle_trx_state t)"
  unfolding tracker_ok_bits settle_trx_state_def Let_def tracker_defs
  by (auto simp: flag_bits flag_bit bit_simps)

lemma session_of_apply:
  assumes "tracker_ok t" "\<not> is_trx_ending t"
  shows "session_of (apply_trx_type t m) = apply_event (session_of t) (event_of m)"
  using assms
  unfolding apply_trx_type_def event_of_def Let_def session_of_def phase_of_def tracker_defs
    tracker_ok_bits
  by (cases m rule: trx_type_cases) (auto simp: flag_bits flag_bit bit_simps)

lemma session_of_track:
  "tracker_ok t \<Longrightarrow>
   session_of (track_transaction_state t m) = session_step (session_of t) (event_of m)"
  by (simp add: track_transaction_state_def session_step_def session_of_apply session_of_settle
      not_ending_settle tracker_ok_settle)

interpretation trx: simulation track_transaction_state "\<lambda>t. t = new_trx_tracker" tracker_ok
  session_of session_step event_of
  by unfold_locales (simp_all add: tracker_ok_new tracker_ok_track session_of_track)

definition new_session :: trx_session where
  "new_session = \<lparr>phase = Idle, default_read_only = False, autocommit = True\<rparr>"
lemma session_of_new: "session_of new_trx_tracker = new_session"
  by (simp add: session_of_def new_session_def phase_of_def new_trx_tracker_def tracker_defs flag_bits flag_bit)

text \<open>
  C12. The state byte of the tracker implements the explicit machine: after any sequence of
  statements the phase, default access mode and autocommit mode that the tracker's flags encode
  are those that the machine of phases computes from the events of the statements.
\<close>

theorem track_refines_session:
  "session_of (foldl track_transaction_state new_trx_tracker types) =
   foldl session_step new_session (map event_of types)"
  using trx.abs_foldl [OF tracker_ok_new, of types] by (simp add: session_of_new)

section \<open>The life of a transaction\<close>

lemma event_of_not_boundary:
  "\<not> trx_boundary m \<Longrightarrow> (\<exists>ro. event_of m = Default_Mode ro) \<or> event_of m = No_Effect"
  by (auto simp: event_of_def trx_boundary_bits flag_bits)

lemma session_stays_open:
  assumes "\<forall>m\<in>set ms. \<not> trx_boundary m" "phase s \<in> {Starting ro, Running ro}"
  shows "phase (foldl session_step s (map event_of ms)) = (if ms = [] then phase s else Running ro) \<and>
     autocommit (foldl session_step s (map event_of ms)) = autocommit s"
  using assms
proof (induction ms arbitrary: s)
  case (Cons m ms)
  have "phase (session_step s (event_of m)) = Running ro \<and> autocommit (session_step s (event_of m)) = autocommit s"
    using Cons.prems event_of_not_boundary [of m] by (auto simp: session_step_def settle_session_def)
  with Cons.IH [of "session_step s (event_of m)"] Cons.prems show ?case by simp
qed simp

lemma phase_of_views:
  "tracker_ok t \<Longrightarrow> is_trx_active t \<longleftrightarrow> (case phase (session_of t) of Idle \<Rightarrow> False | Ending open_before _ \<Rightarrow> open_before | _ \<Rightarrow> True)"
  "tracker_ok t \<Longrightarrow> is_trx_starting t \<longleftrightarrow> (case phase (session_of t) of Starting _ \<Rightarrow> True | _ \<Rightarrow> False)"
  "tracker_ok t \<Longrightarrow> is_trx_ending t \<longleftrightarrow> (case phase (session_of t) of Ending _ _ \<Rightarrow> True | _ \<Rightarrow> False)"
  "tracker_ok t \<Longrightarrow> is_trx_read_only t \<longleftrightarrow> read_only (phase (session_of t))"
  by (auto simp: tracker_ok_def session_of_def phase_of_def)
lemma session_of_autocommit: "is_autocommit t = autocommit (session_of t)"
  by (simp add: session_of_def is_autocommit_def)

text \<open>
  C14. From any well-formed state a statement that opens a transaction makes it active, and it
  stays active and not ending through every following statement that is not a transaction
  boundary; the transaction reports that it starts only until the first of them, and keeps the
  access mode it was opened with, or the session's default mode if it was opened with none.
\<close>

theorem trx_open_until_end:
  assumes "tracker_ok t"
    and "any_bit b TYPE_BEGIN_TRX" "\<not> any_bit b TYPE_DISABLE_AUTOCOMMIT"
    and "\<forall>m\<in>set ms. \<not> trx_boundary m"
  shows "let t' = foldl track_transaction_state (track_transaction_state t b) ms in
     is_trx_active t' \<and> \<not> is_trx_ending t' \<and> (is_trx_starting t' \<longleftrightarrow> ms = []) \<and>
     (is_trx_read_only t' \<longleftrightarrow>
        any_bit b TYPE_READ \<or> \<not> any_bit b TYPE_WRITE \<and> any_bit (m_default_trx_mode t) TRX_READ_ONLY)"
proof -
  let ?s = "session_of (track_transaction_state t b)" and ?t = "foldl track_transaction_state (track_transaction_state t b) ms"
  let ?ro = "any_bit b TYPE_READ \<or> \<not> any_bit b TYPE_WRITE \<and> any_bit (m_default_trx_mode t) TRX_READ_ONLY"
  have p: "phase ?s = Starting ?ro"
    using assms(2,3) unfolding session_of_track [OF assms(1)] session_step_def event_of_def
    by (simp add: settle_session_def session_of_def)
  have ok: "tracker_ok (track_transaction_state t b)" using assms(1) by (rule tracker_ok_track)
  have q: "phase (session_of ?t) = (if ms = [] then Starting ?ro else Running ?ro)"
    unfolding trx.abs_foldl [OF ok] using session_stays_open [OF assms(4), of ?s ?ro] p by simp
  show ?thesis
    using trx.inv_foldl [OF ok, of ms]  unfolding Let_def
    by (simp add: phase_of_views q)
qed

theorem trx_open_until_end_witness:
  "let t' = foldl track_transaction_state
       (track_transaction_state new_trx_tracker (TYPE_BEGIN_TRX OR TYPE_READ)) [TYPE_WRITE, TYPE_READ]
   in is_trx_active t' \<and> \<not> is_trx_ending t' \<and> \<not> is_trx_starting t' \<and> is_trx_read_only t'"
  using trx_open_until_end [OF tracker_ok_new, of "TYPE_BEGIN_TRX OR TYPE_READ" "[TYPE_WRITE, TYPE_READ]"]
  by (simp add: Let_def trx_boundary_bits flag_bits flag_bit bit_simps)

text \<open>
  C15. A commit or rollback marks the transaction as ending, and with the next statement that is
  not a boundary it is closed; if autocommit is off that statement opens a new transaction, and
  the ending statement may have turned autocommit on.
\<close>

theorem trx_closed_after_end:
  assumes "tracker_ok t" "\<not> any_bit c TYPE_BEGIN_TRX" "any_bit c (TYPE_COMMIT OR TYPE_ROLLBACK)"
   and "\<not> trx_boundary m"
  shows "is_trx_ending (track_transaction_state t c) \<and>
     (let t' = track_transaction_state (track_transaction_state t c) m in
       \<not> is_trx_ending t' \<and>
       is_trx_active t' = is_trx_starting t' \<and>
      (is_trx_active t' \<longleftrightarrow> \<not> (is_autocommit t \<or> any_bit c TYPE_ENABLE_AUTOCOMMIT)))"
proof -
  have ok: "tracker_ok (track_transaction_state t c)" using assms(1) by (rule tracker_ok_track)
  have e: "event_of c = End_Trx (any_bit c TYPE_ENABLE_AUTOCOMMIT)" using assms(2,3) by (simp add: event_of_def)
  show ?thesis unfolding Let_def using event_of_not_boundary [OF assms(4)] assms(1)
    by (auto simp: phase_of_views tracker_ok_track session_of_track e session_step_def settle_session_def session_of_autocommit)
qed

theorem trx_closed_after_end_witness:
  "is_trx_ending (track_transaction_state new_trx_tracker TYPE_COMMIT) \<and>
   \<not> is_trx_active (track_transaction_state (track_transaction_state new_trx_tracker TYPE_COMMIT) TYPE_READ)"
  using trx_closed_after_end [OF tracker_ok_new, of TYPE_COMMIT TYPE_READ]
  by (auto simp: Let_def trx_boundary_bits flag_bits flag_bit bit_simps new_tracker_views)

text \<open>
  C16. Outside of the statements that start or end a transaction, the tracker agrees with the
  server after a reply that carries a status: there is an open transaction exactly if the status
  has one of its two transaction bits, and autocommit is that of the status.
\<close>

theorem fix_trx_state_agrees:
  assumes "tracker_ok t" "status \<noteq> NO_SERVER_STATUS" "\<not> is_trx_starting t" "\<not> is_trx_ending t"
  shows "let t' = fix_trx_state t status in
    (is_trx_active t' \<and> \<not> is_trx_ending t' \<longleftrightarrow> any_bit status (STATUS_IN_TRX OR STATUS_IN_RO_TRX)) \<and>
     (is_autocommit t' \<longleftrightarrow> any_bit status STATUS_AUTOCOMMIT)"
  using assms unfolding tracker_ok_bits fix_trx_state_def Let_def tracker_defs
  by (auto simp: flag_bits flag_bit bit_simps)

theorem fix_trx_state_agrees_witness:
  "is_trx_active (fix_trx_state new_trx_tracker 3) \<and> is_autocommit (fix_trx_state new_trx_tracker 3) \<and>
   \<not> is_autocommit (fix_trx_state new_trx_tracker 1)"
  using fix_trx_state_agrees [OF tracker_ok_new, of 3] fix_trx_state_agrees [OF tracker_ok_new, of 1]
  by (simp add: Let_def flag_bits bit_simps new_tracker_views NO_SERVER_STATUS_def)

end
