(* ===== verification/Mariadb_Parser.thy ===== *)
theory Mariadb_Parser
  imports Mariadb_Packet Sql_Types
begin

text \<open>
  What the routers learn about a client packet: \<open>MariaDBParser::Helper\<close> of
  \<open>server/modules/protocol/MariaDB/mariadbparser.cc\<close>, which reads the command byte, and the thin
  interface of the SQL parser plugin \<open>pp_sqlite.cc\<close> over it. The SQL parser proper, a modified
  SQLite grammar, is a parameter of the model: a function from the text of a statement to what it
  finds in it. Parsing has no other effect than caching its result in the packet.
\<close>

section \<open>The SQL parser plugin\<close>

datatype sql_op =
    OP_UNDEFINED | OP_ALTER | OP_ALTER_TABLE | OP_CALL | OP_CHANGE_DB | OP_CREATE | OP_CREATE_ROLE
  | OP_CREATE_TABLE | OP_CREATE_USER | OP_DELETE | OP_DROP | OP_DROP_TABLE | OP_EXECUTE | OP_EXPLAIN
  | OP_GRANT | OP_INSERT | OP_KILL | OP_LOAD | OP_LOAD_LOCAL | OP_REVOKE | OP_SELECT | OP_SET
  | OP_SET_TRANSACTION | OP_SHOW | OP_SHOW_DATABASES | OP_TRUNCATE | OP_UPDATE

record table_name =
  tn_db :: string
  tn_table :: string

text \<open>The result of parsing the text of a statement, the fields of \<open>PpSqliteInfo\<close> that are used.\<close>

record stmt_info =
  si_valid :: bool
  si_type_mask :: u32
  si_operation :: sql_op
  si_multi_stmt :: bool
  si_relates_to_previous :: bool
  si_table_names :: "table_name list"
  si_prepare_name :: string
  si_preparable_stmt :: "bytes option"

type_synonym sql_grammar = "bytes \<Rightarrow> stmt_info"

definition get_info :: "sql_grammar \<Rightarrow> bytes \<Rightarrow> stmt_info option" where
  "get_info G stmt =
     (let sql = get_sql stmt in
      if sql = [] then None
      else
        (let info = G sql
         in Some (if is_com_prepare stmt then info\<lparr>si_type_mask := si_type_mask info OR TYPE_PREPARE_STMT\<rparr>
                  else info)))"

definition get_type_mask :: "sql_grammar \<Rightarrow> bytes \<Rightarrow> u32" where
  "get_type_mask G stmt =
     (case get_info G stmt of Some info \<Rightarrow> if si_valid info then si_type_mask info else 0 | None \<Rightarrow> 0)"

definition get_operation :: "sql_grammar \<Rightarrow> bytes \<Rightarrow> sql_op" where
  "get_operation G stmt =
     (case get_info G stmt of
        Some info \<Rightarrow> if si_valid info then si_operation info else OP_UNDEFINED
      | None \<Rightarrow> OP_UNDEFINED)"

definition get_table_names :: "sql_grammar \<Rightarrow> bytes \<Rightarrow> table_name list" where
  "get_table_names G stmt =
     (case get_info G stmt of Some info \<Rightarrow> if si_valid info then si_table_names info else [] | None \<Rightarrow> [])"

definition get_prepare_name :: "sql_grammar \<Rightarrow> bytes \<Rightarrow> string" where
  "get_prepare_name G stmt =
     (case get_info G stmt of Some info \<Rightarrow> if si_valid info then si_prepare_name info else [] | None \<Rightarrow> [])"

definition get_preparable_stmt :: "sql_grammar \<Rightarrow> bytes \<Rightarrow> bytes option" where
  "get_preparable_stmt G stmt =
     (case get_info G stmt of
        Some info \<Rightarrow> if si_valid info then si_preparable_stmt info else None
      | None \<Rightarrow> None)"

definition relates_to_previous :: "sql_grammar \<Rightarrow> bytes \<Rightarrow> bool" where
  "relates_to_previous G stmt \<longleftrightarrow>
     (case get_info G stmt of Some info \<Rightarrow> si_relates_to_previous info | None \<Rightarrow> False)"

section \<open>The packet helper\<close>

datatype type_mask_status = FINAL | NEEDS_PARSING

definition MARIADB_PS_DIRECT_EXEC_ID :: u32 where
  "MARIADB_PS_DIRECT_EXEC_ID = 0xffffffff"

definition command_to_typemask :: "u8 \<Rightarrow> u32 \<times> type_mask_status" where
  "command_to_typemask cmd =
     (if cmd \<in> {MXS_COM_QUIT, MXS_COM_INIT_DB, MXS_COM_REFRESH, MXS_COM_DEBUG, MXS_COM_PING,
                MXS_COM_CHANGE_USER, MXS_COM_SET_OPTION, MXS_COM_RESET_CONNECTION,
                MXS_COM_STMT_CLOSE, MXS_COM_STMT_RESET} then (TYPE_SESSION_WRITE, FINAL)
      else if cmd \<in> {MXS_COM_CREATE_DB, MXS_COM_DROP_DB, MXS_COM_STMT_SEND_LONG_DATA} then
        (TYPE_WRITE, FINAL)
      else if cmd = MXS_COM_FIELD_LIST then (TYPE_READ, FINAL)
      else if cmd = MXS_COM_QUERY \<or> cmd = MXS_COM_STMT_PREPARE then (TYPE_UNKNOWN, NEEDS_PARSING)
      else if cmd = MXS_COM_STMT_EXECUTE then (TYPE_EXEC_STMT, FINAL)
      else (TYPE_UNKNOWN, FINAL))"

definition get_packet_type_mask :: "bytes \<Rightarrow> u32 \<times> type_mask_status" where
  "get_packet_type_mask packet =
     (if length packet \<le> MYSQL_HEADER_LEN then (TYPE_UNKNOWN, FINAL)
      else command_to_typemask (packet ! MYSQL_HEADER_LEN))"

definition continues_ps :: "bytes \<Rightarrow> u8 \<Rightarrow> bool" where
  "continues_ps packet prev_cmd =
     (let cmd = mxs_mysql_get_command packet in
      if prev_cmd = MXS_COM_STMT_SEND_LONG_DATA \<and>
         (cmd = MXS_COM_STMT_EXECUTE \<or> cmd = MXS_COM_STMT_SEND_LONG_DATA) then True
      else cmd = MXS_COM_STMT_FETCH)"

definition is_execute_immediately_ps :: "u32 \<Rightarrow> bool" where
  "is_execute_immediately_ps ident \<longleftrightarrow> ident = MARIADB_PS_DIRECT_EXEC_ID"

definition is_ps_direct_exec_id :: "u32 \<Rightarrow> bool" where
  "is_ps_direct_exec_id ident \<longleftrightarrow> ident = MARIADB_PS_DIRECT_EXEC_ID"

definition is_multi_part_packet :: "bytes \<Rightarrow> bool" where
  "is_multi_part_packet packet \<longleftrightarrow> length packet = MYSQL_HEADER_LEN + GW_MYSQL_MAX_PACKET_LEN"

definition is_ps_packet :: "bytes \<Rightarrow> bool" where
  "is_ps_packet packet \<longleftrightarrow>
     (if length packet > MYSQL_HEADER_LEN then mxs_mysql_is_ps_command (packet ! MYSQL_HEADER_LEN)
      else False)"

record query_info =
  qi_type_mask_status :: type_mask_status
  qi_command :: u32
  qi_ps_id :: u32
  qi_type_mask :: u32
  qi_op :: sql_op
  qi_multi_part_packet :: bool
  qi_empty :: bool
  qi_ps_packet :: bool
  qi_query :: bool
  qi_relates_to_previous :: bool
  qi_multi_stmt :: bool
  qi_ps_direct_exec_id :: bool
  qi_execute_immediately_ps :: bool
  qi_prepare :: bool

definition new_query_info :: query_info where
  "new_query_info =
     \<lparr>qi_type_mask_status = FINAL, qi_command = 0, qi_ps_id = 0, qi_type_mask = 0, qi_op = OP_UNDEFINED,
      qi_multi_part_packet = False, qi_empty = False, qi_ps_packet = False, qi_query = False,
      qi_relates_to_previous = False, qi_multi_stmt = False, qi_ps_direct_exec_id = False,
      qi_execute_immediately_ps = False, qi_prepare = False\<rparr>"

text \<open>
  Packets that reach the helper have at least a header; the command byte is read if the length
  is not exactly that of the header, and a shorter packet would be read past its end.
\<close>

definition helper_get_query_info :: "bytes \<Rightarrow> query_info option" where
  "helper_get_query_info packet =
     (let len = length packet in
      if len = MYSQL_HEADER_LEN then Some (new_query_info\<lparr>qi_empty := True\<rparr>)
      else if len < MYSQL_HEADER_LEN then None
      else
        (let cmd = packet ! MYSQL_HEADER_LEN;
             (mask, status) = command_to_typemask cmd;
             ps_packet = mxs_mysql_is_ps_command cmd;
             ps_id = (if ps_packet then mxs_mysql_extract_ps_id packet else 0);
             direct = (ps_packet \<and> ps_id = MARIADB_PS_DIRECT_EXEC_ID)
         in Some (new_query_info
              \<lparr>qi_command := ucast cmd, qi_ps_packet := ps_packet, qi_query := (cmd = MXS_COM_QUERY),
               qi_prepare := (cmd = MXS_COM_STMT_PREPARE),
               qi_multi_part_packet := (len = MYSQL_HEADER_LEN + GW_MYSQL_MAX_PACKET_LEN),
               qi_type_mask := mask, qi_type_mask_status := status, qi_ps_id := ps_id,
               qi_ps_direct_exec_id := direct, qi_execute_immediately_ps := direct\<rparr>)))"

definition get_query_info :: "sql_grammar \<Rightarrow> bytes \<Rightarrow> query_info option" where
  "get_query_info G stmt =
     map_option (\<lambda>rval.
       if qi_type_mask_status rval = NEEDS_PARSING then
         (case get_info G stmt of
            Some info \<Rightarrow>
              rval\<lparr>qi_multi_stmt := si_multi_stmt info, qi_type_mask := si_type_mask info,
                   qi_op := si_operation info, qi_relates_to_previous := si_relates_to_previous info\<rparr>
          | None \<Rightarrow> rval)
       else rval) (helper_get_query_info stmt)"

end
