(* ===== verification/Gwbuf.thy ===== *)
theory Gwbuf
  imports Mariadb_Packet
begin

text \<open>
  The buffers that travel through a session, \<open>GWBUF\<close> of \<open>include/maxscale/buffer.hh\<close>: the bytes of
  a packet, the routing hints a filter has attached to it (\<open>include/maxscale/hint.hh\<close>) and the
  identifier of a session command. Copies share their data in the program; as nothing writes to
  shared data, a copy is a value here.
\<close>

datatype hint_type =
    HINT_NONE | ROUTE_TO_MASTER | ROUTE_TO_SLAVE | ROUTE_TO_NAMED_SERVER | ROUTE_TO_UPTODATE_SERVER
  | ROUTE_TO_ALL | ROUTE_TO_LAST_USED | HINT_PARAMETER

record hint =
  hint_type :: hint_type
  hint_data :: string
  hint_value :: string

record gwbuf =
  gw_data :: bytes
  gw_hints :: "hint list"
  gw_id :: u32

definition no_buffer :: gwbuf where
  "no_buffer = \<lparr>gw_data = [], gw_hints = [], gw_id = 0\<rparr>"

definition buf_empty :: "gwbuf \<Rightarrow> bool" where
  "buf_empty buf \<longleftrightarrow> gw_data buf = []"

definition query_buffer :: "string \<Rightarrow> gwbuf" where
  "query_buffer sql = \<lparr>gw_data = create_query (str_bytes sql), gw_hints = [], gw_id = 0\<rparr>"

definition add_hint :: "hint_type \<Rightarrow> gwbuf \<Rightarrow> gwbuf" where
  "add_hint t buf = buf\<lparr>gw_hints := gw_hints buf @ [\<lparr>hint_type = t, hint_data = [], hint_value = []\<rparr>]\<rparr>"

text \<open>\<open>GWBUF::compare\<close>, which History uses to find a repeated command.\<close>

definition same_data :: "gwbuf \<Rightarrow> gwbuf \<Rightarrow> bool" where
  "same_data a b \<longleftrightarrow> gw_data a = gw_data b"

lemma no_buffer_empty [simp]: "buf_empty no_buffer" "gw_data no_buffer = []" "gw_hints no_buffer = []"
  by (simp_all add: no_buffer_def buf_empty_def)

lemma query_buffer_nonempty [simp]: "\<not> buf_empty (query_buffer sql)"
  by (simp add: query_buffer_def buf_empty_def create_query_def)

end
