(* ===== verification/Query_Classifier.thy ===== *)
theory Query_Classifier
  imports Trx_Tracker Mariadb_Parser Custom_Parser Gwbuf
begin

text \<open>
  The query classifier of a session, \<open>server/core/queryclassifier.cc\<close> and
  \<open>include/maxscale/queryclassifier.hh\<close>: the prepared statements it remembers, the temporary
  tables, the routing hints, the choice of the target, and the update of the routing state with
  every packet and reply, with its rollback. The router that uses it, its \<open>Handler\<close>, is a record
  of functions on the router's own state.
\<close>

section \<open>Handlers\<close>

text \<open>A router may change its state when it is asked to lock the session to the primary.\<close>

record 'h handler =
  lock_to_master :: "'h \<Rightarrow> 'h \<times> bool"
  is_locked_to_master :: "'h \<Rightarrow> bool"
  supports_hint :: "'h \<Rightarrow> trx_tracker \<Rightarrow> hint_type \<Rightarrow> bool"

definition dummy_handler :: "unit handler" where
  "dummy_handler =
     \<lparr>lock_to_master = (\<lambda>h. (h, True)), is_locked_to_master = (\<lambda>_. False),
      supports_hint = (\<lambda>_ _ _. False)\<rparr>"

section \<open>Prepared statements\<close>

record prepared_stmt =
  ps_type :: u32
  ps_param_count :: u16
  ps_route_to_last_used :: bool

record ps_manager =
  m_binary_ps :: "(u32 \<times> prepared_stmt) list"
  m_text_ps :: "string \<rightharpoonup> prepared_stmt"

definition new_ps_manager :: ps_manager where
  "new_ps_manager = \<lparr>m_binary_ps = [], m_text_ps = Map.empty\<rparr>"

definition get_prepare_type :: "sql_grammar \<Rightarrow> bytes \<Rightarrow> u32" where
  "get_prepare_type G buffer =
     (if is_com_prepare buffer then get_type_mask G buffer AND NOT TYPE_PREPARE_STMT
      else
        (case get_preparable_stmt G buffer of
           Some stmt \<Rightarrow> get_type_mask G stmt
         | None \<Rightarrow> TYPE_UNKNOWN))"

text \<open>\<open>emplace\<close> of the map of named statements does nothing if the name is there already.\<close>

definition bind_text :: "ps_manager \<Rightarrow> string \<Rightarrow> prepared_stmt \<Rightarrow> ps_manager" where
  "bind_text psm name stmt =
     (case m_text_ps psm name of
        None \<Rightarrow> psm\<lparr>m_text_ps := (m_text_ps psm)(name \<mapsto> stmt)\<rparr>
      | Some _ \<Rightarrow> psm)"

definition bind_binary :: "ps_manager \<Rightarrow> u32 \<Rightarrow> prepared_stmt \<Rightarrow> ps_manager" where
  "bind_binary psm ident stmt = psm\<lparr>m_binary_ps := m_binary_ps psm @ [(ident, stmt)]\<rparr>"

definition stored_stmt :: "sql_grammar \<Rightarrow> bytes \<Rightarrow> prepared_stmt" where
  "stored_stmt G buffer =
     \<lparr>ps_type = get_prepare_type G buffer, ps_param_count = 0,
      ps_route_to_last_used = relates_to_previous G buffer\<rparr>"

definition psm_store :: "sql_grammar \<Rightarrow> ps_manager \<Rightarrow> bytes \<Rightarrow> u32 \<Rightarrow> ps_manager" where
  "psm_store G psm buffer ident =
     (if is_com_prepare buffer then bind_binary psm ident (stored_stmt G buffer)
      else if is_com_query buffer then
        bind_text psm (get_prepare_name G buffer) (stored_stmt G buffer)
      else psm)"

fun find_ps :: "(u32 \<times> prepared_stmt) list \<Rightarrow> u32 \<Rightarrow> prepared_stmt option" where
  "find_ps [] ident = None"
| "find_ps ((i, ps) # rest) ident = (if i = ident then Some ps else find_ps rest ident)"

definition psm_get_binary :: "ps_manager \<Rightarrow> u32 \<Rightarrow> prepared_stmt option" where
  "psm_get_binary psm ident = find_ps (m_binary_ps psm) ident"

definition psm_get_text :: "ps_manager \<Rightarrow> string \<Rightarrow> prepared_stmt option" where
  "psm_get_text psm name = m_text_ps psm name"

fun erase_ps :: "(u32 \<times> prepared_stmt) list \<Rightarrow> u32 \<Rightarrow> (u32 \<times> prepared_stmt) list" where
  "erase_ps [] ident = []"
| "erase_ps ((i, ps) # rest) ident = (if i = ident then rest else (i, ps) # erase_ps rest ident)"

definition psm_erase_binary :: "ps_manager \<Rightarrow> u32 \<Rightarrow> ps_manager" where
  "psm_erase_binary psm ident = psm\<lparr>m_binary_ps := erase_ps (m_binary_ps psm) ident\<rparr>"

definition psm_erase_text :: "ps_manager \<Rightarrow> string \<Rightarrow> ps_manager" where
  "psm_erase_text psm name = psm\<lparr>m_text_ps := (m_text_ps psm)(name := None)\<rparr>"

definition psm_erase :: "sql_grammar \<Rightarrow> ps_manager \<Rightarrow> bytes \<Rightarrow> ps_manager" where
  "psm_erase G psm buffer =
     (if is_com_query buffer then psm_erase_text psm (get_prepare_name G buffer)
      else if is_ps_packet buffer then psm_erase_binary psm (mxs_mysql_extract_ps_id buffer)
      else psm)"

fun update_param_count ::
  "(u32 \<times> prepared_stmt) list \<Rightarrow> u32 \<Rightarrow> u16 \<Rightarrow> (u32 \<times> prepared_stmt) list" where
  "update_param_count [] ident n = []"
| "update_param_count ((i, ps) # rest) ident n =
     (if i = ident then (i, ps\<lparr>ps_param_count := n\<rparr>) # rest
      else (i, ps) # update_param_count rest ident n)"

definition psm_set_param_count :: "ps_manager \<Rightarrow> u32 \<Rightarrow> u16 \<Rightarrow> ps_manager" where
  "psm_set_param_count psm ident n =
     psm\<lparr>m_binary_ps := update_param_count (m_binary_ps psm) ident n\<rparr>"

definition psm_param_count :: "ps_manager \<Rightarrow> u32 \<Rightarrow> u16" where
  "psm_param_count psm ident =
     (case find_ps (m_binary_ps psm) ident of Some ps \<Rightarrow> ps_param_count ps | None \<Rightarrow> 0)"

section \<open>Routing state\<close>

definition LOAD_DATA_ACTIVE :: u8 where [flag_defs]: "LOAD_DATA_ACTIVE = push_bit 0 1"
definition TRX_IS_READ_ONLY :: u8 where [flag_defs]: "TRX_IS_READ_ONLY = push_bit 1 1"
definition PS_CONTINUATION :: u8 where [flag_defs]: "PS_CONTINUATION = push_bit 2 1"
definition MULTI_PART_PACKET :: u8 where [flag_defs]: "MULTI_PART_PACKET = push_bit 3 1"
definition NEXT_MULTI_PART_PACKET :: u8 where [flag_defs]: "NEXT_MULTI_PART_PACKET = push_bit 4 1"

definition TARGET_UNDEFINED :: u32 where "TARGET_UNDEFINED = 0"
definition TARGET_MASTER :: u32 where [flag_defs]: "TARGET_MASTER = push_bit 0 1"
definition TARGET_SLAVE :: u32 where [flag_defs]: "TARGET_SLAVE = push_bit 1 1"
definition TARGET_NAMED_SERVER :: u32 where [flag_defs]: "TARGET_NAMED_SERVER = push_bit 2 1"
definition TARGET_ALL :: u32 where [flag_defs]: "TARGET_ALL = push_bit 3 1"
definition TARGET_RLAG_MAX :: u32 where [flag_defs]: "TARGET_RLAG_MAX = push_bit 4 1"
definition TARGET_LAST_USED :: u32 where [flag_defs]: "TARGET_LAST_USED = push_bit 5 1"

definition target_is_master :: "u32 \<Rightarrow> bool" where "target_is_master t \<longleftrightarrow> any_bit t TARGET_MASTER"
definition target_is_slave :: "u32 \<Rightarrow> bool" where "target_is_slave t \<longleftrightarrow> any_bit t TARGET_SLAVE"
definition target_is_named_server :: "u32 \<Rightarrow> bool" where
  "target_is_named_server t \<longleftrightarrow> any_bit t TARGET_NAMED_SERVER"
definition target_is_all :: "u32 \<Rightarrow> bool" where "target_is_all t \<longleftrightarrow> any_bit t TARGET_ALL"
definition target_is_rlag_max :: "u32 \<Rightarrow> bool" where
  "target_is_rlag_max t \<longleftrightarrow> any_bit t TARGET_RLAG_MAX"
definition target_is_last_used :: "u32 \<Rightarrow> bool" where
  "target_is_last_used t \<longleftrightarrow> any_bit t TARGET_LAST_USED"

record route_info =
  m_trx_tracker :: trx_tracker
  m_type_mask :: u32
  m_stmt_id :: u32
  m_target :: u8
  m_command :: u8
  m_flags :: u8

definition new_route_info :: route_info where
  "new_route_info =
     \<lparr>m_trx_tracker = new_trx_tracker, m_type_mask = TYPE_UNKNOWN, m_stmt_id = 0,
      m_target = ucast TARGET_UNDEFINED, m_command = 0xff, m_flags = TRX_IS_READ_ONLY\<rparr>"

definition set_if :: "u8 \<Rightarrow> bool \<Rightarrow> route_info \<Rightarrow> route_info" where
  "set_if flag v ri =
     (if v then ri\<lparr>m_flags := m_flags ri OR flag\<rparr> else ri\<lparr>m_flags := m_flags ri AND NOT flag\<rparr>)"

definition multi_part_packet :: "route_info \<Rightarrow> bool" where
  "multi_part_packet ri \<longleftrightarrow> any_bit (m_flags ri) MULTI_PART_PACKET"

definition expecting_multi_part_packet :: "route_info \<Rightarrow> bool" where
  "expecting_multi_part_packet ri \<longleftrightarrow> any_bit (m_flags ri) NEXT_MULTI_PART_PACKET"

definition load_data_active :: "route_info \<Rightarrow> bool" where
  "load_data_active ri \<longleftrightarrow> any_bit (m_flags ri) LOAD_DATA_ACTIVE"

definition is_trx_still_read_only :: "route_info \<Rightarrow> bool" where
  "is_trx_still_read_only ri \<longleftrightarrow> any_bit (m_flags ri) TRX_IS_READ_ONLY"

definition is_ps_continuation :: "route_info \<Rightarrow> bool" where
  "is_ps_continuation ri \<longleftrightarrow> any_bit (m_flags ri) PS_CONTINUATION"

definition set_multi_part_packet :: "bool \<Rightarrow> route_info \<Rightarrow> route_info" where
  "set_multi_part_packet v ri =
     set_if NEXT_MULTI_PART_PACKET v (set_if MULTI_PART_PACKET (expecting_multi_part_packet ri) ri)"

section \<open>The classifier\<close>

datatype mxs_target = TYPE_MASTER | TYPE_ALL

datatype diff = ADD | REMOVE

record query_classifier =
  m_use_sql_variables_in :: mxs_target
  m_multi_statements_allowed :: bool
  m_ps_manager :: ps_manager
  m_route_info :: route_info
  m_prev_route_info :: route_info
  m_tmp_tables :: "string set"
  m_delta :: "(diff \<times> string) list"
  m_prev_ps_id :: u32

definition new_query_classifier :: "mxs_target \<Rightarrow> bool \<Rightarrow> query_classifier" where
  "new_query_classifier use_sql_variables_in multi_statements_allowed =
     \<lparr>m_use_sql_variables_in = use_sql_variables_in,
      m_multi_statements_allowed = multi_statements_allowed, m_ps_manager = new_ps_manager,
      m_route_info = new_route_info, m_prev_route_info = new_route_info, m_tmp_tables = {},
      m_delta = [], m_prev_ps_id = 0\<rparr>"

definition master_replaced :: "query_classifier \<Rightarrow> query_classifier" where
  "master_replaced qc = qc\<lparr>m_tmp_tables := {}\<rparr>"

definition have_tmp_tables :: "query_classifier \<Rightarrow> bool" where
  "have_tmp_tables qc \<longleftrightarrow> m_tmp_tables qc \<noteq> {}"

definition is_tmp_table :: "query_classifier \<Rightarrow> string \<Rightarrow> bool" where
  "is_tmp_table qc table \<longleftrightarrow> table \<in> m_tmp_tables qc"

definition add_tmp_table :: "string \<Rightarrow> query_classifier \<Rightarrow> query_classifier" where
  "add_tmp_table table qc =
     qc\<lparr>m_tmp_tables := insert table (m_tmp_tables qc), m_delta := (ADD, table) # m_delta qc\<rparr>"

definition remove_tmp_table :: "string \<Rightarrow> query_classifier \<Rightarrow> query_classifier" where
  "remove_tmp_table table qc =
     qc\<lparr>m_tmp_tables := m_tmp_tables qc - {table}, m_delta := (REMOVE, table) # m_delta qc\<rparr>"

text \<open>The name under which a table is remembered, with the current database if it has none.\<close>

definition qualified_table :: "string \<Rightarrow> table_name \<Rightarrow> string" where
  "qualified_table current_db t =
     (if tn_db t = [] then current_db else tn_db t) @ ''.'' @ tn_table t"

fun foreach_table ::
  "(query_classifier \<Rightarrow> string \<Rightarrow> query_classifier \<times> bool) \<Rightarrow> string \<Rightarrow> table_name list \<Rightarrow>
   query_classifier \<Rightarrow> query_classifier \<times> bool" where
  "foreach_table func current_db [] qc = (qc, True)"
| "foreach_table func current_db (t # ts) qc =
     (case func qc (qualified_table current_db t) of
        (qc', True) \<Rightarrow> foreach_table func current_db ts qc'
      | (qc', False) \<Rightarrow> (qc', False))"

definition find_table :: "query_classifier \<Rightarrow> string \<Rightarrow> query_classifier \<times> bool" where
  "find_table qc table = (qc, \<not> is_tmp_table qc table)"

definition delete_table :: "query_classifier \<Rightarrow> string \<Rightarrow> query_classifier \<times> bool" where
  "delete_table qc table = (remove_tmp_table table qc, True)"

definition check_create_tmp_table ::
  "sql_grammar \<Rightarrow> string \<Rightarrow> bytes \<Rightarrow> u32 \<Rightarrow> query_classifier \<Rightarrow> query_classifier" where
  "check_create_tmp_table G current_db querybuf type qc =
     (if type_mask_contains type TYPE_CREATE_TMP_TABLE then
        (let table = (case get_table_names G querybuf of
            [] \<Rightarrow> [] | t # _ \<Rightarrow> qualified_table current_db t)
         in add_tmp_table table qc)
      else qc)"

definition is_read_tmp_table ::
  "sql_grammar \<Rightarrow> string \<Rightarrow> bytes \<Rightarrow> u32 \<Rightarrow> query_classifier \<Rightarrow> bool" where
  "is_read_tmp_table G current_db querybuf qtype qc =
     (if type_mask_contains qtype TYPE_READ \<or> type_mask_contains qtype TYPE_USERVAR_READ \<or>
         type_mask_contains qtype TYPE_SYSVAR_READ \<or> type_mask_contains qtype TYPE_GSYSVAR_READ
      then \<not> snd (foreach_table find_table current_db (get_table_names G querybuf) qc)
      else False)"

definition check_drop_tmp_table ::
  "sql_grammar \<Rightarrow> string \<Rightarrow> bytes \<Rightarrow> query_classifier \<Rightarrow> query_classifier" where
  "check_drop_tmp_table G current_db querybuf qc =
     (if get_operation G querybuf = OP_DROP_TABLE then
        fst (foreach_table delete_table current_db (get_table_names G querybuf) qc)
      else qc)"

subsection \<open>Prepared statement bookkeeping\<close>

definition ps_store :: "sql_grammar \<Rightarrow> bytes \<Rightarrow> u32 \<Rightarrow> query_classifier \<Rightarrow> query_classifier" where
  "ps_store G buffer ident qc =
     qc\<lparr>m_prev_ps_id := ident, m_ps_manager := psm_store G (m_ps_manager qc) buffer ident\<rparr>"

definition ps_id_internal_get :: "bytes \<Rightarrow> query_classifier \<Rightarrow> u32" where
  "ps_id_internal_get buffer qc =
     (let ident = mxs_mysql_extract_ps_id buffer in
      if is_ps_direct_exec_id ident \<and> m_prev_ps_id qc \<noteq> 0 then m_prev_ps_id qc else ident)"

definition ps_erase :: "sql_grammar \<Rightarrow> bytes \<Rightarrow> query_classifier \<Rightarrow> query_classifier" where
  "ps_erase G buffer qc =
     (if is_ps_packet buffer then
        qc\<lparr>m_ps_manager := psm_erase_binary (m_ps_manager qc) (ps_id_internal_get buffer qc)\<rparr>
      else qc\<lparr>m_ps_manager := psm_erase G (m_ps_manager qc) buffer\<rparr>)"

definition ps_store_response :: "u32 \<Rightarrow> u16 \<Rightarrow> query_classifier \<Rightarrow> query_classifier" where
  "ps_store_response ident param_count qc =
     (if param_count \<noteq> 0 then
        qc\<lparr>m_ps_manager := psm_set_param_count (m_ps_manager qc) ident param_count\<rparr>
      else qc)"

definition get_param_count :: "u32 \<Rightarrow> query_classifier \<Rightarrow> u16" where
  "get_param_count ident qc = psm_param_count (m_ps_manager qc) ident"

subsection \<open>The choice of the target\<close>

definition query_type_is_read_only :: "mxs_target \<Rightarrow> u32 \<Rightarrow> bool" where
  "query_type_is_read_only use_sql_variables_in qtype =
     (if \<not> type_mask_contains qtype TYPE_MASTER_READ \<and> \<not> type_mask_contains qtype TYPE_WRITE \<and>
         (type_mask_contains qtype TYPE_READ \<or> type_mask_contains qtype TYPE_USERVAR_READ \<or>
          type_mask_contains qtype TYPE_SYSVAR_READ \<or> type_mask_contains qtype TYPE_GSYSVAR_READ)
      then
        (if type_mask_contains qtype TYPE_USERVAR_READ then use_sql_variables_in = TYPE_ALL else True)
      else False)"

definition MAX_RLAG :: string where "MAX_RLAG = ''max_slave_replication_lag''"

fun process_routing_hints :: "(hint_type \<Rightarrow> bool) \<Rightarrow> hint list \<Rightarrow> u32 \<Rightarrow> u32" where
  "process_routing_hints supports [] target = target"
| "process_routing_hints supports (hint # hints) target =
     (if supports (hint_type hint) then
        (case hint_type hint of
           ROUTE_TO_MASTER \<Rightarrow> TARGET_MASTER
         | ROUTE_TO_NAMED_SERVER \<Rightarrow>
             process_routing_hints supports hints (target OR TARGET_NAMED_SERVER)
         | ROUTE_TO_LAST_USED \<Rightarrow> process_routing_hints supports hints TARGET_LAST_USED
         | HINT_PARAMETER \<Rightarrow>
             process_routing_hints supports hints
               (if take (length MAX_RLAG) (upcase (hint_data hint)) = upcase MAX_RLAG
                then target OR TARGET_RLAG_MAX else target)
         | ROUTE_TO_SLAVE \<Rightarrow> process_routing_hints supports hints TARGET_SLAVE
         | ROUTE_TO_UPTODATE_SERVER \<Rightarrow> process_routing_hints supports hints target
         | ROUTE_TO_ALL \<Rightarrow> process_routing_hints supports hints target
         | HINT_NONE \<Rightarrow> process_routing_hints supports hints target)
      else process_routing_hints supports hints target)"

definition get_route_target :: "query_classifier \<Rightarrow> u32 \<Rightarrow> trx_tracker \<Rightarrow> u32" where
  "get_route_target qc qtype tracker =
     (let trx_active = is_trx_active tracker;
          load_active = load_data_active (m_route_info qc) in
      if type_mask_contains qtype TYPE_PREPARE_STMT \<or>
         type_mask_contains qtype TYPE_PREPARE_NAMED_STMT then TARGET_ALL
      else if type_mask_contains qtype TYPE_NEXT_TRX then TARGET_MASTER
      else if \<not> load_active \<and> \<not> type_mask_contains qtype TYPE_WRITE \<and>
         (type_mask_contains qtype TYPE_SESSION_WRITE \<or>
          (m_use_sql_variables_in qc = TYPE_ALL \<and> type_mask_contains qtype TYPE_USERVAR_WRITE) \<or>
          type_mask_contains qtype TYPE_GSYSVAR_WRITE \<or>
          type_mask_contains qtype TYPE_ENABLE_AUTOCOMMIT \<or>
          type_mask_contains qtype TYPE_DISABLE_AUTOCOMMIT) then TARGET_UNDEFINED OR TARGET_ALL
      else if \<not> trx_active \<and> \<not> load_active \<and>
         query_type_is_read_only (m_use_sql_variables_in qc) qtype then TARGET_SLAVE
      else if is_trx_read_only tracker then TARGET_SLAVE
      else TARGET_MASTER)"

subsection \<open>Classification of a packet\<close>

datatype current_target =
  CURRENT_TARGET_UNDEFINED | CURRENT_TARGET_MASTER | CURRENT_TARGET_SLAVE

definition handle_multi_temp_and_load ::
  "sql_grammar \<Rightarrow> string \<Rightarrow> current_target \<Rightarrow> bytes \<Rightarrow> u32 \<Rightarrow> query_info \<Rightarrow> query_classifier \<Rightarrow>
   query_classifier \<times> u32 \<times> current_target" where
  "handle_multi_temp_and_load G current_db current_target querybuf qtype info qc =
     (let is_query = qi_query info;
          is_multi =
            (let is_call = (is_query \<and> qi_op info = OP_CALL)
             in if \<not> is_call \<and> m_multi_statements_allowed qc \<and> is_query then qi_multi_stmt info
                else is_call);
          rv = (if current_target \<noteq> CURRENT_TARGET_MASTER \<and> is_multi then CURRENT_TARGET_MASTER
                else CURRENT_TARGET_UNDEFINED);
          (qc, qtype) =
            (if have_tmp_tables qc \<and> is_query then
               (let qc = check_drop_tmp_table G current_db querybuf qc
                in (qc, if is_read_tmp_table G current_db querybuf (qi_type_mask info) qc
                        then qtype OR TYPE_MASTER_READ else qtype))
             else (qc, qtype))
      in (check_create_tmp_table G current_db querybuf qtype qc, qtype, rv))"

text \<open>
  The type of the statement, and whether the session is to be locked to the primary because of
  it.
\<close>

definition classify_type ::
  "'h handler \<Rightarrow> sql_grammar \<Rightarrow> string \<Rightarrow> bytes \<Rightarrow> query_info \<Rightarrow> bool \<Rightarrow> bool \<Rightarrow> 'h \<times> query_classifier \<Rightarrow>
   'h \<times> query_classifier \<times> u32" where
  "classify_type H G current_db buffer info locked in_read_only_trx s =
     (let (h, qc) = s in
      if in_read_only_trx then (h, qc, TYPE_READ)
      else
        (let (qc, type_mask, current_target) =
               handle_multi_temp_and_load G current_db
                 (if locked then CURRENT_TARGET_MASTER else CURRENT_TARGET_UNDEFINED)
                 buffer (qi_type_mask info) info qc
         in if current_target = CURRENT_TARGET_MASTER then
              (let (h, ok) = lock_to_master H h
               in (h, qc, if \<not> ok then type_mask OR TYPE_WRITE else type_mask))
            else (h, qc, type_mask)))"

text \<open>
  What executing a prepared statement adds: its type, whether it is to be sent where the
  previous statement went, and whether it continues a statement.
\<close>

definition resolve_ps ::
  "sql_grammar \<Rightarrow> bytes \<Rightarrow> query_info \<Rightarrow> u32 \<Rightarrow> bool \<Rightarrow> u32 \<Rightarrow> query_classifier \<Rightarrow>
   u32 \<times> bool \<times> query_classifier" where
  "resolve_ps G buffer info stmt_id in_read_only_trx type_mask qc =
     (if \<not> in_read_only_trx \<and> qi_query info \<and> qi_op info = OP_EXECUTE then
        (case psm_get_text (m_ps_manager qc) (get_prepare_name G buffer) of
           Some ps \<Rightarrow> (ps_type ps, ps_route_to_last_used ps, qc)
         | None \<Rightarrow> (type_mask, False, qc))
      else if qi_ps_packet info then
        (case psm_get_binary (m_ps_manager qc) stmt_id of
           Some ps \<Rightarrow>
             (ps_type ps, ps_route_to_last_used ps,
              qc\<lparr>m_route_info := set_if PS_CONTINUATION
                   (continues_ps buffer (m_command (m_route_info qc))) (m_route_info qc)\<rparr>)
         | None \<Rightarrow> (type_mask, False, qc))
      else (type_mask, qi_query info \<and> qi_relates_to_previous info, qc))"

definition update_trx_still_read_only :: "u32 \<Rightarrow> query_classifier \<Rightarrow> query_classifier" where
  "update_trx_still_read_only type_mask qc =
     (let tracker = m_trx_tracker (m_route_info qc) in
      if is_trx_ending tracker \<or> type_mask_contains type_mask TYPE_BEGIN_TRX then
        qc\<lparr>m_route_info := set_if TRX_IS_READ_ONLY True (m_route_info qc)\<rparr>
      else if is_trx_active tracker \<and> \<not> query_type_is_read_only (m_use_sql_variables_in qc) type_mask then
        qc\<lparr>m_route_info := set_if TRX_IS_READ_ONLY False (m_route_info qc)\<rparr>
      else qc)"

text \<open>The part of \<open>update_route_info\<close> for a packet that is neither empty nor data of a LOAD DATA.\<close>

definition classify_stmt ::
  "'h handler \<Rightarrow> sql_grammar \<Rightarrow> string \<Rightarrow> gwbuf \<Rightarrow> query_info \<Rightarrow> u32 \<Rightarrow> 'h \<times> query_classifier \<Rightarrow>
   'h \<times> query_classifier \<times> u32 \<times> u32" where
  "classify_stmt H G current_db buffer info stmt_id s =
     (let locked = is_locked_to_master H (fst s);
          tracker = m_trx_tracker (m_route_info (snd s));
          in_read_only_trx = (locked \<and> is_trx_read_only tracker);
          (h, qc, type_mask) =
            classify_type H G current_db (gw_data buffer) info locked in_read_only_trx s;
          (route_target, type_mask, qc) =
            (if locked then (TARGET_MASTER, type_mask, qc)
             else
               (let (type_mask, route_to_last_used, qc) =
                      resolve_ps G (gw_data buffer) info stmt_id in_read_only_trx type_mask qc;
                    route_target = get_route_target qc type_mask tracker
                in (if route_target = TARGET_SLAVE \<and> route_to_last_used then TARGET_LAST_USED
                    else route_target, type_mask, qc)));
          route_target =
            process_routing_hints (supports_hint H h tracker) (gw_hints buffer) route_target
      in (h, update_trx_still_read_only type_mask qc, route_target, type_mask))"

definition finish_route_info :: "u32 \<Rightarrow> u8 \<Rightarrow> u32 \<Rightarrow> u32 \<Rightarrow> query_classifier \<Rightarrow> query_classifier" where
  "finish_route_info target cmd type_mask stmt_id qc =
     qc\<lparr>m_route_info := (m_route_info qc)
          \<lparr>m_target := ucast target, m_command := cmd, m_type_mask := type_mask, m_stmt_id := stmt_id\<rparr>\<rparr>"

text \<open>
  The start of \<open>update_route_info\<close>: the current state is stashed, and unless the packet is the
  trailing part of a large one, its type is tracked.
\<close>

definition begin_update :: "query_info \<Rightarrow> query_classifier \<Rightarrow> query_classifier" where
  "begin_update info qc =
     (let ri = set_multi_part_packet (qi_multi_part_packet info) (m_route_info qc);
          ri = (if multi_part_packet ri then ri
                else set_if PS_CONTINUATION False
                  (ri\<lparr>m_trx_tracker := track_transaction_state (m_trx_tracker ri) (qi_type_mask info)\<rparr>))
      in qc\<lparr>m_prev_route_info := m_route_info qc, m_delta := [], m_route_info := ri\<rparr>)"

definition effective_stmt_id :: "query_info \<Rightarrow> query_classifier \<Rightarrow> u32" where
  "effective_stmt_id info qc =
     (if qi_ps_direct_exec_id info \<and> m_prev_ps_id qc \<noteq> 0 then m_prev_ps_id qc else qi_ps_id info)"

definition classify_packet ::
  "'h handler \<Rightarrow> sql_grammar \<Rightarrow> string \<Rightarrow> gwbuf \<Rightarrow> query_info \<Rightarrow> 'h \<times> query_classifier \<Rightarrow>
   'h \<times> query_classifier" where
  "classify_packet H G current_db buffer info s =
     (let (h, qc) = s;
          qc = begin_update info qc;
          cmd = ucast (qi_command info) in
      if multi_part_packet (m_route_info qc) then (h, qc)
      else if load_data_active (m_route_info qc) \<or> qi_empty info then
        (h, finish_route_info TARGET_MASTER cmd TYPE_UNKNOWN (qi_ps_id info) qc)
      else
        (let stmt_id = effective_stmt_id info qc;
             (h, qc, route_target, type_mask) =
               classify_stmt H G current_db buffer info stmt_id (h, qc)
         in (h, finish_route_info route_target cmd type_mask stmt_id qc)))"

definition update_route_info ::
  "'h handler \<Rightarrow> sql_grammar \<Rightarrow> string \<Rightarrow> gwbuf \<Rightarrow> 'h \<times> query_classifier \<Rightarrow>
   ('h \<times> query_classifier) option" where
  "update_route_info H G current_db buffer s =
     map_option (\<lambda>info. classify_packet H G current_db buffer info s)
       (get_query_info G (gw_data buffer))"

definition update_from_reply :: "bool \<Rightarrow> bool \<Rightarrow> u32 \<Rightarrow> query_classifier \<Rightarrow> query_classifier" where
  "update_from_reply load_data is_complete status qc =
     (let ri = set_if LOAD_DATA_ACTIVE load_data (m_route_info qc);
          ri = (if is_complete then ri\<lparr>m_trx_tracker := fix_trx_state (m_trx_tracker ri) status\<rparr> else ri)
      in qc\<lparr>m_route_info := ri\<rparr>)"

fun undo_delta :: "(diff \<times> string) list \<Rightarrow> string set \<Rightarrow> string set" where
  "undo_delta [] tables = tables"
| "undo_delta ((ADD, table) # delta) tables = undo_delta delta (tables - {table})"
| "undo_delta ((REMOVE, table) # delta) tables = undo_delta delta (insert table tables)"

definition revert_update :: "query_classifier \<Rightarrow> query_classifier" where
  "revert_update qc =
     qc\<lparr>m_route_info := m_prev_route_info qc,
        m_tmp_tables := undo_delta (m_delta qc) (m_tmp_tables qc), m_delta := []\<rparr>"

section \<open>Flags and frames\<close>

lemma any_bit_route [flag_bits]:
  "any_bit f LOAD_DATA_ACTIVE \<longleftrightarrow> bit f 0" "any_bit f TRX_IS_READ_ONLY \<longleftrightarrow> bit f 1"
  "any_bit f PS_CONTINUATION \<longleftrightarrow> bit f 2" "any_bit f MULTI_PART_PACKET \<longleftrightarrow> bit f 3"
  "any_bit f NEXT_MULTI_PART_PACKET \<longleftrightarrow> bit f 4"
  "any_bit t TARGET_MASTER \<longleftrightarrow> bit t 0" "any_bit t TARGET_SLAVE \<longleftrightarrow> bit t 1"
  "any_bit t TARGET_NAMED_SERVER \<longleftrightarrow> bit t 2" "any_bit t TARGET_ALL \<longleftrightarrow> bit t 3"
  "any_bit t TARGET_RLAG_MAX \<longleftrightarrow> bit t 4" "any_bit t TARGET_LAST_USED \<longleftrightarrow> bit t 5"
  unfolding flag_defs by (rule any_bit_push)+

lemma bit_route [flag_bit]:
  "bit LOAD_DATA_ACTIVE n \<longleftrightarrow> n = 0" "bit TRX_IS_READ_ONLY n \<longleftrightarrow> n = 1"
  "bit PS_CONTINUATION n \<longleftrightarrow> n = 2" "bit MULTI_PART_PACKET n \<longleftrightarrow> n = 3"
  "bit NEXT_MULTI_PART_PACKET n \<longleftrightarrow> n = 4"
  "bit TARGET_MASTER n \<longleftrightarrow> n = 0" "bit TARGET_SLAVE n \<longleftrightarrow> n = 1"
  "bit TARGET_NAMED_SERVER n \<longleftrightarrow> n = 2" "bit TARGET_ALL n \<longleftrightarrow> n = 3"
  "bit TARGET_RLAG_MAX n \<longleftrightarrow> n = 4" "bit TARGET_LAST_USED n \<longleftrightarrow> n = 5"
  unfolding flag_defs by (rule bit_flag, simp)+

lemmas target_defs = target_is_master_def target_is_slave_def target_is_named_server_def
  target_is_all_def target_is_rlag_max_def target_is_last_used_def

lemmas route_flag_defs = multi_part_packet_def expecting_multi_part_packet_def load_data_active_def
  is_trx_still_read_only_def is_ps_continuation_def

lemma target_neq: "TARGET_ALL \<noteq> TARGET_SLAVE" "TARGET_MASTER \<noteq> TARGET_SLAVE" "TARGET_LAST_USED \<noteq> TARGET_SLAVE"
  by (simp_all add: TARGET_ALL_def TARGET_SLAVE_def TARGET_MASTER_def TARGET_LAST_USED_def)

lemma get_route_target_range: "get_route_target qc q t \<in> {TARGET_ALL, TARGET_MASTER, TARGET_SLAVE}"
  by (auto simp: get_route_target_def Let_def TARGET_UNDEFINED_def)

lemma get_route_target_slave:
  "get_route_target qc q t = TARGET_SLAVE \<Longrightarrow> 
   is_trx_read_only t \<or> \<not> is_trx_active t \<and> query_type_is_read_only (m_use_sql_variables_in qc) q"
  by (auto simp: get_route_target_def Let_def TARGET_UNDEFINED_def target_neq split: if_splits)

definition core :: "query_classifier \<Rightarrow> mxs_target \<times> bool \<times> ps_manager \<times> route_info \<times> route_info \<times> u32" where
  "core qc = (m_use_sql_variables_in qc, m_multi_statements_allowed qc, m_ps_manager qc,
     m_route_info qc, m_prev_route_info qc, m_prev_ps_id qc)"

lemma core_tmp_table [simp]: "core (add_tmp_table t qc) = core qc" "core (remove_tmp_table t qc) = core qc"
  by (simp_all add: core_def add_tmp_table_def remove_tmp_table_def)

lemma core_foreach_delete [simp]: "core (fst (foreach_table delete_table db ts qc)) = core qc"
  by (induction ts arbitrary: qc) (simp_all add: delete_table_def)

lemma core_check [simp]: "core (check_create_tmp_table G db b ty qc) = core qc"
  "core (check_drop_tmp_table G db b qc) = core qc"
  by (simp_all add: check_create_tmp_table_def check_drop_tmp_table_def Let_def)

lemma core_handle: "core (fst (handle_multi_temp_and_load G db ct b q info qc)) = core qc"
  by (simp add: handle_multi_temp_and_load_def Let_def)

lemma core_classify_type:
  "classify_type H G db b info locked ro (h, qc) = (h', qc', m) \<Longrightarrow> core qc' = core qc"
  using core_handle [of G db "if locked then CURRENT_TARGET_MASTER else CURRENT_TARGET_UNDEFINED" b "qi_type_mask info" info qc]
  by (auto simp: classify_type_def Let_def split: if_splits prod.splits)

lemma core_D: "core a = core b \<Longrightarrow> m_use_sql_variables_in a = m_use_sql_variables_in b \<and> m_route_info a = m_route_info b \<and> m_ps_manager a = m_ps_manager b"
  by (simp add: core_def)

lemma update_trx_still_read_only_simps [simp]:
  "m_trx_tracker (m_route_info (update_trx_still_read_only m qc)) = m_trx_tracker (m_route_info qc)"
  "m_use_sql_variables_in (update_trx_still_read_only m qc) = m_use_sql_variables_in qc"
  by (simp_all add: update_trx_still_read_only_def Let_def set_if_def)

lemma resolve_ps_frame:
  "resolve_ps G b info i ro m qc = (m', last_used, qc') \<Longrightarrow>
   m_trx_tracker (m_route_info qc') = m_trx_tracker (m_route_info qc) \<and> m_use_sql_variables_in qc' = m_use_sql_variables_in qc"
  by (auto simp: resolve_ps_def set_if_def split: if_splits option.splits)

lemma process_no_hints: "\<forall>h\<in>set hs. \<not> supports (hint_type h) \<Longrightarrow> process_routing_hints supports hs t = t"
  by (induction hs arbitrary: t) auto

lemma classify_stmt_hints:
  assumes "classify_stmt H G db buf info i (h, qc) = (h', qc', t, m)"
  shows "m_trx_tracker (m_route_info qc') = m_trx_tracker (m_route_info qc) \<and>
    (\<exists>t0. t = process_routing_hints (supports_hint H h' (m_trx_tracker (m_route_info qc'))) (gw_hints buf) t0)"
proof -
  obtain h1 qc1 m1 where 1: "classify_type H G db (gw_data buf) info (is_locked_to_master H h)
    (is_locked_to_master H h \<and> is_trx_read_only (m_trx_tracker (m_route_info qc))) (h, qc) = (h1, qc1, m1)"
    by (metis prod_cases3)
  obtain m2 l qc2 where 2: "resolve_ps G (gw_data buf) info i
    (is_locked_to_master H h \<and> is_trx_read_only (m_trx_tracker (m_route_info qc))) m1 qc1 = (m2, l, qc2)"
    by (metis prod_cases3)
  show ?thesis
    using assms 1 2 resolve_ps_frame [OF 2] core_D [OF core_classify_type [OF 1]]
    by (auto simp: classify_stmt_def Let_def split: if_splits)
qed

lemma classify_stmt_target:
  assumes "classify_stmt H G db buf info i (h, qc) = (h', qc', t, m)" and "gw_hints buf = []"
    "t \<noteq> TARGET_MASTER" "t \<noteq> TARGET_ALL"
  shows "is_trx_read_only (m_trx_tracker (m_route_info qc')) \<or>
     \<not> is_trx_active (m_trx_tracker (m_route_info qc')) \<and> query_type_is_read_only (m_use_sql_variables_in qc') m"
proof -
  obtain h1 qc1 m1 where 1: "classify_type H G db (gw_data buf) info (is_locked_to_master H h)
    (is_locked_to_master H h \<and> is_trx_read_only (m_trx_tracker (m_route_info qc))) (h, qc) = (h1, qc1, m1)"
    by (metis prod_cases3)
  obtain m2 l qc2 where 2: "resolve_ps G (gw_data buf) info i (is_locked_to_master H h \<and> is_trx_read_only (m_trx_tracker (m_route_info qc))) m1 qc1 = (m2, l, qc2)"
    by (metis prod_cases3)
  have c: "core qc1 = core qc" using core_classify_type [OF 1] .
  show ?thesis
    using assms 1 2 resolve_ps_frame [OF 2] core_D [OF c] get_route_target_range [of qc2 m2 "m_trx_tracker (m_route_info qc)"]
      get_route_target_slave [of qc2 m2 "m_trx_tracker (m_route_info qc)"]
    by (auto simp: classify_stmt_def Let_def split: if_splits)
qed

lemma set_if_tracker [simp]: "m_trx_tracker (set_if f v ri) = m_trx_tracker ri"
  "m_trx_tracker (set_multi_part_packet v ri) = m_trx_tracker ri"
  by (simp_all add: set_if_def set_multi_part_packet_def)

lemma finish_route_info_simps [simp]:
  "m_trx_tracker (m_route_info (finish_route_info t c m i qc)) = m_trx_tracker (m_route_info qc)"
  "m_flags (m_route_info (finish_route_info t c m i qc)) = m_flags (m_route_info qc)"
  "m_target (m_route_info (finish_route_info t c m i qc)) = ucast t"
  "m_type_mask (m_route_info (finish_route_info t c m i qc)) = m"
  "m_use_sql_variables_in (finish_route_info t c m i qc) = m_use_sql_variables_in qc"
  by (simp_all add: finish_route_info_def)

lemma ucast_master: "ucast (ucast TARGET_MASTER :: u8) = TARGET_MASTER" "ucast (ucast TARGET_ALL :: u8) = TARGET_ALL"
  by (simp_all add: TARGET_MASTER_def TARGET_ALL_def)

lemma multi_part_begin_update: "multi_part_packet (m_route_info (begin_update info qc)) \<longleftrightarrow> expecting_multi_part_packet (m_route_info qc)"
  by (auto simp: begin_update_def Let_def set_multi_part_packet_def set_if_def route_flag_defs flag_bits flag_bit bit_simps)

lemma classify_packet_cases:
  assumes "classify_packet H G db buffer info (h, qc) = (h', qc')"
  obtains (trailing) "expecting_multi_part_packet (m_route_info qc)" "qc' = begin_update info qc" "h' = h"
  | (other) "\<not> expecting_multi_part_packet (m_route_info qc)" "h' = h"
     "qc' = finish_route_info TARGET_MASTER (ucast (qi_command info)) TYPE_UNKNOWN (qi_ps_id info) (begin_update info qc)"
  | (stmt) qc2 t m where "\<not> expecting_multi_part_packet (m_route_info qc)"
     "classify_stmt H G db buffer info (effective_stmt_id info qc) (h, begin_update info qc) = (h', qc2, t, m)"
     "qc' = finish_route_info t (ucast (qi_command info)) m (effective_stmt_id info qc) qc2"
proof -
  have e: "effective_stmt_id info (begin_update info qc) = effective_stmt_id info qc" by (simp add: effective_stmt_id_def begin_update_def Let_def)
  show ?thesis
    using assms that unfolding classify_packet_def Let_def multi_part_begin_update [of info qc, symmetric]
    by (auto simp: e multi_part_begin_update split: if_splits prod.splits)
qed

end
