(* ===== verification/Classifier_Correct.thy ===== *)
theory Classifier_Correct
  imports Query_Classifier
begin

text \<open>
  Correctness of the query classifier: where statements are sent, what hints do, what is
  remembered of prepared statements, how requests that span several packets are treated and
  when the rollback of an update restores the state. The witnesses run the classifier on the
  packet of a query with a parser that finds a given type, operation and tables in every text.
\<close>

section \<open>A sample session\<close>

definition sample_grammar :: "u32 \<Rightarrow> sql_op \<Rightarrow> table_name list \<Rightarrow> sql_grammar" where
  "sample_grammar ty oper tables =
     (\<lambda>_. \<lparr>si_valid = True, si_type_mask = ty, si_operation = oper, si_multi_stmt = False,
          si_relates_to_previous = False, si_table_names = tables, si_prepare_name = ''p'',
          si_preparable_stmt = None\<rparr>)"

definition sample_query :: "hint list \<Rightarrow> gwbuf" where
  "sample_query hints = \<lparr>gw_data = create_query (str_bytes ''SELECT 1''), gw_hints = hints, gw_id = 0\<rparr>"

definition sample_info :: "u32 \<Rightarrow> sql_op \<Rightarrow> query_info" where
  "sample_info ty oper =
     new_query_info\<lparr>qi_command := 3, qi_query := True, qi_type_mask_status := NEEDS_PARSING,
       qi_type_mask := ty, qi_op := oper\<rparr>"

lemma sample_query_info:
  "get_query_info (sample_grammar ty oper ts) (gw_data (sample_query hints)) = Some (sample_info ty oper)"
proof -
  have "get_info (sample_grammar ty oper ts) (gw_data (sample_query hints)) = Some (sample_grammar ty oper ts [])"
    by (simp add: get_info_def sample_grammar_def Let_def) code_simp
  moreover have "helper_get_query_info (gw_data (sample_query hints)) = 
     Some (new_query_info\<lparr>qi_command := 3, qi_query := True, qi_type_mask_status := NEEDS_PARSING, qi_type_mask := TYPE_UNKNOWN\<rparr>)"
    by (simp add: helper_get_query_info_def sample_query_def create_query_def command_to_typemask_def
        Let_def new_query_info_def nth_append write_header_def mxs_mysql_is_ps_command_def)
  ultimately show ?thesis by (simp add: get_query_info_def sample_grammar_def sample_info_def new_query_info_def)
qed


definition sample_update ::
  "unit handler \<Rightarrow> u32 \<Rightarrow> sql_op \<Rightarrow> table_name list \<Rightarrow> hint list \<Rightarrow> query_classifier \<Rightarrow> query_classifier" where
  "sample_update H ty oper ts hints qc =
     snd (classify_packet H (sample_grammar ty oper ts) ''db'' (sample_query hints) (sample_info ty oper) ((), qc))"

lemma sample_update:
  "update_route_info H (sample_grammar ty oper ts) ''db'' (sample_query hints) ((), qc) =
   Some ((), sample_update H ty oper ts hints qc)"
  by (simp add: update_route_info_def sample_update_def sample_query_info prod_eq_iff)

section \<open>Where statements are sent\<close>

text \<open>
  C17. Whatever the state of the session and the router, a packet without routing hints that
  starts a new request is sent to a replica, or to where the previous statement went, only if
  the session is in a read-only transaction, or if it is in no transaction and the type that was
  determined for the statement is that of a read: statements that may modify data never reach
  a replica.
\<close>

theorem replica_only_reads:
  assumes "update_route_info H G db buffer (h, qc) = Some (h', qc')"
    and "gw_hints buffer = []" and "\<not> expecting_multi_part_packet (m_route_info qc)"
    and "target_is_slave (ucast (m_target (m_route_info qc'))) \<or> target_is_last_used (ucast (m_target (m_route_info qc')))"
  shows "is_trx_read_only (m_trx_tracker (m_route_info qc')) \<or>
     \<not> is_trx_active (m_trx_tracker (m_route_info qc')) \<and>
     query_type_is_read_only (m_use_sql_variables_in qc') (m_type_mask (m_route_info qc'))"
proof -
  obtain info where "classify_packet H G db buffer info (h, qc) = (h', qc')"
    using assms(1) by (auto simp: update_route_info_def)
  then show ?thesis
  proof (cases rule: classify_packet_cases)
    case other
    then show ?thesis using assms(4) by (simp add: ucast_master target_defs flag_bits flag_bit)
  next
    case (stmt qc2 t m)
    have "t \<noteq> TARGET_MASTER" "t \<noteq> TARGET_ALL"
      using assms(4) stmt(3) by (auto simp: ucast_master target_defs flag_bits flag_bit)
    then show ?thesis using classify_stmt_target [OF stmt(2) assms(2)] stmt(3) by simp
  qed (use assms(3) in simp)
qed

theorem replica_only_reads_witness:
  "let qc = new_query_classifier TYPE_ALL True;
       qc' = sample_update dummy_handler TYPE_READ OP_SELECT [] [] qc
   in is_trx_read_only (m_trx_tracker (m_route_info qc')) \<or>
     \<not> is_trx_active (m_trx_tracker (m_route_info qc')) \<and>
     query_type_is_read_only (m_use_sql_variables_in qc') (m_type_mask (m_route_info qc'))"
proof -
  let ?qc = "new_query_classifier TYPE_ALL True"
  have "target_is_slave (ucast (m_target (m_route_info (sample_update dummy_handler TYPE_READ OP_SELECT [] [] ?qc))))"
    by code_simp
  moreover have "\<not> expecting_multi_part_packet (m_route_info ?qc)" by code_simp
  ultimately show ?thesis
    using replica_only_reads [OF sample_update [of dummy_handler TYPE_READ OP_SELECT "[]" "[]" ?qc]]
    by (simp add: sample_query_def Let_def)
qed


section \<open>Routing hints\<close>

lemma process_master_hint:
  assumes "supports ROUTE_TO_MASTER"
  shows "ROUTE_TO_MASTER \<in> hint_type ` set hs \<Longrightarrow> process_routing_hints supports hs t = TARGET_MASTER"
  using assms
proof (induction hs arbitrary: t)
  case (Cons h hs)
  then show ?case by (cases "hint_type h") auto
qed simp

text \<open>
  A client packet that starts a new request and carries a hint to the primary goes to the
  primary if the router supports that hint, whatever the statement is, whatever other hints the
  packet has and whatever their order.
\<close>

theorem master_hint_overrides:
  assumes "update_route_info H G db buffer (h, qc) = Some (h', qc')"
    and "\<not> expecting_multi_part_packet (m_route_info qc)"
    and "supports_hint H h' (m_trx_tracker (m_route_info qc')) ROUTE_TO_MASTER"
    and "ROUTE_TO_MASTER \<in> hint_type ` set (gw_hints buffer)"
  shows "m_target (m_route_info qc') = ucast TARGET_MASTER"
proof -
  obtain info where "classify_packet H G db buffer info (h, qc) = (h', qc')"
    using assms(1) by (auto simp: update_route_info_def)
  then show ?thesis
  proof (cases rule: classify_packet_cases)
    case (stmt qc2 t m)
    then obtain t0 where "t = process_routing_hints (supports_hint H h' (m_trx_tracker (m_route_info qc'))) (gw_hints buffer) t0"
      using classify_stmt_hints [OF stmt(2)] by auto
    then show ?thesis
      using stmt(3) process_master_hint [of "supports_hint H h' (m_trx_tracker (m_route_info qc'))" "gw_hints buffer" t0] assms(3,4)
      by simp
  qed (use assms(2) in simp_all)
qed

theorem master_hint_overrides_witness:
  "m_target (m_route_info (sample_update (dummy_handler\<lparr>supports_hint := \<lambda>_ _ _. True\<rparr>) TYPE_READ OP_SELECT []
     [\<lparr>hint_type = ROUTE_TO_MASTER, hint_data = [], hint_value = []\<rparr>, \<lparr>hint_type = ROUTE_TO_SLAVE, hint_data = [], hint_value = []\<rparr>]
     (new_query_classifier TYPE_ALL True))) = ucast TARGET_MASTER"
proof -
  have "\<not> expecting_multi_part_packet (m_route_info (new_query_classifier TYPE_ALL True))" by code_simp
  then show ?thesis
    by (intro master_hint_overrides [OF sample_update]) (simp_all add: sample_query_def)
qed


section \<open>Prepared statements\<close>

text \<open>
  Both tables of prepared statements keep the first statement that is stored under a key, the
  named ones because they use \<open>emplace\<close>, the numbered ones because they are searched from the
  front.
\<close>

locale first_binding =
  fixes lookup :: "'r \<Rightarrow> 'k \<Rightarrow> 'v option"
    and bind :: "'r \<Rightarrow> 'k \<Rightarrow> 'v \<Rightarrow> 'r"
    and unbind :: "'r \<Rightarrow> 'k \<Rightarrow> 'r"
  assumes lookup_bind: "lookup (bind r k v) k' = (if k' = k \<and> lookup r k = None then Some v else lookup r k')"
    and lookup_unbind_other: "k' \<noteq> k \<Longrightarrow> lookup (unbind r k) k' = lookup r k'"
begin

lemma lookup_binds:
  "lookup (foldl (\<lambda>r (k, v). bind r k v) r kvs) k = (case lookup r k of Some v \<Rightarrow> Some v | None \<Rightarrow> map_of kvs k)"
  by (induction kvs arbitrary: r) (auto simp: lookup_bind split: option.splits)

lemma lookup_unbinds_other: "k \<notin> set ks \<Longrightarrow> lookup (foldl unbind r ks) k = lookup r k"
  by (induction ks arbitrary: r) (auto simp: lookup_unbind_other)

lemma rebind_ignored: "lookup r k = Some v \<Longrightarrow> lookup (bind r k w) k = Some v"
  by (simp add: lookup_bind)

end

interpretation text_ps: first_binding psm_get_text bind_text psm_erase_text
  by unfold_locales (auto simp: psm_get_text_def bind_text_def psm_erase_text_def split: option.splits)



lemma find_ps_erase_same: "distinct (map fst ps) \<Longrightarrow> find_ps (erase_ps ps i) i = None"
proof (induction ps)
  case (Cons p ps)
  have "i \<notin> fst ` set ps \<Longrightarrow> find_ps ps i = None" by (induction ps) auto
  with Cons show ?case by (cases p) auto
qed simp


lemma com_prepare_query: "is_com_query b \<Longrightarrow> \<not> is_com_prepare b"
  by (auto simp: is_com_query_def is_com_prepare_def)

lemma ps_manager_store: "m_ps_manager (ps_store G b i qc) = psm_store G (m_ps_manager qc) b i"
  by (simp add: ps_store_def)
















text \<open>
  C25. A second \<open>PREPARE name FROM\<close> with the name of an existing statement does not change what the
  classifier remembers for the name, although the server replaces the statement: executions
  of the new statement are routed by the type of the old one.
\<close>

theorem reprepare_keeps_first:
  assumes "is_com_query b1" "is_com_query b2" "get_prepare_name G b1 = name" "get_prepare_name G b2 = name"
    and "psm_get_text (m_ps_manager qc) name = None"
  shows "psm_get_text (m_ps_manager (ps_store G b2 i2 (ps_store G b1 i1 qc))) name = Some (stored_stmt G b1)"
  using assms com_prepare_query [OF assms(1)] com_prepare_query [OF assms(2)]
  by (simp add: ps_manager_store psm_store_def text_ps.lookup_bind)

theorem reprepare_keeps_first_witness:
  "psm_get_text (m_ps_manager (ps_store (sample_grammar TYPE_READ OP_SELECT []) [1, 0, 0, 0, 3, 66] 2
     (ps_store (sample_grammar TYPE_READ OP_SELECT []) [1, 0, 0, 0, 3, 65] 1 (new_query_classifier TYPE_ALL True)))) ''p'' =
   Some (stored_stmt (sample_grammar TYPE_READ OP_SELECT []) [1, 0, 0, 0, 3, 65])"
  by (rule reprepare_keeps_first)
    (simp_all add: is_com_query_def get_prepare_name_def get_info_def get_sql_def is_com_query_or_prepare_def
      is_com_prepare_def sample_grammar_def new_query_classifier_def new_ps_manager_def psm_get_text_def)

text \<open>
  The later packets of a request that was split because of its size are not classified: they
  keep the target, the type and the command of its first packet, and change neither the
  transaction, the temporary tables nor the prepared statements.
\<close>

theorem trailing_part_keeps_route:
  assumes "update_route_info H G db buffer (h, qc) = Some (h', qc')" "expecting_multi_part_packet (m_route_info qc)"
  shows "h' = h \<and> m_route_info qc' = (m_route_info qc)\<lparr>m_flags := m_flags (m_route_info qc')\<rparr> \<and>
    m_tmp_tables qc' = m_tmp_tables qc \<and> m_ps_manager qc' = m_ps_manager qc \<and>
    load_data_active (m_route_info qc') = load_data_active (m_route_info qc) \<and>
    is_trx_still_read_only (m_route_info qc') = is_trx_still_read_only (m_route_info qc)"
proof -
  obtain info where "classify_packet H G db buffer info (h, qc) = (h', qc')"
    using assms(1) by (auto simp: update_route_info_def)
  then show ?thesis
  proof (cases rule: classify_packet_cases)
    case trailing
    then show ?thesis
      using multi_part_begin_update [of info qc]
      by (auto simp: begin_update_def Let_def set_multi_part_packet_def set_if_def route_flag_defs flag_bits flag_bit bit_simps)
  qed (use assms(2) in simp_all)
qed

theorem trailing_part_keeps_route_witness:
  "let qc = (new_query_classifier TYPE_ALL True)\<lparr>m_route_info := set_multi_part_packet True new_route_info\<rparr>;
       qc' = sample_update dummy_handler TYPE_WRITE OP_INSERT [] [] qc
   in m_route_info qc' = (m_route_info qc)\<lparr>m_flags := m_flags (m_route_info qc')\<rparr>"
proof -
  let ?qc = "(new_query_classifier TYPE_ALL True)\<lparr>m_route_info := set_multi_part_packet True new_route_info\<rparr>"
  have "expecting_multi_part_packet (m_route_info ?qc)" by code_simp
  from trailing_part_keeps_route [OF sample_update this] show ?thesis unfolding Let_def by blast
qed


section \<open>Rolling back an update\<close>

definition tables_changed :: "string set \<Rightarrow> query_classifier \<Rightarrow> bool" where
  "tables_changed before qc \<longleftrightarrow>
     (\<exists>A R. m_delta qc = map (Pair ADD) A @ map (Pair REMOVE) R \<and>
        m_tmp_tables qc = (before - set R) \<union> set A)"

lemma foreach_delete_changed:
  "m_delta qc = map (Pair REMOVE) R \<Longrightarrow> m_tmp_tables qc = before - set R \<Longrightarrow>
   \<exists>R'. m_delta (fst (foreach_table delete_table db ts qc)) = map (Pair REMOVE) R' \<and>
     m_tmp_tables (fst (foreach_table delete_table db ts qc)) = before - set R'"
proof (induction ts arbitrary: qc R)
  case (Cons t ts)
  let ?t = "qualified_table db t"
  have "m_delta (remove_tmp_table ?t qc) = map (Pair REMOVE) (?t # R)"
    "m_tmp_tables (remove_tmp_table ?t qc) = before - set (?t # R)"
    using Cons.prems by (auto simp: remove_tmp_table_def)
  from Cons.IH [OF this] show ?case by (simp add: delete_table_def)
qed auto

lemma tables_changedI:
  "m_delta qc = map (Pair ADD) A @ map (Pair REMOVE) R \<Longrightarrow> m_tmp_tables qc = (before - set R) \<union> set A \<Longrightarrow>
   tables_changed before qc"
  unfolding tables_changed_def by blast

lemma check_create_changed:
  assumes "m_delta qc = map (Pair REMOVE) R" "m_tmp_tables qc = before - set R"
  shows "tables_changed before (check_create_tmp_table G db b ty qc)"
proof (cases "type_mask_contains ty TYPE_CREATE_TMP_TABLE")
  case True
  let ?t = "case get_table_names G b of [] \<Rightarrow> [] | t # _ \<Rightarrow> qualified_table db t"
  have "check_create_tmp_table G db b ty qc = add_tmp_table ?t qc" by (simp add: check_create_tmp_table_def True)
  then show ?thesis
    by (intro tables_changedI [of _ "[?t]" R]) (simp_all add: add_tmp_table_def assms)
next
  case False
  then show ?thesis by (intro tables_changedI [of _ "[]" R]) (simp_all add: check_create_tmp_table_def assms)
qed

lemma classify_type_changed:
  assumes "m_delta qc = []" "classify_type H G db b info locked ro (h, qc) = (h', qc', m)"
  shows "tables_changed (m_tmp_tables qc) qc'"
proof -
  have d: "\<exists>R. m_delta (check_drop_tmp_table G db b qc) = map (Pair REMOVE) R \<and>
      m_tmp_tables (check_drop_tmp_table G db b qc) = m_tmp_tables qc - set R"
  proof (cases "get_operation G b = OP_DROP_TABLE")
    case True
    have "\<exists>R. m_delta (fst (foreach_table delete_table db (get_table_names G b) qc)) = map (Pair REMOVE) R \<and>
        m_tmp_tables (fst (foreach_table delete_table db (get_table_names G b) qc)) = m_tmp_tables qc - set R"
      by (rule foreach_delete_changed [of _ "[]"]) (simp_all add: assms(1))
    then show ?thesis unfolding check_drop_tmp_table_def if_P [OF True] .
  next
    case False
    show ?thesis unfolding check_drop_tmp_table_def if_not_P [OF False]
      by (rule exI [of _ "[]"]) (simp add: assms(1))
  qed
  have e: "tables_changed (m_tmp_tables qc) (check_create_tmp_table G db b ty qc)" for ty
    by (rule check_create_changed [of _ "[]"]) (simp_all add: assms(1))
  have f: "tables_changed (m_tmp_tables qc) (check_create_tmp_table G db b ty (check_drop_tmp_table G db b qc))" for ty
    using d check_create_changed by blast
  have g: "tables_changed (m_tmp_tables qc) qc"
    by (rule tables_changedI [of _ "[]" "[]"]) (simp_all add: assms(1))
  show ?thesis
    using assms(2) e f g by (auto simp: classify_type_def handle_multi_temp_and_load_def Let_def split: if_splits prod.splits)
qed

lemma tables_changed_cong:
  "m_delta qc' = m_delta qc \<Longrightarrow> m_tmp_tables qc' = m_tmp_tables qc \<Longrightarrow> tables_changed b qc' = tables_changed b qc"
  by (simp add: tables_changed_def)

lemma tables_frame:
  "tables_changed b (update_trx_still_read_only m qc) = tables_changed b qc"
  "tables_changed b (finish_route_info t c m i qc) = tables_changed b qc"
  "m_prev_route_info (update_trx_still_read_only m qc) = m_prev_route_info qc"
  "m_prev_route_info (finish_route_info t c m i qc) = m_prev_route_info qc"
  by ((intro tables_changed_cong)?; simp add: update_trx_still_read_only_def finish_route_info_def Let_def)+

lemma tables_resolve_ps:
  assumes "resolve_ps G buf info i ro m qc = (m', l, qc')"
  shows "tables_changed b qc' = tables_changed b qc \<and> m_prev_route_info qc' = m_prev_route_info qc"
proof -
  have "m_delta qc' = m_delta qc" "m_tmp_tables qc' = m_tmp_tables qc" "m_prev_route_info qc' = m_prev_route_info qc"
    using assms by (auto simp: resolve_ps_def split: if_splits option.splits)
  then show ?thesis by (intro conjI tables_changed_cong)
qed

lemma classify_stmt_changed:
  assumes "m_delta qc = []" "classify_stmt H G db buf info i (h, qc) = (h', qc', t, m)"
  shows "tables_changed (m_tmp_tables qc) qc' \<and> m_prev_route_info qc' = m_prev_route_info qc"
proof -
  let ?ro = "is_locked_to_master H h \<and> is_trx_read_only (m_trx_tracker (m_route_info qc))"
  obtain h1 qc1 m1 where 1: "classify_type H G db (gw_data buf) info (is_locked_to_master H h) ?ro (h, qc) = (h1, qc1, m1)"
    by (metis prod_cases3)
  obtain m2 l qc2 where 2: "resolve_ps G (gw_data buf) info i ?ro m1 qc1 = (m2, l, qc2)"
    by (metis prod_cases3)
  have p: "m_prev_route_info qc1 = m_prev_route_info qc" using core_classify_type [OF 1] by (simp add: core_def)
  show ?thesis
    using assms(2) 1 2 classify_type_changed [OF assms(1) 1] tables_resolve_ps [OF 2] p
    by (auto simp: classify_stmt_def Let_def tables_frame split: if_splits)
qed

lemma update_changed:
  assumes "classify_packet H G db buffer info (h, qc) = (h', qc')"
  shows "tables_changed (m_tmp_tables qc) qc' \<and> m_prev_route_info qc' = m_route_info qc"
proof -
  have b: "m_delta (begin_update info qc) = []" "m_tmp_tables (begin_update info qc) = m_tmp_tables qc"
    "m_prev_route_info (begin_update info qc) = m_route_info qc"
    by (simp_all add: begin_update_def Let_def)
  then have t: "tables_changed (m_tmp_tables qc) (begin_update info qc)"
    by (intro tables_changedI [of _ "[]" "[]"]) simp_all
  from assms show ?thesis
  proof (cases rule: classify_packet_cases)
    case (stmt qc2 t m)
    then show ?thesis using classify_stmt_changed [OF b(1) stmt(2)] b by (simp add: tables_frame)
  qed (use b t in \<open>auto simp: tables_frame\<close>)
qed

lemma undo_remove: "undo_delta (map (Pair REMOVE) R) S = S \<union> set R"
  by (induction R arbitrary: S) auto
lemma undo_add: "undo_delta (map (Pair ADD) A @ d) S = undo_delta d (S - set A)"
  by (induction A arbitrary: S) (simp_all flip: Diff_insert2)

text \<open>
  C18. Taking back the last update restores the route information, and with it the state of the
  transaction. It restores the set of temporary tables exactly if every table that the update
  removed had been in the set and every table it added had not been, or was removed by the
  same update: the set is changed by the inverse operations, not put back.
\<close>

theorem revert_update_restores:
  assumes "update_route_info H G db buffer (h, qc) = Some (h', qc')"
  shows "m_route_info (revert_update qc') = m_route_info qc \<and>
    (m_tmp_tables (revert_update qc') = m_tmp_tables qc \<longleftrightarrow>
       (\<forall>t. (REMOVE, t) \<in> set (m_delta qc') \<longrightarrow> t \<in> m_tmp_tables qc) \<and>
       (\<forall>t. (ADD, t) \<in> set (m_delta qc') \<longrightarrow> t \<notin> m_tmp_tables qc \<or> (REMOVE, t) \<in> set (m_delta qc')))"
proof -
  obtain info where c: "classify_packet H G db buffer info (h, qc) = (h', qc')"
    using assms(1) by (auto simp: update_route_info_def)
  then obtain A R where "m_delta qc' = map (Pair ADD) A @ map (Pair REMOVE) R"
    "m_tmp_tables qc' = (m_tmp_tables qc - set R) \<union> set A" "m_prev_route_info qc' = m_route_info qc"
    using update_changed [OF c] by (auto simp: tables_changed_def)
  then show ?thesis by (auto simp: revert_update_def undo_add undo_remove)
qed

theorem revert_update_restores_witness:
  "let qc = (new_query_classifier TYPE_ALL True)\<lparr>m_tmp_tables := {''db.t''}\<rparr>;
       qc' = sample_update dummy_handler (TYPE_WRITE OR TYPE_CREATE_TMP_TABLE) OP_CREATE_TABLE
         [\<lparr>tn_db = [], tn_table = ''t''\<rparr>] [] qc
   in m_route_info (revert_update qc') = m_route_info qc \<and> m_tmp_tables (revert_update qc') \<noteq> m_tmp_tables qc"
proof -
  let ?qc = "(new_query_classifier TYPE_ALL True)\<lparr>m_tmp_tables := {''db.t''}\<rparr>"
  let ?qc' = "sample_update dummy_handler (TYPE_WRITE OR TYPE_CREATE_TMP_TABLE) OP_CREATE_TABLE
         [\<lparr>tn_db = [], tn_table = ''t''\<rparr>] [] ?qc"
  have "m_delta ?qc' = [(ADD, ''db.t'')]" by code_simp
  with revert_update_restores [OF sample_update [of dummy_handler "TYPE_WRITE OR TYPE_CREATE_TMP_TABLE" OP_CREATE_TABLE
      "[\<lparr>tn_db = [], tn_table = ''t''\<rparr>]" "[]" ?qc]] show ?thesis
    unfolding Let_def by simp
qed


end
