(* ===== verification/History.thy ===== *)
theory History
  imports Gwbuf "HOL-Library.AList"
begin

text \<open>
  The history of session commands, \<open>History\<close> of \<open>server/core/history.cc\<close>: the commands that have
  to be executed again on a new connection, the results the client has seen, and the
  subscribers, one for every backend connection, whose results are compared with those. A
  subscriber and its entry in \<open>m_history_info\<close> live and die together and are one record here; the
  subscribers are kept in a list, in the order in which the map of pointers iterates over them.
\<close>

section \<open>State\<close>

record subscriber =
  m_current_id :: u32
  m_ids_to_check :: "(u32 \<times> bool) list"
  waiting_for_response :: bool
  position :: u32

record history =
  m_history :: "gwbuf list"
  m_history_responses :: "(u32 \<times> bool) list"
  m_history_pruned :: bool
  m_history_info :: "(nat \<times> subscriber) list"
  m_max_sescmd_history :: nat
  m_allow_pruning :: bool

definition new_history :: "nat \<Rightarrow> bool \<Rightarrow> bool \<Rightarrow> history" where
  "new_history limit allow_pruning disable_history =
     \<lparr>m_history = [], m_history_responses = [], m_history_pruned = False, m_history_info = [],
      m_max_sescmd_history = (if disable_history then 0 else limit), m_allow_pruning = allow_pruning\<rparr>"

section \<open>The list of commands\<close>

text \<open>
  The reads of \<open>m_history.back()\<close> and of the rest of an empty queue are undefined, so pruning
  the responses of an empty history gives None.
\<close>

fun min_needed :: "u32 \<Rightarrow> subscriber list \<Rightarrow> u32" where
  "min_needed min_id [] = min_id"
| "min_needed min_id (sub # subs) =
     min_needed
       (if position sub > 0 \<and> position sub < min_id then position sub
        else if m_current_id sub \<noteq> 0 \<and> m_current_id sub < min_id then m_current_id sub
        else min_id) subs"

definition prune_responses :: "history \<Rightarrow> history option" where
  "prune_responses h =
     (if m_history h = [] then None
      else
        (let min_id = min_needed (gw_id (last (m_history h))) (map snd (m_history_info h))
         in Some (h\<lparr>m_history_responses :=
              filter (\<lambda>(ident, _). \<not> ident < min_id \<or> ident \<in> gw_id ` set (m_history h)) (m_history_responses h)\<rparr>)))"

text \<open>\<open>erase\<close> of the first command with the same text; \<open>emplace\<close> keeps an existing response.\<close>

fun erase_same :: "gwbuf \<Rightarrow> gwbuf list \<Rightarrow> gwbuf list" where
  "erase_same buf [] = []"
| "erase_same buf (c # cs) = (if same_data c buf then cs else c # erase_same buf cs)"

definition add_command :: "gwbuf \<Rightarrow> bool \<Rightarrow> history \<Rightarrow> history" where
  "add_command buffer ok h =
     (let h = (if m_allow_pruning h then h\<lparr>m_history := erase_same buffer (m_history h)\<rparr> else h);
          h = h\<lparr>m_history_responses :=
                 (if map_of (m_history_responses h) (gw_id buffer) = None
                  then m_history_responses h @ [(gw_id buffer, ok)] else m_history_responses h),
                m_history := m_history h @ [buffer]\<rparr>
      in if length (m_history h) > m_max_sescmd_history h
         then h\<lparr>m_history := tl (m_history h), m_history_pruned := True\<rparr> else h)"

definition history_add :: "gwbuf \<Rightarrow> bool \<Rightarrow> history \<Rightarrow> history option" where
  "history_add buffer ok h = prune_responses (add_command buffer ok h)"

definition history_erase :: "u32 \<Rightarrow> history \<Rightarrow> history \<times> bool" where
  "history_erase ident h =
     (let rest = filter (\<lambda>buf. gw_id buf \<noteq> ident) (m_history h)
      in if length rest < length (m_history h) then (h\<lparr>m_history := rest\<rparr>, True) else (h, False))"

definition history_clear :: "history \<Rightarrow> history" where
  "history_clear h = h\<lparr>m_history := []\<rparr>"

definition can_recover_state :: "history \<Rightarrow> bool" where
  "can_recover_state h =
     (if m_history h = [] then True
      else if m_max_sescmd_history h > 0 then m_allow_pruning h \<or> \<not> m_history_pruned h
      else False)"

section \<open>Subscribers\<close>

definition sub_of :: "history \<Rightarrow> nat \<Rightarrow> subscriber option" where
  "sub_of h n = map_of (m_history_info h) n"

definition upd_sub :: "nat \<Rightarrow> (subscriber \<Rightarrow> subscriber) \<Rightarrow> history \<Rightarrow> history" where
  "upd_sub n f h =
     h\<lparr>m_history_info := map (\<lambda>(k, sub). (k, if k = n then f sub else sub)) (m_history_info h)\<rparr>"

definition subscribe :: "nat \<Rightarrow> history \<Rightarrow> history" where
  "subscribe n h =
     (let ident = (case m_history h of [] \<Rightarrow> 0 | buf # _ \<Rightarrow> gw_id buf)
      in h\<lparr>m_history_info := m_history_info h @
           [(n, \<lparr>m_current_id = 0, m_ids_to_check = [], waiting_for_response = False, position = ident\<rparr>)]\<rparr>)"

definition history_remove :: "nat \<Rightarrow> history \<Rightarrow> history" where
  "history_remove n h = h\<lparr>m_history_info := filter (\<lambda>(k, _). k \<noteq> n) (m_history_info h)\<rparr>"

definition set_current_id :: "nat \<Rightarrow> u32 \<Rightarrow> history \<Rightarrow> history" where
  "set_current_id n ident h = upd_sub n (\<lambda>sub. sub\<lparr>m_current_id := ident\<rparr>) h"

definition history_get :: "u32 \<Rightarrow> history \<Rightarrow> bool option" where
  "history_get ident h = map_of (m_history_responses h) ident"

definition set_position :: "nat \<Rightarrow> u32 \<Rightarrow> history \<Rightarrow> history" where
  "set_position n pos h = upd_sub n (\<lambda>sub. sub\<lparr>position := pos\<rparr>) h"

definition need_response :: "nat \<Rightarrow> history \<Rightarrow> history" where
  "need_response n h = upd_sub n (\<lambda>sub. sub\<lparr>waiting_for_response := True\<rparr>) h"

definition add_response :: "nat \<Rightarrow> bool \<Rightarrow> history \<Rightarrow> (history \<times> bool) option" where
  "add_response n success h =
     (case sub_of h n of
        None \<Rightarrow> None
      | Some sub \<Rightarrow>
          Some (if m_current_id sub \<noteq> 0 then
                  (let (h, ok) =
                         (case history_get (m_current_id sub) h of
                            Some cmd \<Rightarrow> (set_position n (m_current_id sub) h, success = cmd)
                          | None \<Rightarrow>
                              (need_response n
                                 (upd_sub n (\<lambda>s. s\<lparr>m_ids_to_check :=
                                    AList.update (m_current_id sub) success (m_ids_to_check s)\<rparr>) h), True))
                   in (set_current_id n 0 h, ok))
                else (h, True)))"

definition compare_responses :: "nat \<Rightarrow> u32 \<Rightarrow> bool \<Rightarrow> history \<Rightarrow> history \<times> bool" where
  "compare_responses n ident success h =
     (case sub_of h n of
        None \<Rightarrow> (h, True)
      | Some sub \<Rightarrow>
          (case map_of (m_ids_to_check sub) ident of
             Some r \<Rightarrow>
               (upd_sub n (\<lambda>s. s\<lparr>m_ids_to_check := AList.delete ident (m_ids_to_check s)\<rparr>) (set_position n ident h),
                r = success)
           | None \<Rightarrow> (if m_ids_to_check sub \<noteq> [] then need_response n h else h, True)))"

text \<open>
  The flags of all subscribers are taken down first, then each of those that waited compares its
  response. The result lists the subscribers whose callback is called.
\<close>

fun compare_all :: "nat list \<Rightarrow> u32 \<Rightarrow> bool \<Rightarrow> history \<Rightarrow> history \<times> nat list" where
  "compare_all [] ident success h = (h, [])"
| "compare_all (n # ns) ident success h =
     (let (h, ok) = compare_responses n ident success h;
          (h, bad) = compare_all ns ident success h
      in (h, if ok then bad else n # bad))"

definition check_early_responses :: "u32 \<Rightarrow> bool \<Rightarrow> history \<Rightarrow> history \<times> nat list" where
  "check_early_responses ident success h =
     (let subscribers = map fst (filter (\<lambda>(_, sub). waiting_for_response sub) (m_history_info h));
          h = h\<lparr>m_history_info :=
                 map (\<lambda>(n, sub). (n, sub\<lparr>waiting_for_response := False\<rparr>)) (m_history_info h)\<rparr>
      in compare_all subscribers ident success h)"

section \<open>What the history holds\<close>

definition lastn :: "nat \<Rightarrow> 'a list \<Rightarrow> 'a list" where
  "lastn n xs = drop (length xs - n) xs"


lemma length_lastn [simp]: "length (lastn n xs) = min n (length xs)"
  by (simp add: lastn_def)

lemma lastn_split: "xs = take (length xs - n) xs @ lastn n xs"
  by (simp add: lastn_def)





primrec history_adds :: "(gwbuf \<times> bool) list \<Rightarrow> history \<Rightarrow> history option" where
  "history_adds [] h = Some h"
| "history_adds (c # cs) h = Option.bind (history_add (fst c) (snd c) h) (history_adds cs)"


lemma add_command_contents:
  "m_history (add_command buf ok h) =
     (let w = (if m_allow_pruning h then erase_same buf (m_history h) else m_history h) @ [buf]
      in if length w > m_max_sescmd_history h then tl w else w)"
  "m_history_pruned (add_command buf ok h) \<longleftrightarrow> m_history_pruned h \<or>
     length (if m_allow_pruning h then erase_same buf (m_history h) else m_history h) \<ge> m_max_sescmd_history h"
  "m_max_sescmd_history (add_command buf ok h) = m_max_sescmd_history h"
  "m_allow_pruning (add_command buf ok h) = m_allow_pruning h"
  "m_history_info (add_command buf ok h) = m_history_info h"
  by (auto simp: add_command_def Let_def)

lemma history_add_Some:
  "history_add buf ok h = Some h' \<Longrightarrow>
   m_history h' = m_history (add_command buf ok h) \<and> m_history_pruned h' = m_history_pruned (add_command buf ok h) \<and>
   m_max_sescmd_history h' = m_max_sescmd_history h \<and> m_allow_pruning h' = m_allow_pruning h \<and>
   m_history_info h' = m_history_info h"
  by (auto simp: history_add_def prune_responses_def add_command_contents split: if_splits)

lemma history_add_defined: "0 < m_max_sescmd_history h \<Longrightarrow> \<exists>h'. history_add buf ok h = Some h'"
  by (cases "if m_allow_pruning h then erase_same buf (m_history h) else m_history h")
    (auto simp: history_add_def prune_responses_def add_command_contents Let_def)






text \<open>
  C23. A history that is disabled has the limit zero. The first command that is added to it is
  discarded at once, so the history is empty again: it claims that the state of the session can
  be recovered although a command has been executed, and the pruning of the responses that
  follows reads the last command of the empty queue.
\<close>

theorem disabled_history:
  "m_history (add_command buf ok (new_history limit allow True)) = [] \<and>
   can_recover_state (add_command buf ok (new_history limit allow True)) \<and>
   history_add buf ok (new_history limit allow True) = None"
  by (simp add: new_history_def add_command_contents history_add_def prune_responses_def can_recover_state_def)

section \<open>Comparing responses\<close>

lemma min_needed_le: "min_needed m subs \<le> m"
  by (induction m subs rule: min_needed.induct) (auto intro: order_trans dest: order_trans [OF _ less_imp_le])

lemma min_needed_current:
  assumes "sub \<in> set subs" "m_current_id sub \<noteq> 0" "position sub = 0 \<or> position sub \<le> m_current_id sub"
  shows "min_needed m subs \<le> m_current_id sub"
  using assms
proof (induction m subs rule: min_needed.induct)
  case (2 m s subs)
  show ?case
  proof (cases "s = sub")
    case True
    let ?m = "if position s > 0 \<and> position s < m then position s
        else if m_current_id s \<noteq> 0 \<and> m_current_id s < m then m_current_id s else m"
    have "?m \<le> m_current_id sub" using 2(3,4) True by (auto simp: word_le_nat_alt word_less_nat_alt)
    then show ?thesis unfolding min_needed.simps by (rule order_trans [OF min_needed_le])
  next
    case False
    then show ?thesis unfolding min_needed.simps using 2 by auto
  qed
qed simp

lemma history_get_add_command:
  "history_get i (add_command buf ok h) =
     (if history_get i h = None \<and> i = gw_id buf then Some ok else history_get i h)"
  by (auto simp: history_get_def add_command_def Let_def map_add_def split: option.splits)

lemma map_of_filter_keep: "P i \<Longrightarrow> map_of (filter (\<lambda>(k, _). P k) xs) i = map_of xs i"
  by (induction xs) auto

lemma history_get_add:
  assumes "history_add buf ok h = Some h'" "(n, sub) \<in> set (m_history_info h)"
    "m_current_id sub \<noteq> 0" "position sub = 0 \<or> position sub \<le> m_current_id sub"
  shows "history_get (m_current_id sub) h' = history_get (m_current_id sub) (add_command buf ok h)"
proof -
  let ?h = "add_command buf ok h"
  let ?m = "min_needed (gw_id (last (m_history ?h))) (map snd (m_history_info ?h))"
  have "sub \<in> set (map snd (m_history_info ?h))" using assms(2) by (force simp: add_command_contents)
  then have "\<not> m_current_id sub < ?m" using min_needed_current [OF _ assms(3,4)] by (simp add: not_less)
  then have "map_of (filter (\<lambda>(ident, _). \<not> ident < ?m \<or> ident \<in> gw_id ` set (m_history ?h)) (m_history_responses ?h)) (m_current_id sub) =
      map_of (m_history_responses ?h) (m_current_id sub)"
    by (intro map_of_filter_keep) simp
  then show ?thesis
    using assms(1) by (auto simp: history_add_def prune_responses_def history_get_def Let_def split: if_splits)
qed

lemma map_of_map_upd: "map_of (map (\<lambda>(k, v). (k, if k = n then f v else v)) xs) m = (if m = n then map_option f (map_of xs m) else map_of xs m)"
  by (induction xs) auto

lemma sub_of_upd_sub [simp]: "sub_of (upd_sub n f h) m = (if m = n then map_option f (sub_of h m) else sub_of h m)"
  by (simp add: sub_of_def upd_sub_def map_of_map_upd)

lemma upd_sub_frame [simp]:
  "m_history (upd_sub n f h) = m_history h" "m_history_responses (upd_sub n f h) = m_history_responses h"
  "history_get i (upd_sub n f h) = history_get i h" "map fst (m_history_info (upd_sub n f h)) = map fst (m_history_info h)"
  by (auto simp: upd_sub_def history_get_def)

lemmas sub_defs = set_position_def need_response_def set_current_id_def

lemma sub_of_compare_responses: "m \<noteq> n \<Longrightarrow> sub_of (fst (compare_responses n i ok h)) m = sub_of h m"
  by (auto simp: compare_responses_def sub_defs split: option.splits)

lemma compare_all_bad:
  "distinct ns \<Longrightarrow> n \<in> set (snd (compare_all ns i ok h)) \<longleftrightarrow>
     n \<in> set ns \<and> (\<exists>sub. sub_of h n = Some sub \<and> map_of (m_ids_to_check sub) i = Some (\<not> ok))"
proof (induction ns i ok h rule: compare_all.induct)
  case (2 m ns i ok h)
  obtain h1 b where c: "compare_responses m i ok h = (h1, b)" by (cases "compare_responses m i ok h")
  have h1: "n \<noteq> m \<Longrightarrow> sub_of h1 n = sub_of h n" using sub_of_compare_responses [of n m i ok h] c by simp
  have b: "\<not> b \<longleftrightarrow> (\<exists>sub. sub_of h m = Some sub \<and> map_of (m_ids_to_check sub) i = Some (\<not> ok))"
    using c by (auto simp: compare_responses_def split: option.splits)
  show ?case
    using 2(1) [OF c [symmetric] refl] 2(2) c h1 b by (cases "n = m") (auto simp: case_prod_beta)
qed simp

lemma history_adds_frame:
  "history_adds cs h = Some h' \<Longrightarrow> m_history_info h' = m_history_info h"
  by (induction cs arbitrary: h) (auto dest!: history_add_Some split: Option.bind_splits)

lemma history_get_adds:
  assumes "(n, sub) \<in> set (m_history_info h)" "m_current_id sub \<noteq> 0" "position sub = 0 \<or> position sub \<le> m_current_id sub"
  shows "history_adds cs h = Some h' \<Longrightarrow> history_get (m_current_id sub) h = Some r \<Longrightarrow> history_get (m_current_id sub) h' = Some r"
  using assms
proof (induction cs arbitrary: h)
  case (Cons c cs)
  obtain h1 where h1: "history_add (fst c) (snd c) h = Some h1" "history_adds cs h1 = Some h'"
    using Cons.prems(1) by (auto split: Option.bind_splits)
  have "history_get (m_current_id sub) h1 = Some r"
    using history_get_add [OF h1(1) Cons.prems(3-5)] Cons.prems(2) by (simp add: history_get_add_command)
  moreover have "(n, sub) \<in> set (m_history_info h1)" using history_add_Some [OF h1(1)] Cons.prems(3) by simp
  ultimately show ?case using Cons.IH [OF h1(2)] Cons.prems(4,5) by blast
qed simp

lemma sub_of_in: "sub_of h n = Some sub \<Longrightarrow> (n, sub) \<in> set (m_history_info h)"
  by (simp add: sub_of_def map_of_SomeD)

lemma late_response:
  assumes "sub_of h n = Some sub" "m_current_id sub \<noteq> 0"
    "position sub = 0 \<or> position sub \<le> m_current_id sub" "history_get (m_current_id sub) h = None"
    "gw_id buf = m_current_id sub" "history_adds ((buf, ok) # cs) h = Some h2"
  shows "\<exists>h3. add_response n r h2 = Some (h3, r = ok)"
proof -
  obtain h1 where h1: "history_add buf ok h = Some h1" "history_adds cs h1 = Some h2"
    using assms(6) by (auto split: Option.bind_splits)
  have "history_get (m_current_id sub) h1 = Some ok"
    using history_get_add [OF h1(1) sub_of_in [OF assms(1)] assms(2,3)] assms(4,5) by (simp add: history_get_add_command)
  moreover have "m_history_info h1 = m_history_info h" using history_add_Some [OF h1(1)] by simp
  ultimately have "history_get (m_current_id sub) h2 = Some ok" "sub_of h2 n = Some sub"
    using history_get_adds [of n sub h1, OF _ assms(2,3) h1(2)] sub_of_in [OF assms(1)] assms(1)
      history_adds_frame [OF h1(2)] by (simp_all add: sub_of_def)
  then show ?thesis using assms(2) by (auto simp: add_response_def)
qed

lemma sub_of_clear_flags:
  "sub_of (h\<lparr>m_history_info := map (\<lambda>(n, sub). (n, f sub)) (m_history_info h)\<rparr>) n = map_option f (sub_of h n)"
  by (simp add: sub_of_def map_of_map)

lemma early_bad:
  assumes "distinct (map fst (m_history_info h))" "sub_of h n = Some sub" "waiting_for_response sub"
  shows "n \<in> set (snd (check_early_responses i ok h)) \<longleftrightarrow> map_of (m_ids_to_check sub) i = Some (\<not> ok)"
proof -
  let ?ns = "map fst (filter (\<lambda>(_, sub). waiting_for_response sub) (m_history_info h))"
  have "distinct ?ns" using assms(1) by (simp add: distinct_map_filter)
  moreover have "n \<in> set ?ns" using sub_of_in [OF assms(2)] assms(3) by force
  ultimately show ?thesis
    using assms(2) by (simp add: check_early_responses_def compare_all_bad sub_of_clear_flags)
qed

lemma early_response:
  assumes "distinct (map fst (m_history_info h))" "sub_of h n = Some sub" "m_current_id sub \<noteq> 0"
    "history_get (m_current_id sub) h = None" "add_response n r h = Some (h1, reported)" "history_add buf ok h1 = Some h2"
  shows "reported \<and> (n \<in> set (snd (check_early_responses (m_current_id sub) ok h2)) \<longleftrightarrow> r \<noteq> ok)"
proof -
  have h1: "reported" "map fst (m_history_info h1) = map fst (m_history_info h)"
    "sub_of h1 n = Some (sub\<lparr>m_ids_to_check := AList.update (m_current_id sub) r (m_ids_to_check sub),
       waiting_for_response := True, m_current_id := 0\<rparr>)"
    using assms(2-5) by (auto simp: add_response_def sub_defs)
  moreover have "m_history_info h2 = m_history_info h1" using history_add_Some [OF assms(6)] by simp
  ultimately show ?thesis
    using early_bad [of h2 n] assms(1) by (simp add: sub_of_def update_conv')
qed

text \<open>
  C22. The result of a command on a backend is compared with the one the client has seen, whichever
  of the two comes first and whatever further commands are executed in between: if the backend
  answers later, its response is accepted exactly if it is the same, and the recorded response
  has not been pruned by then; if it answers first, it is reported exactly if it differs once
  the response for the client is known.
\<close>

theorem responses_compared:
  assumes "distinct (map fst (m_history_info h))" "sub_of h n = Some sub" "m_current_id sub \<noteq> 0"
    "position sub = 0 \<or> position sub \<le> m_current_id sub" "history_get (m_current_id sub) h = None"
    "gw_id buf = m_current_id sub" "0 < m_max_sescmd_history h"
  shows "(\<forall>cs h2. history_adds ((buf, ok) # cs) h = Some h2 \<longrightarrow> (\<exists>h3. add_response n r h2 = Some (h3, r = ok))) \<and>
    (\<exists>h1 h2. add_response n r h = Some (h1, True) \<and> history_add buf ok h1 = Some h2 \<and>
       (n \<in> set (snd (check_early_responses (gw_id buf) ok h2)) \<longleftrightarrow> r \<noteq> ok))"
proof -
  obtain p where "add_response n r h = Some p" using assms(2) by (simp add: add_response_def)
  then obtain h1 rep where h1: "add_response n r h = Some (h1, rep)" by (cases p) blast
  then have "m_max_sescmd_history h1 = m_max_sescmd_history h"
    by (auto simp: add_response_def sub_defs upd_sub_def split: option.splits if_splits)
  then obtain h2 where h2: "history_add buf ok h1 = Some h2" using history_add_defined [of h1] assms(7) by auto
  show ?thesis
    using late_response [OF assms(2-6)] early_response [OF assms(1-3,5) h1 h2] h1 h2 assms(6) by auto
qed

theorem responses_compared_witness:
  "let h = set_current_id 0 7 (subscribe 0 (new_history 5 True False)); buf = no_buffer\<lparr>gw_data := [1], gw_id := 7\<rparr>
   in \<exists>h1 h2. add_response 0 False h = Some (h1, True) \<and> history_add buf True h1 = Some h2 \<and>
        0 \<in> set (snd (check_early_responses 7 True h2))"
  using responses_compared [of "set_current_id 0 7 (subscribe 0 (new_history 5 True False))" 0
      "\<lparr>m_current_id = 7, m_ids_to_check = [], waiting_for_response = False, position = 0\<rparr>"
      "no_buffer\<lparr>gw_data := [1], gw_id := 7\<rparr>" True False]
  by (simp add: set_current_id_def upd_sub_def subscribe_def new_history_def sub_of_def history_get_def)


end
