(* ===== verification/Backend.thy ===== *)
theory Backend
  imports Gwbuf
begin

text \<open>
  Servers and the connections of a session to them: the status bits of
  \<open>include/maxscale/target.hh\<close>, \<open>Backend\<close> of \<open>server/core/backend.cc\<close> and \<open>RWBackend\<close> of the MariaDB
  protocol module. The monitors decide about the status, the rank and the replication lag of
  a server; here they are the fields of a record. Whether an endpoint accepts a connection or
  a packet is up to the network, and an argument of the operations.
\<close>

section \<open>Server status\<close>

definition SERVER_RUNNING :: u64 where [flag_defs]: "SERVER_RUNNING = push_bit 0 1"
definition SERVER_MAINT :: u64 where [flag_defs]: "SERVER_MAINT = push_bit 1 1"
definition SERVER_AUTH_ERROR :: u64 where [flag_defs]: "SERVER_AUTH_ERROR = push_bit 2 1"
definition SERVER_MASTER :: u64 where [flag_defs]: "SERVER_MASTER = push_bit 3 1"
definition SERVER_SLAVE :: u64 where [flag_defs]: "SERVER_SLAVE = push_bit 4 1"
definition SERVER_DRAINING :: u64 where [flag_defs]: "SERVER_DRAINING = push_bit 5 1"
definition SERVER_RELAY :: u64 where [flag_defs]: "SERVER_RELAY = push_bit 11 1"

lemma any_bit_server [flag_bits]:
  "any_bit x SERVER_RUNNING \<longleftrightarrow> bit x 0" "any_bit x SERVER_MAINT \<longleftrightarrow> bit x 1"
  "any_bit x SERVER_AUTH_ERROR \<longleftrightarrow> bit x 2" "any_bit x SERVER_MASTER \<longleftrightarrow> bit x 3"
  "any_bit x SERVER_SLAVE \<longleftrightarrow> bit x 4" "any_bit x SERVER_DRAINING \<longleftrightarrow> bit x 5"
  "any_bit x SERVER_RELAY \<longleftrightarrow> bit x 11"
  unfolding flag_defs by (rule any_bit_push)+

lemma bit_server [flag_bit]:
  "bit SERVER_RUNNING n \<longleftrightarrow> n = 0" "bit SERVER_MAINT n \<longleftrightarrow> n = 1" "bit SERVER_AUTH_ERROR n \<longleftrightarrow> n = 2"
  "bit SERVER_MASTER n \<longleftrightarrow> n = 3" "bit SERVER_SLAVE n \<longleftrightarrow> n = 4" "bit SERVER_DRAINING n \<longleftrightarrow> n = 5"
  "bit SERVER_RELAY n \<longleftrightarrow> n = 11"
  unfolding flag_defs by (rule bit_flag, simp)+

definition status_is_connectable :: "u64 \<Rightarrow> bool" where
  "status_is_connectable status \<longleftrightarrow>
     status AND (SERVER_RUNNING OR SERVER_MAINT OR SERVER_DRAINING) = SERVER_RUNNING"

definition status_is_usable :: "u64 \<Rightarrow> bool" where
  "status_is_usable status \<longleftrightarrow> status AND (SERVER_RUNNING OR SERVER_MAINT) = SERVER_RUNNING"

definition status_is_in_maint :: "u64 \<Rightarrow> bool" where
  "status_is_in_maint status \<longleftrightarrow> any_bit status SERVER_MAINT"

definition status_is_master :: "u64 \<Rightarrow> bool" where
  "status_is_master status \<longleftrightarrow>
     status AND (SERVER_RUNNING OR SERVER_MASTER OR SERVER_MAINT) = SERVER_RUNNING OR SERVER_MASTER"

definition status_is_slave :: "u64 \<Rightarrow> bool" where
  "status_is_slave status \<longleftrightarrow>
     status AND (SERVER_RUNNING OR SERVER_SLAVE OR SERVER_MAINT) = SERVER_RUNNING OR SERVER_SLAVE"

definition status_is_relay :: "u64 \<Rightarrow> bool" where
  "status_is_relay status \<longleftrightarrow>
     status AND (SERVER_RUNNING OR SERVER_RELAY OR SERVER_MAINT) = SERVER_RUNNING OR SERVER_RELAY"

lemma masked_eq_iff:
  "(x :: 'a::len word) AND m = v \<longleftrightarrow> (\<forall>n. bit m n \<longrightarrow> bit x n = bit v n) \<and> (\<forall>n. bit v n \<longrightarrow> bit m n)"
proof
  show "(\<forall>n. bit m n \<longrightarrow> bit x n = bit v n) \<and> (\<forall>n. bit v n \<longrightarrow> bit m n) \<Longrightarrow> x AND m = v"
    by (intro bit_word_eqI) (auto simp: bit_simps)
qed (auto simp: bit_simps)

lemma status_bits [flag_bits]:
  "status_is_connectable s \<longleftrightarrow> bit s 0 \<and> \<not> bit s 1 \<and> \<not> bit s 5"
  "status_is_usable s \<longleftrightarrow> bit s 0 \<and> \<not> bit s 1"
  "status_is_in_maint s \<longleftrightarrow> bit s 1"
  "status_is_master s \<longleftrightarrow> bit s 0 \<and> bit s 3 \<and> \<not> bit s 1"
  "status_is_slave s \<longleftrightarrow> bit s 0 \<and> bit s 4 \<and> \<not> bit s 1"
  "status_is_relay s \<longleftrightarrow> bit s 0 \<and> bit s 11 \<and> \<not> bit s 1"
  by (simp_all add: status_is_connectable_def status_is_usable_def status_is_in_maint_def status_is_master_def
      status_is_slave_def status_is_relay_def masked_eq_iff bit_or_iff flag_bits flag_bit imp_disjL all_conj_distrib)

section \<open>Servers and backends\<close>

text \<open>
  The estimate of the response time is the value that the floating point sum of the average
  response time and of its product with the number of running operations has, as a multiple of
  the smallest positive floating point number, so that it is an integer.
\<close>

record target =
  t_name :: string
  t_status :: u64
  t_rank :: int
  t_replication_lag :: int
  t_n_current_conns :: int
  t_n_current_ops :: int
  t_response_estimate :: int
  t_gtid_pos :: "u32 \<Rightarrow> u64"

abbreviation (input) RLAG_UNDEFINED :: int where "RLAG_UNDEFINED \<equiv> -1"

datatype backend_state = CLOSED | IN_USE | FATAL_FAILURE

datatype response_type = EXPECT_RESPONSE | IGNORE_RESPONSE | NO_RESPONSE

datatype close_type = CLOSE_NORMAL | CLOSE_FATAL

record backend =
  b_target :: target
  b_state :: backend_state
  b_responses :: "response_type list"
  b_large_query :: bool
  b_last_write :: nat

definition in_use :: "backend \<Rightarrow> bool" where "in_use b \<longleftrightarrow> b_state b = IN_USE"
definition has_failed :: "backend \<Rightarrow> bool" where "has_failed b \<longleftrightarrow> b_state b = FATAL_FAILURE"
definition can_connect :: "backend \<Rightarrow> bool" where
  "can_connect b \<longleftrightarrow> \<not> has_failed b \<and> status_is_connectable (t_status (b_target b))"
definition is_master :: "backend \<Rightarrow> bool" where "is_master b \<longleftrightarrow> status_is_master (t_status (b_target b))"
definition is_slave :: "backend \<Rightarrow> bool" where "is_slave b \<longleftrightarrow> status_is_slave (t_status (b_target b))"
definition is_relay :: "backend \<Rightarrow> bool" where "is_relay b \<longleftrightarrow> status_is_relay (t_status (b_target b))"
definition is_waiting_result :: "backend \<Rightarrow> bool" where
  "is_waiting_result b \<longleftrightarrow> EXPECT_RESPONSE \<in> set (b_responses b)"
definition should_ignore_response :: "backend \<Rightarrow> bool" where
  "should_ignore_response b \<longleftrightarrow> b_responses b \<noteq> [] \<and> hd (b_responses b) = IGNORE_RESPONSE"
definition is_expected_response :: "backend \<Rightarrow> bool" where
  "is_expected_response b \<longleftrightarrow> b_responses b \<noteq> [] \<and> hd (b_responses b) = EXPECT_RESPONSE"
definition is_idle :: "backend \<Rightarrow> bool" where "is_idle b \<longleftrightarrow> b_responses b = []"

text \<open>
  Acknowledging a response of an idle backend would erase from an empty vector, which is left without
  effect on the list here. The two calls for a complete reply check for it first; \<open>handle_ignorable_error\<close>
  relies on the server having an outstanding response when it reports an error, and closes the backend.
\<close>

definition ack_write :: "backend \<Rightarrow> backend" where
  "ack_write b =
     b\<lparr>b_responses := tl (b_responses b),
       b_target := (b_target b)\<lparr>t_n_current_ops := t_n_current_ops (b_target b) - 1\<rparr>\<rparr>"

function ack_all :: "backend \<Rightarrow> backend" where
  "ack_all b = (if b_responses b = [] then b else ack_all (ack_write b))"
  by pat_completeness auto
termination by (relation "measure (\<lambda>b. length (b_responses b))") (auto simp: ack_write_def)

declare ack_all.simps [simp del]

definition backend_close :: "close_type \<Rightarrow> backend \<Rightarrow> backend" where
  "backend_close type b = (ack_all b)\<lparr>b_state := (if type = CLOSE_FATAL then FATAL_FAILURE else CLOSED)\<rparr>"

definition backend_connect :: "bool \<Rightarrow> backend \<Rightarrow> backend \<times> bool" where
  "backend_connect connected b =
     (if connected then (b\<lparr>b_state := IN_USE\<rparr>, True) else (b\<lparr>b_state := FATAL_FAILURE\<rparr>, False))"

definition backend_write :: "bool \<Rightarrow> response_type \<Rightarrow> backend \<Rightarrow> backend \<times> bool" where
  "backend_write written type b =
     (if written \<and> type \<noteq> NO_RESPONSE then
        (b\<lparr>b_responses := b_responses b @ [type],
           b_target := (b_target b)\<lparr>t_n_current_ops := t_n_current_ops (b_target b) + 1\<rparr>\<rparr>, True)
      else (b, written))"

text \<open>
  The packets of a request that does not fit into one follow each other; only the first can be
  answered.
\<close>

definition rwbackend_write :: "bool \<Rightarrow> nat \<Rightarrow> bytes \<Rightarrow> response_type \<Rightarrow> backend \<Rightarrow> backend \<times> bool" where
  "rwbackend_write written now buffer type b =
     (let large = (get_packet_length buffer = Some (0xffffff + 4));
          type = (if b_large_query b then NO_RESPONSE else type)
      in backend_write written type (b\<lparr>b_last_write := now, b_large_query := large\<rparr>))"

section \<open>Responses and operations\<close>

lemma backend_close_views [simp]:
  "b_responses (backend_close t b) = []" "in_use (backend_close t b) \<longleftrightarrow> False"
  "is_waiting_result (backend_close t b) \<longleftrightarrow> False" "is_idle (backend_close t b)"
proof -
  have "b_responses (ack_all b) = []" by (induction b rule: ack_all.induct) (subst ack_all.simps, simp)
  then show "b_responses (backend_close t b) = []" "in_use (backend_close t b) \<longleftrightarrow> False"
    "is_waiting_result (backend_close t b) \<longleftrightarrow> False" "is_idle (backend_close t b)"
    by (simp_all add: backend_close_def in_use_def is_waiting_result_def is_idle_def)
qed

end
