(* ===== verification/Rws_Gtid.thy ===== *)
theory Rws_Gtid
  imports Prelude
begin

text \<open>
  Global transaction identifiers as the read write split router keeps them, \<open>RWSplit::gtid\<close> of
  \<open>server/modules/routing/readwritesplit/readwritesplit.cc\<close>: parsing and printing, and the last
  identifiers of all replication domains that the router shares between its sessions.
\<close>

section \<open>Numbers and tokens\<close>

text \<open>\<open>strtoul\<close> of the C library with base ten and \<open>std::to_string\<close> of an unsigned number.\<close>

definition digit_value :: "char \<Rightarrow> nat" where
  "digit_value c = ccode c - 48"

definition digits_value :: "string \<Rightarrow> nat" where
  "digits_value s = foldl (\<lambda>n c. 10 * n + digit_value c) 0 s"

definition strtoul :: "string \<Rightarrow> u64" where
  "strtoul str =
     (let s = dropWhile isspace str;
          neg = (s \<noteq> [] \<and> hd s = CHR ''-'');
          s = (if s \<noteq> [] \<and> (hd s = CHR ''-'' \<or> hd s = CHR ''+'') then tl s else s);
          n = digits_value (takeWhile isdigit s)
      in if n \<ge> 2 ^ 64 then - 1 else if neg then - of_nat n else of_nat n)"

function decimal :: "nat \<Rightarrow> string" where
  "decimal n = (if n < 10 then [char_of (48 + n)] else decimal (n div 10) @ [char_of (48 + n mod 10)])"
  by pat_completeness auto
termination by (relation "measure id") auto

declare decimal.simps [simp del]

function strtok :: "(char \<Rightarrow> bool) \<Rightarrow> string \<Rightarrow> string list" where
  "strtok delim str =
     (case dropWhile delim str of
        [] \<Rightarrow> []
      | c # s \<Rightarrow> takeWhile (\<lambda>c. \<not> delim c) (c # s) # strtok delim (dropWhile (\<lambda>c. \<not> delim c) s))"
  by pat_completeness auto
termination
proof (relation "measure (\<lambda>(_, s). length s)")
  fix delim and str c and s :: string
  assume "dropWhile delim str = c # s"
  then have "length (c # s) \<le> length str" by (metis dropWhile_length_le)
  then show "((delim, dropWhile (\<lambda>c. \<not> delim c) s), (delim, str)) \<in> measure (\<lambda>(_, s). length s)"
    using dropWhile_length_le [of "\<lambda>c. \<not> delim c" s] by (simp del: dropWhile_length_le)
qed simp

declare strtok.simps [simp del]

section \<open>Identifiers\<close>

record gtid =
  gtid_domain :: u32
  gtid_server_id :: u32
  gtid_sequence :: u64

definition no_gtid :: gtid where
  "no_gtid = \<lparr>gtid_domain = 0, gtid_server_id = 0, gtid_sequence = 0\<rparr>"

text \<open>A text with fewer than three parts is read past the end of the vector of its parts.\<close>

definition gtid_parse :: "string \<Rightarrow> gtid option" where
  "gtid_parse sv =
     (case strtok (\<lambda>c. c = CHR ''-'') sv of
        d # i # q # _ \<Rightarrow>
          Some \<lparr>gtid_domain = ucast (strtoul d), gtid_server_id = ucast (strtoul i), gtid_sequence = strtoul q\<rparr>
      | _ \<Rightarrow> None)"

definition gtid_to_string :: "gtid \<Rightarrow> string" where
  "gtid_to_string g =
     decimal (unat (gtid_domain g)) @ ''-'' @ decimal (unat (gtid_server_id g)) @ ''-'' @
     decimal (unat (gtid_sequence g))"

definition gtid_empty :: "gtid \<Rightarrow> bool" where
  "gtid_empty g \<longleftrightarrow> gtid_domain g = 0 \<and> gtid_server_id g = 0 \<and> gtid_sequence g = 0"

text \<open>The map from domains to identifiers, in the order of the domains.\<close>

fun domain_update :: "u32 \<Rightarrow> gtid \<Rightarrow> (u32 \<times> gtid) list \<Rightarrow> (u32 \<times> gtid) list" where
  "domain_update d g [] = [(d, g)]"
| "domain_update d g ((k, v) # m) =
     (if d < k then (d, g) # (k, v) # m else if d = k then (k, g) # m else (k, v) # domain_update d g m)"

definition set_last_gtid :: "string \<Rightarrow> (u32 \<times> gtid) list \<Rightarrow> (u32 \<times> gtid) list option" where
  "set_last_gtid str m =
     map_option (\<lambda>g.
       (let old = (case map_of m (gtid_domain g) of Some old \<Rightarrow> old | None \<Rightarrow> no_gtid)
        in domain_update (gtid_domain g) (if gtid_sequence old < gtid_sequence g then g else old) m))
       (gtid_parse str)"

fun join_gtids :: "gtid list \<Rightarrow> string" where
  "join_gtids [] = []"
| "join_gtids [g] = gtid_to_string g"
| "join_gtids (g # gs) = gtid_to_string g @ '','' @ join_gtids gs"

definition last_gtid :: "(u32 \<times> gtid) list \<Rightarrow> string" where
  "last_gtid m = join_gtids (map snd m)"

section \<open>Printing and parsing\<close>

lemma digit_char: "n < 10 \<Longrightarrow> isdigit (char_of (48 + n)) \<and> digit_value (char_of (48 + n)) = n"
  by (simp add: isdigit_def digit_value_def)

lemma decimal_digits: "list_all isdigit (decimal n) \<and> decimal n \<noteq> []"
proof (induction n rule: decimal.induct)
  case (1 n)
  show ?case
    using 1 digit_char [of n] digit_char [of "n mod 10"] by (subst (1 2) decimal.simps) auto
qed

lemma digits_value_decimal: "digits_value (decimal n) = n"
proof (induction n rule: decimal.induct)
  case (1 n)
  show ?case
    using 1 digit_char [of n] digit_char [of "n mod 10"]
    by (subst decimal.simps) (auto simp: digits_value_def)
qed

lemma isdigit_not: "isdigit c \<Longrightarrow> \<not> isspace c \<and> c \<noteq> CHR ''-'' \<and> c \<noteq> CHR ''+''"
  by (auto simp: isdigit_def isspace_def)

lemma strtoul_decimal: "n < 2 ^ 64 \<Longrightarrow> strtoul (decimal n) = of_nat n"
proof -
  assume n: "n < 2 ^ 64"
  obtain c s where d: "decimal n = c # s" "isdigit c" "list_all isdigit s"
    using decimal_digits [of n] by (cases "decimal n") auto
  have t: "takeWhile isdigit s = s" using d(3) by (simp add: list_all_iff)
  show ?thesis
    using n d(1,2) isdigit_not [OF d(2)] digits_value_decimal [of n] by (simp add: strtoul_def Let_def t)
qed

lemma strtok_part:
  assumes "p \<noteq> []" "\<forall>c\<in>set p. \<not> delim c" "s \<noteq> [] \<Longrightarrow> delim (hd s)"
  shows "strtok delim (p @ s) = p # strtok delim s"
proof -
  obtain c q where p: "p = c # q" using assms(1) by (cases p) auto
  have t: "takeWhile (\<lambda>c. \<not> delim c) s = []" "dropWhile (\<lambda>c. \<not> delim c) s = s"
    using assms(3) by (cases s; simp)+
  have "strtok delim s = strtok delim (dropWhile delim s)" by (subst (1 2) strtok.simps) simp
  with p t show ?thesis
    using assms(2) by (subst strtok.simps) (simp add: takeWhile_append dropWhile_append)
qed

lemma strtok_delim: "delim c \<Longrightarrow> strtok delim (c # s) = strtok delim s"
  by (subst (1 2) strtok.simps) simp

text \<open>
  Printing a global transaction identifier and parsing the text gives the identifier back.
\<close>

theorem gtid_round_trip: "gtid_parse (gtid_to_string g) = Some g"
proof -
  let ?d = "\<lambda>c. c = CHR ''-''"
  have n: "\<forall>c\<in>set (decimal n). \<not> ?d c" "decimal n \<noteq> []" for n
    using decimal_digits [of n] isdigit_not by (auto simp: list_all_iff)
  have e: "strtok ?d [] = []" by (subst strtok.simps) simp
  have s: "strtok ?d (gtid_to_string g) =
      [decimal (unat (gtid_domain g)), decimal (unat (gtid_server_id g)), decimal (unat (gtid_sequence g))]"
    unfolding gtid_to_string_def using n strtok_part [OF n(2,1), of "[]"] e
    by (simp add: strtok_part strtok_delim)
  have u: "unat (x :: u32) < 2 ^ 64" for x using unsigned_less [of x, where 'a = nat] by simp
  have v: "unat (x :: u64) < 2 ^ 64" for x using unsigned_less [of x, where 'a = nat] by simp
  have "ucast (strtoul (decimal (unat x))) = x" for x :: u32
    by (subst strtoul_decimal [OF u]) (auto intro: bit_word_eqI simp: bit_simps)
  moreover have "strtoul (decimal (unat x)) = x" for x :: u64 by (subst strtoul_decimal [OF v]) simp
  ultimately show ?thesis by (simp add: gtid_parse_def s)
qed

end
