(* ===== verification/Rws_Session.thy ===== *)
theory Rws_Session
  imports Query_Classifier Backend Rws_Gtid
begin

text \<open>
  The state of a session of the read write split router, \<open>RWSplitSession\<close> of
  \<open>server/modules/routing/readwritesplit/rwsplitsession.hh\<close>, with the configuration it reads and
  the transaction log of \<open>trx.hh\<close>.

  Backends are referred to by their position in \<open>m_raw_backends\<close>. What the session does to the
  outside world is recorded in a trace, and what it gets back is a function of the trace: an
  environment decides whether a server accepts a connection or a packet and whether the client
  accepts a reply, knowing everything that has happened before.
\<close>

section \<open>Configuration\<close>

datatype select_criteria =
    LEAST_GLOBAL_CONNECTIONS | LEAST_ROUTER_CONNECTIONS | LEAST_BEHIND_MASTER
  | LEAST_CURRENT_OPERATIONS | ADAPTIVE_ROUTING

datatype failure_mode = RW_FAIL_INSTANTLY | RW_FAIL_ON_WRITE | RW_ERROR_ON_WRITE

datatype causal_reads_mode =
    CR_NONE | CR_LOCAL | CR_GLOBAL | CR_FAST | CR_FAST_GLOBAL | CR_UNIVERSAL | CR_FAST_UNIVERSAL

datatype trx_checksum_type = CK_FULL | CK_RESULT_ONLY | CK_NO_INSERT_ID

text \<open>Durations are in seconds.\<close>

record rws_config =
  slave_selection_criteria :: select_criteria
  use_sql_variables_in :: mxs_target
  master_failure_mode :: failure_mode
  max_replication_lag :: int
  master_accept_reads :: bool
  strict_multi_stmt :: bool
  strict_sp_calls :: bool
  strict_tmp_tables :: bool
  retry_failed_reads :: bool
  max_slave_connections :: int
  slave_connections :: int
  master_reconnection :: bool
  optimistic_trx :: bool
  lazy_connect :: bool
  causal_reads :: causal_reads_mode
  causal_reads_timeout :: nat
  delayed_retry :: bool
  delayed_retry_timeout :: int
  transaction_replay :: bool
  trx_max_size :: int
  trx_timeout :: int
  trx_max_attempts :: int
  trx_retry_on_deadlock :: bool
  trx_retry_on_mismatch :: bool
  trx_retry_safe_commit :: bool
  trx_checksum :: trx_checksum_type
  reuse_ps :: bool

definition default_config :: rws_config where
  "default_config =
     \<lparr>slave_selection_criteria = LEAST_CURRENT_OPERATIONS, use_sql_variables_in = TYPE_ALL,
      master_failure_mode = RW_FAIL_INSTANTLY, max_replication_lag = 0, master_accept_reads = False,
      strict_multi_stmt = False, strict_sp_calls = False, strict_tmp_tables = False, retry_failed_reads = True,
      max_slave_connections = 255, slave_connections = 255, master_reconnection = False, optimistic_trx = False,
      lazy_connect = False, causal_reads = CR_NONE, causal_reads_timeout = 10, delayed_retry = False,
      delayed_retry_timeout = 10, transaction_replay = False, trx_max_size = 1024 * 1024, trx_timeout = 0,
      trx_max_attempts = 5, trx_retry_on_deadlock = False, trx_retry_on_mismatch = False,
      trx_retry_safe_commit = True, trx_checksum = CK_FULL, reuse_ps = False\<rparr>"

definition post_configure :: "bool \<Rightarrow> rws_config \<Rightarrow> rws_config \<times> bool" where
  "post_configure disable_sescmd_history v =
     (let v = (if causal_reads v \<noteq> CR_NONE then v\<lparr>retry_failed_reads := True\<rparr> else v);
          v = (if optimistic_trx v then v\<lparr>transaction_replay := True\<rparr> else v);
          v = (if transaction_replay v \<or> lazy_connect v then
                 (let v = (if transaction_replay v then
                             (let v = v\<lparr>delayed_retry := True\<rparr>
                              in if delayed_retry_timeout v < trx_timeout v
                                 then v\<lparr>delayed_retry_timeout := trx_timeout v\<rparr> else v)
                           else v)
                  in v\<lparr>master_reconnection := True, master_failure_mode := RW_FAIL_ON_WRITE\<rparr>)
               else v)
      in (v, \<not> (master_reconnection v \<and> disable_sescmd_history)))"

section \<open>Statements and transactions\<close>

text \<open>
  A checksum has consumed some bytes; its value is set by \<open>finalize\<close>, to what the hash function
  of the environment gives for them.
\<close>

record checksum =
  ck_data :: bytes
  ck_sum :: bytes

definition new_checksum :: checksum where
  "new_checksum = \<lparr>ck_data = [], ck_sum = replicate 16 0\<rparr>"

definition ck_update :: "bytes \<Rightarrow> checksum \<Rightarrow> checksum" where
  "ck_update d c = c\<lparr>ck_data := ck_data c @ d\<rparr>"

definition ck_finalize :: "(bytes \<Rightarrow> bytes) \<Rightarrow> checksum \<Rightarrow> checksum" where
  "ck_finalize digest c = c\<lparr>ck_sum := digest (ck_data c)\<rparr>"

definition ck_reset :: "checksum \<Rightarrow> checksum" where
  "ck_reset c = new_checksum"

record stmt =
  st_buffer :: gwbuf
  st_checksum :: checksum
  st_bytes :: nat

definition no_stmt :: stmt where
  "no_stmt = \<lparr>st_buffer = no_buffer, st_checksum = new_checksum, st_bytes = 0\<rparr>"

definition stmt_clear :: "stmt \<Rightarrow> stmt" where
  "stmt_clear st = \<lparr>st_buffer = no_buffer, st_checksum = ck_reset (st_checksum st), st_bytes = 0\<rparr>"

definition stmt_set :: "stmt \<Rightarrow> bool" where
  "stmt_set st \<longleftrightarrow> \<not> buf_empty (st_buffer st)"

record trx =
  m_checksums :: "bytes list"
  m_log :: "gwbuf list"
  m_size :: nat
  trx_target :: "nat option"

definition new_trx :: trx where
  "new_trx = \<lparr>m_checksums = [], m_log = [], m_size = 0, trx_target = None\<rparr>"

definition add_stmt :: "(gwbuf \<Rightarrow> nat) \<Rightarrow> gwbuf \<Rightarrow> trx \<Rightarrow> trx" where
  "add_stmt runtime_size buf t = t\<lparr>m_size := m_size t + runtime_size buf, m_log := m_log t @ [buf]\<rparr>"

definition add_result :: "bytes \<Rightarrow> trx \<Rightarrow> trx" where
  "add_result ck t = t\<lparr>m_checksums := m_checksums t @ [ck]\<rparr>"

definition pop_stmt :: "trx \<Rightarrow> gwbuf \<times> trx" where
  "pop_stmt t = (hd (m_log t), t\<lparr>m_log := tl (m_log t)\<rparr>)"

definition have_stmts :: "trx \<Rightarrow> bool" where
  "have_stmts t \<longleftrightarrow> m_log t \<noteq> []"

definition trx_empty :: "trx \<Rightarrow> bool" where
  "trx_empty t \<longleftrightarrow> m_size t = 0"

definition trx_close :: "trx \<Rightarrow> trx" where
  "trx_close t = new_trx"

section \<open>The session\<close>

datatype rws_state =
  ROUTING | TRX_REPLAY | TRX_REPLAY_INTERRUPTED | OTRX_STARTING | OTRX_ACTIVE | OTRX_ROLLBACK

datatype wait_gtid_state =
  WG_NONE | WAITING_FOR_HEADER | RETRYING_ON_MASTER | UPDATING_PACKETS | READING_GTID | GTID_READ_DONE

datatype plan_type = PLAN_NORMAL | OTRX_START | OTRX_END

record routing_plan =
  rp_route_target :: u32
  rp_target :: "nat option"
  rp_type :: plan_type

datatype io =
    Io_connect nat
  | Io_close nat
  | Io_write nat gwbuf response_type
  | Io_response bytes
  | Io_reply bytes
  | Io_delay gwbuf int
  | Io_kill

record rws =
  m_state :: rws_state
  m_raw_backends :: "backend list"
  m_current_master :: "nat option"
  m_prev_plan :: routing_plan
  m_config :: rws_config
  m_expected_responses :: int
  m_locked_to_master :: bool
  m_check_stale :: bool
  m_query_queue :: "gwbuf list"
  m_sescmd_replier :: "nat option"
  m_exec_map :: "(u32 \<times> nat) list"
  m_gtid_pos :: gtid
  m_wait_gtid :: wait_gtid_state
  m_next_seq :: u32
  m_qc :: query_classifier
  m_retry_duration :: int
  m_current_query :: stmt
  m_trx :: trx
  m_can_replay_trx :: bool
  m_replayed_trx :: trx
  m_interrupted_query :: stmt
  m_orig_trx :: trx
  m_orig_stmt :: stmt
  m_num_trx_replays :: int
  m_set_trx :: gwbuf
  m_trx_replay_timer :: nat
  m_pending_retries :: int
  m_ps_cache :: "bytes \<rightharpoonup> bytes"
  m_last_gtid :: "(u32 \<times> gtid) list"
  m_can_recover :: bool
  m_now :: nat
  m_io :: "io list"

record env =
  env_grammar :: sql_grammar
  env_db :: string
  env_connects :: "io list \<Rightarrow> nat \<Rightarrow> bool"
  env_accepts :: "io list \<Rightarrow> nat \<Rightarrow> gwbuf \<Rightarrow> bool"
  env_client_accepts :: "io list \<Rightarrow> bytes \<Rightarrow> bool"
  env_parent_error :: "io list \<Rightarrow> bool"
  env_digest :: "bytes \<Rightarrow> bytes"
  env_runtime_size :: "gwbuf \<Rightarrow> nat"
  env_version :: nat

definition new_rws :: "rws_config \<Rightarrow> bool \<Rightarrow> backend list \<Rightarrow> rws" where
  "new_rws config multi_statements backends =
     \<lparr>m_state = ROUTING, m_raw_backends = backends, m_current_master = None,
      m_prev_plan = \<lparr>rp_route_target = TARGET_UNDEFINED, rp_target = None, rp_type = PLAN_NORMAL\<rparr>,
      m_config = config, m_expected_responses = 0, m_locked_to_master = False, m_check_stale = False,
      m_query_queue = [], m_sescmd_replier = None, m_exec_map = [], m_gtid_pos = no_gtid,
      m_wait_gtid = WG_NONE, m_next_seq = 0,
      m_qc = new_query_classifier (use_sql_variables_in config) multi_statements,
      m_retry_duration = 0, m_current_query = no_stmt, m_trx = new_trx, m_can_replay_trx = True,
      m_replayed_trx = new_trx, m_interrupted_query = no_stmt, m_orig_trx = new_trx,
      m_orig_stmt = no_stmt, m_num_trx_replays = 0, m_set_trx = no_buffer, m_trx_replay_timer = 0,
      m_pending_retries = 0, m_ps_cache = Map.empty, m_last_gtid = [], m_can_recover = True,
      m_now = 0, m_io = []\<rparr>"

section \<open>Reading the state\<close>

abbreviation route_info :: "rws \<Rightarrow> route_info" where
  "route_info s \<equiv> m_route_info (m_qc s)"

abbreviation backend_at :: "rws \<Rightarrow> nat \<Rightarrow> backend" where
  "backend_at s i \<equiv> m_raw_backends s ! i"

abbreviation backend_ids :: "rws \<Rightarrow> nat list" where
  "backend_ids s \<equiv> [0..<length (m_raw_backends s)]"

definition trx_is_starting :: "rws \<Rightarrow> bool" where
  "trx_is_starting s \<longleftrightarrow> is_trx_starting (m_trx_tracker (route_info s))"
definition trx_is_read_only :: "rws \<Rightarrow> bool" where
  "trx_is_read_only s \<longleftrightarrow> is_trx_read_only (m_trx_tracker (route_info s))"
definition trx_is_open :: "rws \<Rightarrow> bool" where
  "trx_is_open s \<longleftrightarrow> is_trx_active (m_trx_tracker (route_info s))"
definition trx_is_ending :: "rws \<Rightarrow> bool" where
  "trx_is_ending s \<longleftrightarrow> is_trx_ending (m_trx_tracker (route_info s))"

definition in_optimistic_trx :: "rws \<Rightarrow> bool" where
  "in_optimistic_trx s \<longleftrightarrow> m_state s \<in> {OTRX_STARTING, OTRX_ACTIVE, OTRX_ROLLBACK}"
definition replaying_trx :: "rws \<Rightarrow> bool" where
  "replaying_trx s \<longleftrightarrow> m_state s \<in> {TRX_REPLAY, TRX_REPLAY_INTERRUPTED}"

definition can_retry_query :: "rws \<Rightarrow> bool" where
  "can_retry_query s \<longleftrightarrow>
     delayed_retry (m_config s) \<and> m_retry_duration s < delayed_retry_timeout (m_config s) \<and> \<not> trx_is_open s"
definition can_continue_trx_replay :: "rws \<Rightarrow> bool" where
  "can_continue_trx_replay s \<longleftrightarrow>
     replaying_trx s \<and> m_retry_duration s < delayed_retry_timeout (m_config s)"
definition can_recover_servers :: "rws \<Rightarrow> bool" where
  "can_recover_servers s \<longleftrightarrow> m_can_recover s"
definition can_recover_master :: "rws \<Rightarrow> bool" where
  "can_recover_master s \<longleftrightarrow> master_reconnection (m_config s) \<and> can_recover_servers s"
definition have_open_connections :: "rws \<Rightarrow> bool" where
  "have_open_connections s \<longleftrightarrow> list_ex in_use (m_raw_backends s)"
definition is_last_backend :: "nat \<Rightarrow> rws \<Rightarrow> bool" where
  "is_last_backend i s \<longleftrightarrow> \<not> list_ex (\<lambda>j. in_use (backend_at s j) \<and> j \<noteq> i) (backend_ids s)"
definition master_in_use :: "rws \<Rightarrow> bool" where
  "master_in_use s \<longleftrightarrow> (case m_current_master s of Some i \<Rightarrow> in_use (backend_at s i) | None \<Rightarrow> False)"
definition need_master_for_sescmd :: "rws \<Rightarrow> bool" where
  "need_master_for_sescmd s \<longleftrightarrow>
     trx_is_open s \<and> \<not> trx_is_read_only s \<and> \<not> in_optimistic_trx s \<and> \<not> master_in_use s"

section \<open>The classifier's handler\<close>

definition rws_lock_to_master :: "rws \<Rightarrow> rws \<times> bool" where
  "rws_lock_to_master s =
     (let s = (if strict_multi_stmt (m_config s) \<or> strict_sp_calls (m_config s)
               then s\<lparr>m_locked_to_master := True\<rparr> else s)
      in (s, master_in_use s))"

definition rws_is_locked_to_master :: "rws \<Rightarrow> bool" where
  "rws_is_locked_to_master s \<longleftrightarrow> m_locked_to_master s \<or> \<not> buf_empty (m_set_trx s)"

definition rws_supports_hint :: "rws \<Rightarrow> trx_tracker \<Rightarrow> hint_type \<Rightarrow> bool" where
  "rws_supports_hint s tracker t =
     (case t of
        ROUTE_TO_UPTODATE_SERVER \<Rightarrow> False
      | ROUTE_TO_ALL \<Rightarrow> False
      | HINT_NONE \<Rightarrow> False
      | _ \<Rightarrow> \<not> (is_trx_active tracker \<and>
               (transaction_replay (m_config s) \<or> causal_reads (m_config s) \<noteq> CR_NONE)))"

definition rws_handler :: "rws handler" where
  "rws_handler =
     \<lparr>lock_to_master = rws_lock_to_master, is_locked_to_master = rws_is_locked_to_master,
      supports_hint = rws_supports_hint\<rparr>"

definition classify :: "env \<Rightarrow> gwbuf \<Rightarrow> rws \<Rightarrow> rws option" where
  "classify E buffer s =
     map_option (\<lambda>(s, qc). s\<lparr>m_qc := qc\<rparr>)
       (update_route_info rws_handler (env_grammar E) (env_db E) buffer (s, m_qc s))"

section \<open>Talking to the backends\<close>

definition emit :: "io \<Rightarrow> rws \<Rightarrow> rws" where
  "emit e s = s\<lparr>m_io := m_io s @ [e]\<rparr>"

definition upd_backend :: "nat \<Rightarrow> (backend \<Rightarrow> backend) \<Rightarrow> rws \<Rightarrow> rws" where
  "upd_backend i f s = s\<lparr>m_raw_backends := (m_raw_backends s)[i := f (backend_at s i)]\<rparr>"

definition session_connect :: "env \<Rightarrow> nat \<Rightarrow> rws \<Rightarrow> rws \<times> bool" where
  "session_connect E i s =
     (let (b, ok) = backend_connect (env_connects E (m_io s) i) (backend_at s i)
      in (emit (Io_connect i) (upd_backend i (\<lambda>_. b) s), ok))"

definition session_close :: "close_type \<Rightarrow> nat \<Rightarrow> rws \<Rightarrow> rws" where
  "session_close type i s = emit (Io_close i) (upd_backend i (backend_close type) s)"

definition session_write :: "env \<Rightarrow> nat \<Rightarrow> gwbuf \<Rightarrow> response_type \<Rightarrow> rws \<Rightarrow> rws \<times> bool" where
  "session_write E i buffer type s =
     (let (b, ok) =
            rwbackend_write (env_accepts E (m_io s) i buffer) (m_now s) (gw_data buffer) type (backend_at s i)
      in (emit (Io_write i buffer type) (upd_backend i (\<lambda>_. b) s), ok))"

definition prepare_connection :: "env \<Rightarrow> nat \<Rightarrow> rws \<Rightarrow> rws \<times> bool" where
  "prepare_connection E i s =
     (let (s, ok) = session_connect E i s
      in if ok \<and> \<not> buf_empty (m_set_trx s) \<and> m_current_master s = Some i
         then (fst (session_write E i (m_set_trx s) IGNORE_RESPONSE s), ok)
         else (s, ok))"

definition prepare_target :: "env \<Rightarrow> nat \<Rightarrow> rws \<Rightarrow> rws \<times> bool" where
  "prepare_target E i s = (if in_use (backend_at s i) then (s, True) else prepare_connection E i s)"

definition retry_query :: "gwbuf \<Rightarrow> int \<Rightarrow> rws \<Rightarrow> rws" where
  "retry_query buffer delay s =
     (emit (Io_delay buffer delay) s)
       \<lparr>m_retry_duration := m_retry_duration s + 1, m_pending_retries := m_pending_retries s + 1\<rparr>"

definition set_response :: "bytes \<Rightarrow> rws \<Rightarrow> rws" where
  "set_response response s = emit (Io_response response) s"

definition discard_connection :: "nat option \<Rightarrow> rws \<Rightarrow> rws" where
  "discard_connection target s =
     (case target of
        Some i \<Rightarrow>
          if in_use (backend_at s i) then
            (let s = session_close CLOSE_NORMAL i s
             in if m_current_master s = Some i then s\<lparr>m_qc := master_replaced (m_qc s)\<rparr> else s)
          else s
      | None \<Rightarrow> s)"

definition replace_master :: "nat \<Rightarrow> rws \<Rightarrow> rws" where
  "replace_master target s = (discard_connection (m_current_master s) s)\<lparr>m_current_master := Some target\<rparr>"

end
