(* ===== verification/Rws_Select.thy ===== *)
theory Rws_Select
  imports Rws_Session
begin

text \<open>
  The choice of a server, \<open>rwsplit_select_backends.cc\<close> of the read write split router: the
  candidates for a read, their priority, the selection functions, the choice of the primary
  and the connections a new session opens. Servers are compared by a score, and one of several
  with the same score is taken by the time of its last use.
\<close>

section \<open>Suitable servers\<close>

definition valid_for_slave :: "rws \<Rightarrow> nat \<Rightarrow> nat option \<Rightarrow> bool" where
  "valid_for_slave s i master \<longleftrightarrow>
     (is_slave (backend_at s i) \<or> is_relay (backend_at s i)) \<and> (master = None \<or> Some i \<noteq> master)"

definition rpl_lag_is_ok :: "backend \<Rightarrow> int \<Rightarrow> bool" where
  "rpl_lag_is_ok b max_rlag \<longleftrightarrow>
     (if max_rlag \<noteq> RLAG_UNDEFINED then
        (let rlag = t_replication_lag (b_target b) in rlag \<noteq> RLAG_UNDEFINED \<and> rlag < max_rlag)
      else True)"

definition gtid_pos_is_ok :: "backend \<Rightarrow> gtid \<Rightarrow> bool" where
  "gtid_pos_is_ok b g \<longleftrightarrow>
     gtid_sequence g = 0 \<or> t_gtid_pos (b_target b) (gtid_domain g) \<ge> gtid_sequence g"

section \<open>Selection functions\<close>

fun best_from :: "(nat \<Rightarrow> int) \<Rightarrow> (nat \<Rightarrow> nat) \<Rightarrow> nat \<Rightarrow> int \<Rightarrow> nat list \<Rightarrow> nat" where
  "best_from score last_write best min_score [] = best"
| "best_from score last_write best min_score (b # bs) =
     (if min_score > score b then best_from score last_write b (score b) bs
      else if min_score = score b \<and> last_write b < last_write best then best_from score last_write b min_score bs
      else best_from score last_write best min_score bs)"

definition best_score :: "(backend \<Rightarrow> int) \<Rightarrow> rws \<Rightarrow> nat list \<Rightarrow> nat option" where
  "best_score server_score s candidates =
     (case candidates of
        [] \<Rightarrow> None
      | [b] \<Rightarrow> Some b
      | b # bs \<Rightarrow>
          Some (best_from (\<lambda>i. server_score (backend_at s i)) (\<lambda>i. b_last_write (backend_at s i))
             b (server_score (backend_at s b)) bs))"

definition backend_cmp_global_conn :: "rws \<Rightarrow> nat list \<Rightarrow> nat option" where
  "backend_cmp_global_conn = best_score (\<lambda>b. t_n_current_conns (b_target b))"

definition backend_cmp_behind_master :: "rws \<Rightarrow> nat list \<Rightarrow> nat option" where
  "backend_cmp_behind_master = best_score (\<lambda>b. t_replication_lag (b_target b))"

definition backend_cmp_current_load :: "rws \<Rightarrow> nat list \<Rightarrow> nat option" where
  "backend_cmp_current_load = best_score (\<lambda>b. t_n_current_ops (b_target b))"

text \<open>\<open>std::min_element\<close> gives the first of the smallest elements.\<close>

fun min_element :: "(nat \<Rightarrow> int) \<Rightarrow> nat \<Rightarrow> nat list \<Rightarrow> nat" where
  "min_element f best [] = best"
| "min_element f best (b # bs) = min_element f (if f b < f best then b else best) bs"

definition backend_cmp_response_time :: "rws \<Rightarrow> nat list \<Rightarrow> nat option" where
  "backend_cmp_response_time s candidates =
     (case candidates of
        [] \<Rightarrow> None
      | b # bs \<Rightarrow> Some (min_element (\<lambda>i. t_response_estimate (b_target (backend_at s i))) b bs))"

definition get_backend_select_function :: "select_criteria \<Rightarrow> rws \<Rightarrow> nat list \<Rightarrow> nat option" where
  "get_backend_select_function sc =
     (case sc of
        LEAST_GLOBAL_CONNECTIONS \<Rightarrow> backend_cmp_global_conn
      | LEAST_ROUTER_CONNECTIONS \<Rightarrow> backend_cmp_global_conn
      | LEAST_BEHIND_MASTER \<Rightarrow> backend_cmp_behind_master
      | LEAST_CURRENT_OPERATIONS \<Rightarrow> backend_cmp_current_load
      | ADAPTIVE_ROUTING \<Rightarrow> backend_cmp_response_time)"

definition get_backend_priority :: "backend \<Rightarrow> u64 \<Rightarrow> bool \<Rightarrow> nat" where
  "get_backend_priority b status masters_accepts_reads =
     (let is_busy = should_ignore_response b;
          acts_slave = any_bit status (SERVER_SLAVE OR (if masters_accepts_reads then SERVER_MASTER else 0))
      in if acts_slave then (if \<not> is_busy then 0 else 1) else 2)"

section \<open>Choosing a server for a read\<close>

definition get_slave_counts :: "rws \<Rightarrow> nat option \<Rightarrow> int" where
  "get_slave_counts s master =
     int (length (filter (\<lambda>i. in_use (backend_at s i) \<and> valid_for_slave s i master) (backend_ids s)))"

definition is_gtid_synced :: "rws \<Rightarrow> nat \<Rightarrow> bool" where
  "is_gtid_synced s i =
     (if causal_reads (m_config s) = CR_FAST \<or> causal_reads (m_config s) = CR_FAST_UNIVERSAL then
        gtid_pos_is_ok (backend_at s i) (m_gtid_pos s)
      else if causal_reads (m_config s) = CR_FAST_GLOBAL then
        list_all (\<lambda>(domain, gtid). gtid_pos_is_ok (backend_at s i) gtid) (m_last_gtid s)
      else True)"

definition rank_less :: "backend \<Rightarrow> backend \<Rightarrow> bool" where
  "rank_less a b =
     (if in_use a \<noteq> in_use b then in_use a
      else if can_connect a \<noteq> can_connect b then can_connect a
      else t_rank (b_target a) < t_rank (b_target b))"

fun first_least :: "('a \<Rightarrow> 'a \<Rightarrow> bool) \<Rightarrow> 'a \<Rightarrow> 'a list \<Rightarrow> 'a" where
  "first_least lt best [] = best"
| "first_least lt best (b # bs) = first_least lt (if lt b best then b else best) bs"

definition get_current_rank :: "rws \<Rightarrow> int" where
  "get_current_rank s =
     (if master_in_use s then t_rank (b_target (backend_at s (the (m_current_master s))))
      else
        (case m_raw_backends s of
           [] \<Rightarrow> 1
         | b # bs \<Rightarrow> t_rank (b_target (first_least rank_less b bs))))"

definition need_slaves :: "rws \<Rightarrow> bool" where
  "need_slaves s \<longleftrightarrow> get_slave_counts s (m_current_master s) < max_slave_connections (m_config s)"

text \<open>The condition for a backend to become a candidate, and the flag that its check sets.\<close>

definition slave_candidate :: "rws \<Rightarrow> int \<Rightarrow> nat \<Rightarrow> bool" where
  "slave_candidate s max_rlag i =
     (let b = backend_at s i;
          my_master = (m_current_master s = Some i);
          already_used = in_use b;
          can_take_into_use = (\<not> already_used \<and> can_recover_servers s \<and> can_connect b);
          status = t_status (b_target b);
          master_or_slave = any_bit status (SERVER_MASTER OR SERVER_SLAVE);
          in_maint = any_bit status SERVER_MAINT;
          is_usable = (already_used \<or> (can_take_into_use \<and> (need_slaves s \<or> my_master)));
          rlag_ok = rpl_lag_is_ok b max_rlag;
          gtid_is_ok = (my_master \<or> is_gtid_synced s i);
          same_rank = (t_rank (b_target b) = get_current_rank s)
      in master_or_slave \<and> \<not> in_maint \<and> is_usable \<and> rlag_ok \<and> same_rank \<and> gtid_is_ok)"

definition is_stale :: "rws \<Rightarrow> nat \<Rightarrow> bool" where
  "is_stale s i =
     (let b = backend_at s i
      in in_use b \<and> (any_bit (t_status (b_target b)) SERVER_MAINT \<or> t_rank (b_target b) \<noteq> get_current_rank s))"

definition slave_priority :: "rws \<Rightarrow> nat \<Rightarrow> nat" where
  "slave_priority s i =
     get_backend_priority (backend_at s i) (t_status (b_target (backend_at s i))) (master_accept_reads (m_config s))"

fun slave_loop :: "rws \<Rightarrow> int \<Rightarrow> nat list \<Rightarrow> nat list \<Rightarrow> nat option \<Rightarrow> nat list" where
  "slave_loop s max_rlag [] candidates best_priority = candidates"
| "slave_loop s max_rlag (i # is) candidates best_priority =
     (if slave_candidate s max_rlag i then
        (let priority = slave_priority s i;
             (candidates, best_priority) =
               (if best_priority = None \<or> priority < the best_priority then ([], Some priority)
                else (candidates, best_priority));
             candidates = (if Some priority = best_priority then candidates @ [i] else candidates)
         in slave_loop s max_rlag is candidates best_priority)
      else slave_loop s max_rlag is candidates best_priority)"

text \<open>Every backend overwrites the flag, so that the last one decides.\<close>

definition get_slave_backend :: "int \<Rightarrow> rws \<Rightarrow> nat option \<times> rws" where
  "get_slave_backend max_rlag s =
     (let candidates = slave_loop s max_rlag (backend_ids s) [] None;
          stale = (if m_raw_backends s = [] then m_check_stale s
                   else is_stale s (length (m_raw_backends s) - 1))
      in (get_backend_select_function (slave_selection_criteria (m_config s)) s candidates,
          s\<lparr>m_check_stale := stale\<rparr>))"

section \<open>Choosing the primary\<close>

fun master_loop :: "rws \<Rightarrow> nat list \<Rightarrow> nat list \<Rightarrow> int \<Rightarrow> nat list" where
  "master_loop s [] candidates best_rank = candidates"
| "master_loop s (i # is) candidates best_rank =
     (if can_connect (backend_at s i) \<and> is_master (backend_at s i) then
        (let rank = t_rank (b_target (backend_at s i));
             (candidates, best_rank) = (if rank < best_rank then ([], rank) else (candidates, best_rank));
             candidates = (if rank = best_rank then candidates @ [i] else candidates)
         in master_loop s is candidates best_rank)
      else master_loop s is candidates best_rank)"

definition get_root_master :: "rws \<Rightarrow> nat option" where
  "get_root_master s =
     (if master_in_use s \<and> is_master (backend_at s (the (m_current_master s))) then m_current_master s
      else backend_cmp_global_conn s (master_loop s (backend_ids s) [] (2 ^ 63 - 1)))"

definition is_valid_for_master :: "rws \<Rightarrow> nat \<Rightarrow> bool" where
  "is_valid_for_master s i =
     (let b = backend_at s i in
      if in_use b \<or> (master_reconnection (m_config s) \<and> can_connect b \<and> can_recover_servers s) then
        is_master b \<or> (in_use b \<and> status_is_in_maint (t_status (b_target b)) \<and> trx_is_open s)
      else False)"

definition get_master_backend :: "rws \<Rightarrow> nat option" where
  "get_master_backend s =
     (case get_root_master s of
        Some master \<Rightarrow> if is_valid_for_master s master then Some master else None
      | None \<Rightarrow> None)"

text \<open>The lag is kept in an \<open>int\<close>.\<close>

definition as_int :: "int \<Rightarrow> int" where
  "as_int v = signed_take_bit 31 v"

definition get_max_replication_lag :: "rws \<Rightarrow> int" where
  "get_max_replication_lag s =
     (if max_replication_lag (m_config s) > 0 then as_int (max_replication_lag (m_config s)) else RLAG_UNDEFINED)"

section \<open>Opening the connections of a session\<close>

lemma best_from_mem: "best_from f g b m bs \<in> set (b # bs)"
  by (induction f g b m bs rule: best_from.induct) auto

lemma best_score_Cons:
  "best_score f s (b # bs) =
     Some (best_from (\<lambda>i. f (backend_at s i)) (\<lambda>i. b_last_write (backend_at s i)) b (f (backend_at s b)) bs)"
  by (cases bs) (simp_all add: best_score_def)

lemma best_score_mem: "best_score f s cs = Some b \<Longrightarrow> b \<in> set cs"
  by (cases cs) (auto simp: best_score_Cons simp del: best_from.simps set_simps intro: best_from_mem,
      simp add: best_score_def)

function open_slaves :: "env \<Rightarrow> nat list \<Rightarrow> int \<Rightarrow> int \<Rightarrow> rws \<Rightarrow> rws" where
  "open_slaves E candidates n_slaves max_nslaves s =
     (if n_slaves < max_nslaves then
        (case backend_cmp_global_conn s candidates of
           Some candidate \<Rightarrow>
             (let (s, ok) = prepare_connection E candidate s
              in open_slaves E (remove1 candidate candidates) (if ok then n_slaves + 1 else n_slaves) max_nslaves s)
         | None \<Rightarrow> s)
      else s)"
  by pat_completeness auto
termination
  by (relation "measure (\<lambda>(_, candidates, _). length candidates)")
    (auto simp: backend_cmp_global_conn_def length_remove1 dest!: best_score_mem dest: length_pos_if_in_set)

declare open_slaves.simps [simp del]

definition open_connections :: "env \<Rightarrow> rws \<Rightarrow> rws \<times> bool" where
  "open_connections E s =
     (if lazy_connect (m_config s) then (s, True)
      else
        (let master = get_root_master s;
             usable = (case master of Some i \<Rightarrow> can_connect (backend_at s i) | None \<Rightarrow> False) in
         if \<not> usable \<and> master_failure_mode (m_config s) = RW_FAIL_INSTANTLY then (s, False)
         else
           (let s = (case master of
                       Some i \<Rightarrow>
                         if can_recover_servers s \<and> \<not> in_use (backend_at s i) \<and> can_connect (backend_at s i) then
                           (let (s, ok) = prepare_connection E i s
                            in if ok then s\<lparr>m_current_master := Some i\<rparr> else s)
                         else s
                     | None \<Rightarrow> s);
                n_slaves = get_slave_counts s master;
                max_nslaves = min (max_slave_connections (m_config s)) (slave_connections (m_config s));
                current_rank = get_current_rank s;
                candidates = filter (\<lambda>i.
                  \<not> in_use (backend_at s i) \<and> can_connect (backend_at s i) \<and> valid_for_slave s i master \<and>
                  t_rank (b_target (backend_at s i)) = current_rank \<and>
                  rpl_lag_is_ok (backend_at s i) (get_max_replication_lag s)) (backend_ids s)
            in (open_slaves E candidates n_slaves max_nslaves s, True))))"

section \<open>Selection functions choose a best candidate\<close>

text \<open>
  The contract of a selection function: it chooses one of the candidates, if there are any, and
  no other candidate has a better score.
\<close>

locale selection =
  fixes select :: "rws \<Rightarrow> nat list \<Rightarrow> nat option"
    and score :: "rws \<Rightarrow> nat \<Rightarrow> int"
  assumes select_Nil: "select s [] = None"
    and select_best: "cs \<noteq> [] \<Longrightarrow> \<exists>c\<in>set cs. select s cs = Some c \<and> (\<forall>d\<in>set cs. score s c \<le> score s d)"
begin

lemma select_None_iff: "select s cs = None \<longleftrightarrow> cs = []"
  using select_best [of cs s] by (cases cs) (auto simp: select_Nil)

lemma select_SomeD: "select s cs = Some c \<Longrightarrow> c \<in> set cs \<and> (\<forall>d\<in>set cs. score s c \<le> score s d)"
  using select_best [of cs s] by (cases cs) (auto simp: select_Nil)

end

lemma best_from_least:
  "m = f b \<Longrightarrow> \<forall>d\<in>set (b # bs). f (best_from f g b m bs) \<le> f d"
proof (induction f g b m bs rule: best_from.induct)
  case (2 f g best m b bs)
  then show ?case by (auto dest: bspec)
qed simp

lemma best_score_selection:
  assumes "cs \<noteq> []"
  shows "\<exists>c\<in>set cs. best_score f s cs = Some c \<and> (\<forall>d\<in>set cs. f (backend_at s c) \<le> f (backend_at s d))"
proof -
  obtain b bs where cs: "cs = b # bs" using assms by (cases cs) auto
  show ?thesis
    unfolding cs best_score_Cons
    using best_from_mem best_from_least [of _ "\<lambda>i. f (backend_at s i)"] by blast
qed

lemma best_score_is_selection: "selection (best_score f) (\<lambda>s i. f (backend_at s i))"
  by unfold_locales (simp add: best_score_def, rule best_score_selection)

lemma min_element_least:
  "min_element f b bs \<in> set (b # bs) \<and> (\<forall>d\<in>set (b # bs). f (min_element f b bs) \<le> f d)"
  by (induction f b bs rule: min_element.induct) (auto split: if_splits)

interpretation global_conn: selection backend_cmp_global_conn "\<lambda>s i. t_n_current_conns (b_target (backend_at s i))"
  unfolding backend_cmp_global_conn_def by (rule best_score_is_selection)

interpretation behind_master: selection backend_cmp_behind_master "\<lambda>s i. t_replication_lag (b_target (backend_at s i))"
  unfolding backend_cmp_behind_master_def by (rule best_score_is_selection)

interpretation current_load: selection backend_cmp_current_load "\<lambda>s i. t_n_current_ops (b_target (backend_at s i))"
  unfolding backend_cmp_current_load_def by (rule best_score_is_selection)

interpretation response_time: selection backend_cmp_response_time "\<lambda>s i. t_response_estimate (b_target (backend_at s i))"
proof unfold_locales
  fix cs :: "nat list" and s
  assume "cs \<noteq> []"
  then obtain b bs where "cs = b # bs" by (cases cs) auto
  then show "\<exists>c\<in>set cs. backend_cmp_response_time s cs = Some c \<and>
      (\<forall>d\<in>set cs. t_response_estimate (b_target (backend_at s c)) \<le> t_response_estimate (b_target (backend_at s d)))"
    using min_element_least [of "\<lambda>i. t_response_estimate (b_target (backend_at s i))" b bs]
    by (auto simp: backend_cmp_response_time_def)
qed (simp add: backend_cmp_response_time_def)

definition select_score :: "select_criteria \<Rightarrow> target \<Rightarrow> int" where
  "select_score sc t =
     (case sc of
        LEAST_BEHIND_MASTER \<Rightarrow> t_replication_lag t
      | LEAST_CURRENT_OPERATIONS \<Rightarrow> t_n_current_ops t
      | ADAPTIVE_ROUTING \<Rightarrow> t_response_estimate t
      | _ \<Rightarrow> t_n_current_conns t)"

interpretation configured: selection "get_backend_select_function sc" "\<lambda>s i. select_score sc (b_target (backend_at s i))"
  by unfold_locales
    (cases sc; simp add: get_backend_select_function_def select_score_def global_conn.select_Nil behind_master.select_Nil
      current_load.select_Nil response_time.select_Nil global_conn.select_best behind_master.select_best
      current_load.select_best response_time.select_best)+

section \<open>The candidates\<close>

text \<open>Both loops keep the elements with the smallest value of a function.\<close>

fun keep_least :: "(nat \<Rightarrow> 'k::linorder) \<Rightarrow> nat list \<Rightarrow> nat list \<Rightarrow> 'k option \<Rightarrow> nat list" where
  "keep_least f [] cs best = cs"
| "keep_least f (i # is) cs best =
     (let (cs, best) = (if best = None \<or> f i < the best then ([], Some (f i)) else (cs, best))
      in keep_least f is (if Some (f i) = best then cs @ [i] else cs) best)"

definition least_of :: "(nat \<Rightarrow> 'k::linorder) \<Rightarrow> nat list \<Rightarrow> nat list" where
  "least_of f xs = filter (\<lambda>i. \<forall>j\<in>set xs. f i \<le> f j) xs"

lemma keep_least_append:
  assumes "best = None \<and> xs = [] \<or> (\<exists>m\<in>set xs. best = Some (f m) \<and> (\<forall>j\<in>set xs. f m \<le> f j))"
  shows "keep_least f ys (least_of f xs) best = least_of f (xs @ ys)"
  using assms
proof (induction ys arbitrary: xs best)
  case (Cons i ys)
  consider (first) "best = None" "xs = []"
    | (less) m where "m \<in> set xs" "best = Some (f m)" "\<forall>j\<in>set xs. f m \<le> f j" "f i < f m"
    | (eq) m where "m \<in> set xs" "best = Some (f m)" "\<forall>j\<in>set xs. f m \<le> f j" "f i = f m"
    | (greater) m where "m \<in> set xs" "best = Some (f m)" "\<forall>j\<in>set xs. f m \<le> f j" "f m < f i"
    using Cons.prems by (metis linorder_cases)
  then show ?case
  proof cases
    case first
    then show ?thesis using Cons.IH [of "Some (f i)" "[i]"] by (simp add: least_of_def)
  next
    case less
    then have l: "least_of f (xs @ [i]) = [i]"
      by (auto simp: least_of_def filter_empty_conv intro: order_trans dest: less_le_trans)
    have "\<exists>m\<in>set (xs @ [i]). Some (f i) = Some (f m) \<and> (\<forall>j\<in>set (xs @ [i]). f m \<le> f j)"
      using less by (intro bexI [of _ i]) (auto intro: order_trans less_imp_le)
    from Cons.IH [OF disjI2 [OF this]] show ?thesis using less by (simp add: l)
  next
    case eq
    then have l: "least_of f (xs @ [i]) = least_of f xs @ [i]"
      by (auto simp: least_of_def intro!: filter_cong)
    have "\<exists>m\<in>set (xs @ [i]). best = Some (f m) \<and> (\<forall>j\<in>set (xs @ [i]). f m \<le> f j)"
      using eq by (intro bexI [of _ m]) auto
    from Cons.IH [OF disjI2 [OF this]] show ?thesis using eq by (simp add: l)
  next
    case greater
    then have l: "least_of f (xs @ [i]) = least_of f xs"
      by (auto simp: least_of_def intro!: filter_cong dest: bspec)
    have "\<exists>m\<in>set (xs @ [i]). best = Some (f m) \<and> (\<forall>j\<in>set (xs @ [i]). f m \<le> f j)"
      using greater by (intro bexI [of _ m]) auto
    from Cons.IH [OF disjI2 [OF this]] show ?thesis using greater by (auto simp: l)
  qed
qed (auto simp: least_of_def)

lemma keep_least: "keep_least f xs [] None = least_of f xs"
  using keep_least_append [of None "[]" f xs] by (simp add: least_of_def)

lemma slave_loop_keep_least:
  "slave_loop s r is cs best = keep_least (slave_priority s) (filter (slave_candidate s r) is) cs best"
  by (induction "is" arbitrary: cs best) (simp_all add: Let_def)

lemma master_loop_keep_least:
  "master_loop s is cs best =
     keep_least (\<lambda>i. t_rank (b_target (backend_at s i)))
       (filter (\<lambda>i. can_connect (backend_at s i) \<and> is_master (backend_at s i)) is) cs (Some best)"
  by (induction "is" arbitrary: cs best) (simp_all add: Let_def)

lemma keep_least_start: "\<forall>i\<in>set xs. f i \<le> m \<Longrightarrow> keep_least f xs [] (Some m) = keep_least f xs [] None"
  by (cases xs) (auto simp: Let_def)

lemma set_least_of: "i \<in> set (least_of f xs) \<longleftrightarrow> i \<in> set xs \<and> (\<forall>j\<in>set xs. f i \<le> f j)"
  by (auto simp: least_of_def)

lemma least_of_Nil: "least_of f xs = [] \<longleftrightarrow> xs = []"
proof (cases "xs = []")
  case False
  then obtain m where "m \<in> set xs" "\<forall>j\<in>set xs. f m \<le> f j"
    using ex_min_if_finite [of "f ` set xs"] by (auto simp: not_less)
  then have "m \<in> set (least_of f xs)" by (simp add: set_least_of)
  then show ?thesis using False by auto
qed (simp add: least_of_def)

lemma least_of_lex:
  assumes "i \<in> set (least_of f xs)" "\<forall>d\<in>set (least_of f xs). g i \<le> g d" "j \<in> set xs"
  shows "f i < f j \<or> f i = f j \<and> g i \<le> g j"
proof (cases "f j \<le> f i")
  case True
  then have "f i = f j" using assms(1,3) by (auto simp: set_least_of intro: antisym)
  moreover from this have "j \<in> set (least_of f xs)" using assms(1,3) by (auto simp: set_least_of)
  ultimately show ?thesis using assms(2) by auto
qed auto

lemma backend_ids_mem [simp]: "i \<in> set (backend_ids s) \<longleftrightarrow> i < length (m_raw_backends s)"
  by auto

section \<open>A session with a primary and two replicas\<close>

definition sample_backend :: "string \<Rightarrow> u64 \<Rightarrow> int \<Rightarrow> backend" where
  "sample_backend nm status ops =
     \<lparr>b_target = \<lparr>t_name = nm, t_status = status, t_rank = 1, t_replication_lag = 0, t_n_current_conns = 1,
        t_n_current_ops = ops, t_response_estimate = 0, t_gtid_pos = (\<lambda>_. 0)\<rparr>,
      b_state = CLOSED, b_responses = [], b_large_query = False, b_last_write = 0\<rparr>"

definition sample_session :: rws where
  "sample_session = new_rws default_config False
     [sample_backend ''primary'' (SERVER_RUNNING OR SERVER_MASTER) 0,
      sample_backend ''replica-1'' (SERVER_RUNNING OR SERVER_SLAVE) 4,
      sample_backend ''replica-2'' (SERVER_RUNNING OR SERVER_SLAVE) 2]"

text \<open>
  C19. The server for a read is chosen among all that are suitable: running as primary or replica
  and not in maintenance, connected or allowed to be connected, of the rank in use, recent
  enough in its replication and, for causal reads, in its position. None is found only if there
  is none. The chosen one has the best priority of them, and among those with that priority
  none has a better score for the configured criterion. The score is the one that the code computes:
  for \<open>least_router_connections\<close> it is the number of all connections to the server, as for
  \<open>least_global_connections\<close>, and with \<open>adaptive_routing\<close> the server with the least estimate is always
  taken, where the documentation speaks of the connections of the service and of a random choice.
\<close>

theorem get_slave_backend_best:
  "case fst (get_slave_backend max_rlag s) of
     None \<Rightarrow> list_all (\<lambda>i. \<not> slave_candidate s max_rlag i) (backend_ids s)
   | Some i \<Rightarrow>
       i < length (m_raw_backends s) \<and> slave_candidate s max_rlag i \<and>
       list_all (\<lambda>j. slave_candidate s max_rlag j \<longrightarrow>
         slave_priority s i < slave_priority s j \<or>
         slave_priority s i = slave_priority s j \<and>
         select_score (slave_selection_criteria (m_config s)) (b_target (backend_at s i))
           \<le> select_score (slave_selection_criteria (m_config s)) (b_target (backend_at s j))) (backend_ids s)"
proof -
  let ?cs = "filter (slave_candidate s max_rlag) (backend_ids s)" and ?sc = "slave_selection_criteria (m_config s)"
  have g: "fst (get_slave_backend max_rlag s) = get_backend_select_function ?sc s (least_of (slave_priority s) ?cs)"
    by (simp add: get_slave_backend_def slave_loop_keep_least keep_least Let_def)
  show ?thesis
  proof (cases "fst (get_slave_backend max_rlag s)")
    case None
    then show ?thesis
      using configured.select_None_iff [of ?sc s "least_of (slave_priority s) ?cs"] g
      by (auto simp: least_of_Nil filter_empty_conv list_all_iff)
  next
    case (Some i)
    then have "i \<in> set (least_of (slave_priority s) ?cs)"
      "\<forall>d\<in>set (least_of (slave_priority s) ?cs). select_score ?sc (b_target (backend_at s i)) \<le> select_score ?sc (b_target (backend_at s d))"
      using configured.select_SomeD [of ?sc s "least_of (slave_priority s) ?cs" i] g by auto
    then show ?thesis
      using least_of_lex [of i "slave_priority s" ?cs "\<lambda>i. select_score ?sc (b_target (backend_at s i))"]
      unfolding Some by (simp add: set_least_of list_all_iff)
  qed
qed

theorem get_slave_backend_best_witness:
  "fst (get_slave_backend RLAG_UNDEFINED sample_session) = Some 2 \<and>
   slave_candidate sample_session RLAG_UNDEFINED 1 \<and>
   slave_priority sample_session 2 = slave_priority sample_session 1 \<and>
   t_n_current_ops (b_target (backend_at sample_session 2)) \<le> t_n_current_ops (b_target (backend_at sample_session 1))"
proof -
  have g: "fst (get_slave_backend RLAG_UNDEFINED sample_session) = Some 2" by code_simp
  have c: "slave_candidate sample_session RLAG_UNDEFINED 1" "length (m_raw_backends sample_session) = 3"
    "slave_priority sample_session 2 = slave_priority sample_session 1"
    "slave_selection_criteria (m_config sample_session) = LEAST_CURRENT_OPERATIONS" by code_simp+
  show ?thesis
    using get_slave_backend_best [where max_rlag = RLAG_UNDEFINED and s = sample_session] unfolding g c(2)
    by (simp add: c [simplified] g select_score_def numeral_3_eq_3)
qed

lemma get_root_master_best:
  assumes "list_all (\<lambda>b. t_rank (b_target b) \<le> 2 ^ 63 - 1) (m_raw_backends s)"
    and "\<not> (master_in_use s \<and> is_master (backend_at s (the (m_current_master s))))"
  shows "get_root_master s = backend_cmp_global_conn s
    (least_of (\<lambda>i. t_rank (b_target (backend_at s i)))
      (filter (\<lambda>i. can_connect (backend_at s i) \<and> is_master (backend_at s i)) (backend_ids s)))"
proof -
  have "\<forall>i\<in>set (filter (\<lambda>i. can_connect (backend_at s i) \<and> is_master (backend_at s i)) (backend_ids s)).
      t_rank (b_target (backend_at s i)) \<le> 2 ^ 63 - 1"
    using assms(1) by (auto simp: list_all_iff)
  from keep_least_start [OF this] show ?thesis
    using assms(2) by (auto simp: get_root_master_def master_loop_keep_least keep_least)
qed

text \<open>
  C20. The primary of a session is stable and otherwise the best there is. The primary in use is
  kept as long as it is one. If it is not, then the one chosen is a primary that can be connected
  to, no other such has a lower rank, and none is chosen only if there is none.
\<close>

theorem root_master_choice:
  assumes "list_all (\<lambda>b. t_rank (b_target b) \<le> 2 ^ 63 - 1) (m_raw_backends s)"
  shows "if master_in_use s \<and> is_master (backend_at s (the (m_current_master s)))
     then get_root_master s = m_current_master s
     else case get_root_master s of
       None \<Rightarrow> list_all (\<lambda>b. \<not> (can_connect b \<and> is_master b)) (m_raw_backends s)
     | Some i \<Rightarrow> i < length (m_raw_backends s) \<and> can_connect (backend_at s i) \<and> is_master (backend_at s i) \<and>
         list_all (\<lambda>b. can_connect b \<and> is_master b \<longrightarrow> t_rank (b_target (backend_at s i)) \<le> t_rank (b_target b))
           (m_raw_backends s)"
proof (cases "master_in_use s \<and> is_master (backend_at s (the (m_current_master s)))")
  case False
  let ?f = "\<lambda>i. t_rank (b_target (backend_at s i))"
  let ?cs = "filter (\<lambda>i. can_connect (backend_at s i) \<and> is_master (backend_at s i)) (backend_ids s)"
  note g = get_root_master_best [OF assms False]
  show ?thesis
  proof (cases "get_root_master s")
    case None
    then show ?thesis
      using False g global_conn.select_None_iff [of s "least_of ?f ?cs"]
      by (auto simp: least_of_Nil filter_empty_conv list_all_length)
  next
    case (Some i)
    then have "i \<in> set (least_of ?f ?cs)"
      using g global_conn.select_SomeD [of s "least_of ?f ?cs" i] by auto
    then show ?thesis
      using False unfolding Some by (auto simp: set_least_of list_all_length)
  qed
qed (auto simp: get_root_master_def)

theorem root_master_choice_witness:
  "get_root_master sample_session = Some 0 \<and> is_master (backend_at sample_session 0) \<and>
   list_all (\<lambda>b. can_connect b \<and> is_master b \<longrightarrow>
     t_rank (b_target (backend_at sample_session 0)) \<le> t_rank (b_target b)) (m_raw_backends sample_session)"
proof -
  have h: "list_all (\<lambda>b. t_rank (b_target b) \<le> 2 ^ 63 - 1) (m_raw_backends sample_session)"
    by (simp add: sample_session_def new_rws_def sample_backend_def)
  have g: "\<not> master_in_use sample_session" "get_root_master sample_session = Some 0" by code_simp+
  show ?thesis using root_master_choice [OF h] by (simp add: g)
qed

end
