(* ===== verification/Rws_Route.thy ===== *)
theory Rws_Route
  imports Rws_Select
begin

text \<open>
  Routing a statement, \<open>rwsplit_route_stmt.cc\<close>, \<open>rwsplit_session_cmd.cc\<close> and the routing half of
  \<open>rwsplitsession.cc\<close> and \<open>rwsplit_causal_reads.cc\<close> of the read write split router. A statement is
  classified, a plan is made for it, and it is written to one server, to all of them, or kept
  for later. A result of \<open>None\<close> is a read outside the bounds of a container or a packet.
  Statistics and log messages are left out.
\<close>

section \<open>The target of a statement\<close>

datatype backend_type = BE_UNDEFINED | BE_MASTER | BE_SLAVE

definition have_connected_slaves :: "rws \<Rightarrow> bool" where
  "have_connected_slaves s \<longleftrightarrow> list_ex (\<lambda>b. is_slave b \<and> in_use b) (m_raw_backends s)"

definition should_try_trx_on_slave :: "u32 \<Rightarrow> rws \<Rightarrow> bool" where
  "should_try_trx_on_slave route_target s \<longleftrightarrow>
     optimistic_trx (m_config s) \<and> \<not> rws_is_locked_to_master s \<and> m_state s = ROUTING \<and>
     target_is_master route_target \<and> have_connected_slaves s \<and> is_trx_still_read_only (route_info s)"

text \<open>A C string ends at its first zero character.\<close>

definition c_str :: "string \<Rightarrow> string" where
  "c_str str = takeWhile (\<lambda>c. c \<noteq> CHR 0x00) str"

definition get_hinted_backend :: "string \<Rightarrow> rws \<Rightarrow> nat option" where
  "get_hinted_backend name s =
     find (\<lambda>i. (in_use (backend_at s i) \<or> (can_recover_servers s \<and> can_connect (backend_at s i))) \<and>
               upcase (c_str name) = upcase (c_str (t_name (b_target (backend_at s i))))) (backend_ids s)"

definition get_last_used_backend :: "rws \<Rightarrow> nat option" where
  "get_last_used_backend s =
     (case rp_target (m_prev_plan s) of Some i \<Rightarrow> Some i | None \<Rightarrow> get_master_backend s)"

definition trx_target_still_valid :: "rws \<Rightarrow> bool" where
  "trx_target_still_valid s =
     (case trx_target (m_trx s) of
        Some i \<Rightarrow>
          in_use (backend_at s i) \<and>
          (is_master (backend_at s i) \<or> (trx_is_read_only s \<and> is_slave (backend_at s i)))
      | None \<Rightarrow> False)"

definition get_target_backend :: "backend_type \<Rightarrow> string option \<Rightarrow> int \<Rightarrow> rws \<Rightarrow> nat option \<times> rws" where
  "get_target_backend btype name max_rlag s =
     (if trx_is_open s \<and> trx_target (m_trx s) \<noteq> None \<and> m_wait_gtid s \<noteq> READING_GTID then
        (if trx_target_still_valid s then (trx_target (m_trx s), s) else (None, s))
      else
        (case name of
           Some name \<Rightarrow> (get_hinted_backend name s, s)
         | None \<Rightarrow>
             (case btype of
                BE_SLAVE \<Rightarrow> get_slave_backend max_rlag s
              | BE_MASTER \<Rightarrow> (get_master_backend s, s)
              | BE_UNDEFINED \<Rightarrow> (None, s))))"

text \<open>\<open>strtol\<close> skips white space, accepts a sign and stops at the limits of a \<open>long\<close>.\<close>

definition strtol :: "string \<Rightarrow> int" where
  "strtol str =
     (let s = dropWhile isspace (c_str str);
          neg = (s \<noteq> [] \<and> hd s = CHR ''-'');
          s = (if s \<noteq> [] \<and> (hd s = CHR ''-'' \<or> hd s = CHR ''+'') then tl s else s);
          n = int (digits_value (takeWhile isdigit s))
      in if neg then max (- n) (- (2 ^ 63)) else min n (2 ^ 63 - 1))"

text \<open>The value of a hint is passed on as an \<open>int\<close>.\<close>

definition hint_backend :: "int \<Rightarrow> hint \<Rightarrow> rws \<Rightarrow> nat option \<times> rws" where
  "hint_backend config_max_rlag hint s =
     (if hint_type hint = ROUTE_TO_NAMED_SERVER then
        get_target_backend BE_UNDEFINED (Some (hint_data hint)) config_max_rlag s
      else if hint_type hint = HINT_PARAMETER \<and>
        (upcase (hint_data hint) = upcase ''max_replication_lag'' \<or>
         upcase (hint_data hint) = upcase ''max_slave_replication_lag'') then
        (let hint_max_rlag = strtol (hint_value hint)
         in if hint_max_rlag > 0 then get_target_backend BE_SLAVE None (as_int hint_max_rlag) s else (None, s))
      else (None, s))"

fun hinted_target :: "int \<Rightarrow> hint list \<Rightarrow> rws \<Rightarrow> nat option \<times> rws" where
  "hinted_target config_max_rlag [] s = (None, s)"
| "hinted_target config_max_rlag (hint # hints) s =
     (let (target, s) = hint_backend config_max_rlag hint s
      in if target \<noteq> None then (target, s) else hinted_target config_max_rlag hints s)"

definition handle_hinted_target :: "gwbuf \<Rightarrow> u32 \<Rightarrow> rws \<Rightarrow> nat option \<times> rws" where
  "handle_hinted_target querybuf route_target s =
     (let config_max_rlag = get_max_replication_lag s;
          (target, s) = hinted_target config_max_rlag (gw_hints querybuf) s
      in if target = None then
           get_target_backend (if target_is_slave route_target then BE_SLAVE else BE_MASTER) None config_max_rlag s
         else (target, s))"

definition handle_slave_is_target :: "u32 \<Rightarrow> rws \<Rightarrow> nat option \<times> rws" where
  "handle_slave_is_target stmt_id s =
     (if is_ps_continuation (route_info s) then
        (case map_of (m_exec_map s) stmt_id of
           Some prev_target \<Rightarrow> if in_use (backend_at s prev_target) then (Some prev_target, s) else (None, s)
         | None \<Rightarrow> (None, s))
      else get_target_backend BE_SLAVE None (get_max_replication_lag s) s)"

definition handle_master_is_target :: "rws \<Rightarrow> nat option \<times> rws" where
  "handle_master_is_target s = get_target_backend BE_MASTER None RLAG_UNDEFINED s"

definition get_target :: "gwbuf \<Rightarrow> u32 \<Rightarrow> rws \<Rightarrow> nat option \<times> rws" where
  "get_target buffer route_target s =
     (if (target_is_named_server route_target \<or> target_is_rlag_max route_target) \<and>
         \<not> (transaction_replay (m_config s) \<and> trx_is_open s \<and> trx_target (m_trx s) \<noteq> None) then
        handle_hinted_target buffer route_target s
      else if target_is_last_used route_target then (get_last_used_backend s, s)
      else if target_is_slave route_target then handle_slave_is_target (m_stmt_id (route_info s)) s
      else if target_is_master route_target then handle_master_is_target s
      else (None, s))"

definition plan_route :: "rws \<Rightarrow> u32 \<times> plan_type" where
  "plan_route s =
     (let info = route_info s in
      if multi_part_packet info then (TARGET_LAST_USED, PLAN_NORMAL)
      else if trx_is_starting s \<and> \<not> trx_is_read_only s \<and> should_try_trx_on_slave (ucast (m_target info)) s then
        (TARGET_SLAVE, OTRX_START)
      else if m_state s = OTRX_STARTING \<or> m_state s = OTRX_ACTIVE then
        (TARGET_LAST_USED,
         if trx_is_ending s \<or> \<not> is_trx_still_read_only info then OTRX_END else PLAN_NORMAL)
      else (ucast (m_target info), PLAN_NORMAL))"

definition resolve_route :: "gwbuf \<Rightarrow> rws \<Rightarrow> routing_plan \<times> rws" where
  "resolve_route buffer s =
     (let (route_target, type) = plan_route s;
          (target, s) = (if route_target \<noteq> TARGET_ALL then get_target buffer route_target s else (None, s))
      in (\<lparr>rp_route_target = route_target, rp_target = target, rp_type = type\<rparr>, s))"

section \<open>Starting a transaction replay\<close>

text \<open>The clock counts seconds.\<close>

definition can_start_trx_replay :: "rws \<Rightarrow> bool" where
  "can_start_trx_replay s \<longleftrightarrow>
     m_can_replay_trx s \<and>
     (if trx_timeout (m_config s) > 0 then
        m_num_trx_replays s = 0 \<or> int (m_now s) - int (m_trx_replay_timer s) < trx_timeout (m_config s)
      else m_num_trx_replays s < trx_max_attempts (m_config s))"

definition start_trx_replay :: "env \<Rightarrow> rws \<Rightarrow> rws \<times> bool" where
  "start_trx_replay E s =
     (if transaction_replay (m_config s) \<and> can_start_trx_replay s then
        (let s = s\<lparr>m_num_trx_replays := m_num_trx_replays s + 1\<rparr>;
             s = (if m_state s \<noteq> TRX_REPLAY then
                    s\<lparr>m_orig_trx := m_trx s, m_orig_stmt := m_current_query s, m_trx_replay_timer := m_now s\<rparr>
                  else
                    s\<lparr>m_replayed_trx := trx_close (m_replayed_trx s), m_trx := m_orig_trx s,
                      m_current_query := m_orig_stmt s\<rparr>) in
         if have_stmts (m_trx s) \<or> stmt_set (m_current_query s) then
           (let query = m_current_query s;
                s = s\<lparr>m_interrupted_query :=
                         query\<lparr>st_checksum := ck_finalize (env_digest E) (st_checksum query)\<rparr>,
                      m_current_query := stmt_clear query, m_state := TRX_REPLAY,
                      m_replayed_trx := m_trx s, m_trx := trx_close (m_trx s)\<rparr> in
            if have_stmts (m_replayed_trx s) then
              (let (buf, rest) = pop_stmt (m_replayed_trx s)
               in (retry_query buf 1 (s\<lparr>m_replayed_trx := rest\<rparr>), True))
            else
              (let query = m_interrupted_query s;
                   s = retry_query (st_buffer query) 1 (s\<lparr>m_state := TRX_REPLAY_INTERRUPTED\<rparr>)
               in (s\<lparr>m_interrupted_query := query\<lparr>st_buffer := no_buffer\<rparr>\<rparr>, True)))
         else (s, True))
      else (s, False))"

definition should_migrate_trx :: "rws \<Rightarrow> bool" where
  "should_migrate_trx s \<longleftrightarrow>
     transaction_replay (m_config s) \<and> \<not> replaying_trx s \<and> trx_is_open s \<and> m_can_replay_trx s \<and>
     \<not> trx_target_still_valid s"

definition start_trx_migration :: "env \<Rightarrow> gwbuf \<Rightarrow> rws \<Rightarrow> rws \<times> bool" where
  "start_trx_migration E querybuf s =
     start_trx_replay E (s\<lparr>m_current_query := (m_current_query s)\<lparr>st_buffer := querybuf\<rparr>\<rparr>)"

section \<open>No target\<close>

text \<open>The statement that a probe for the position was made for is at the front of the queue.\<close>

definition reset_gtid_probe :: "rws \<Rightarrow> (gwbuf \<times> rws) option" where
  "reset_gtid_probe s =
     (case m_query_queue s of
        buffer # rest \<Rightarrow> Some (buffer, s\<lparr>m_query_queue := rest, m_wait_gtid := WG_NONE\<rparr>)
      | [] \<Rightarrow> None)"

definition read_only_error :: bytes where
  "read_only_error =
     create_error_packet 1 1290 (str_bytes ''HY000'')
       (str_bytes ''The MariaDB server is running with the --read-only option so it cannot execute this statement'')"

definition routing_failed :: "env \<Rightarrow> wait_gtid_state \<Rightarrow> gwbuf \<Rightarrow> rws \<Rightarrow> rws \<times> bool" where
  "routing_failed E old_wait_gtid buffer s =
     (if list_all has_failed (m_raw_backends s) then (s, False)
      else if should_migrate_trx s \<or> (trx_is_open s \<and> old_wait_gtid = READING_GTID) then
        start_trx_migration E buffer (discard_connection (trx_target (m_trx s)) s)
      else if can_retry_query s \<or> can_continue_trx_replay s then (retry_query buffer 1 s, True)
      else if master_failure_mode (m_config s) = RW_ERROR_ON_WRITE then
        (discard_connection (m_current_master s) (set_response read_only_error s), True)
      else (s, False))"

definition handle_routing_failure :: "env \<Rightarrow> gwbuf \<Rightarrow> rws \<Rightarrow> (rws \<times> bool) option" where
  "handle_routing_failure E buffer s =
     do {
       (buffer', s') \<leftarrow> (if m_wait_gtid s = READING_GTID then reset_gtid_probe s else Some (buffer, s));
       Some (routing_failed E (m_wait_gtid s) buffer' s')
     }"

section \<open>Statements that are answered without a server\<close>

definition extract_binary_ps_id :: "bytes \<Rightarrow> u32 option" where
  "extract_binary_ps_id data = get_byte4 (drop 5 data)"

definition will_respond :: "gwbuf \<Rightarrow> bool" where
  "will_respond buffer \<longleftrightarrow> mxs_mysql_command_will_respond (mxs_mysql_get_command (gw_data buffer))"

definition query_not_supported :: "gwbuf \<Rightarrow> rws \<Rightarrow> (rws \<times> bool) option" where
  "query_not_supported querybuf s =
     (let info = route_info s; route_target = ucast (m_target info) in
      if mxs_mysql_is_ps_command (m_command info) \<and> m_stmt_id info = 0 then
        (if will_respond querybuf then
           do {
             ps_id \<leftarrow> extract_binary_ps_id (gw_data querybuf);
             let msg = ''Unknown prepared statement handler ('' @ decimal (unat ps_id) @ '') for '' @
                       cmd_to_string (m_command info) @ '' given to MaxScale'';
             Some (set_response (create_error_packet 1 1243 (str_bytes ''HY000'') (str_bytes msg)) s, True)
           }
         else Some (s, True))
      else if target_is_all route_target \<and> (target_is_master route_target \<or> target_is_slave route_target) then
        Some (set_response
          (create_error_packet 1 1064 (str_bytes ''42000'')
             (str_bytes ''Routing query to backend failed. See the error log for further details.'')) s, True)
      else Some (s, False))"

definition reuse_prepared_stmt :: "gwbuf \<Rightarrow> rws \<Rightarrow> rws \<times> bool" where
  "reuse_prepared_stmt buffer s =
     (if m_command (route_info s) = MXS_COM_STMT_PREPARE then
        (case m_ps_cache s (get_sql (gw_data buffer)) of
           Some response \<Rightarrow> (set_response response s, True)
         | None \<Rightarrow> (s, False))
      else (s, m_command (route_info s) = MXS_COM_STMT_CLOSE))"

section \<open>Causal reads\<close>

definition should_do_causal_read :: "rws \<Rightarrow> bool" where
  "should_do_causal_read s =
     (case causal_reads (m_config s) of
        CR_LOCAL \<Rightarrow> \<not> gtid_empty (m_gtid_pos s)
      | CR_GLOBAL \<Rightarrow> True
      | CR_UNIVERSAL \<Rightarrow> m_wait_gtid s = GTID_READ_DONE \<and> \<not> gtid_empty (m_gtid_pos s)
      | _ \<Rightarrow> False)"

definition gtid_to_wait_for :: "rws \<Rightarrow> string" where
  "gtid_to_wait_for s =
     (if causal_reads (m_config s) = CR_GLOBAL then last_gtid (m_last_gtid s) else gtid_to_string (m_gtid_pos s))"

definition add_prefix_wait_gtid :: "env \<Rightarrow> gwbuf \<Rightarrow> rws \<Rightarrow> gwbuf \<times> rws" where
  "add_prefix_wait_gtid E origin s =
     (let version = env_version E;
          wait_func = (if version > 50700 \<and> version < 100000 then ''WAIT_FOR_EXECUTED_GTID_SET'' else ''MASTER_GTID_WAIT'');
          sql = str_bytes
            (''SET @maxscale_secret_variable=(SELECT CASE WHEN '' @ wait_func @ ''('' @ [CHR 0x27] @ gtid_to_wait_for s @
             [CHR 0x27] @ '', '' @ decimal (causal_reads_timeout (m_config s)) @ '') = 0 '' @
             ''THEN 1 ELSE (SELECT 1 FROM INFORMATION_SCHEMA.ENGINES) END);'')
      in if length (gw_data origin) + length sql < GW_MYSQL_MAX_PACKET_LEN + MYSQL_HEADER_LEN then
           (\<lparr>gw_data = create_query (sql @ get_sql (gw_data origin)), gw_hints = [], gw_id = 0\<rparr>,
            s\<lparr>m_current_query := (m_current_query s)\<lparr>st_buffer := origin\<rparr>, m_wait_gtid := WAITING_FOR_HEADER\<rparr>)
         else (origin, s))"

definition send_sync_query :: "env \<Rightarrow> nat \<Rightarrow> rws \<Rightarrow> rws" where
  "send_sync_query E target s =
     (let query = m_current_query s;
          s = s\<lparr>m_current_query := query\<lparr>st_buffer := add_hint ROUTE_TO_MASTER (st_buffer query)\<rparr>\<rparr>;
          sql = ''IF (MASTER_GTID_WAIT('' @ [CHR 0x27] @ gtid_to_wait_for s @ [CHR 0x27] @ '', '' @
                decimal (causal_reads_timeout (m_config s)) @ '') <> 0) THEN KILL (SELECT CONNECTION_ID());END IF''
      in fst (session_write E target (query_buffer sql) IGNORE_RESPONSE s))"

definition need_gtid_probe :: "routing_plan \<Rightarrow> rws \<Rightarrow> bool" where
  "need_gtid_probe plan s \<longleftrightarrow>
     (let cmd = m_command (route_info s); cr = causal_reads (m_config s)
      in (cr = CR_UNIVERSAL \<or> cr = CR_FAST_UNIVERSAL) \<and> rp_route_target plan = TARGET_SLAVE \<and>
         m_wait_gtid s = WG_NONE \<and> (cmd = MXS_COM_QUERY \<or> cmd = MXS_COM_STMT_EXECUTE) \<and>
         m_type_mask (route_info s) AND (TYPE_COMMIT OR TYPE_ROLLBACK) = 0)"

definition start_gtid_probe :: "env \<Rightarrow> rws \<Rightarrow> (gwbuf \<times> routing_plan \<times> rws) option" where
  "start_gtid_probe E s =
     (let s = s\<lparr>m_wait_gtid := READING_GTID\<rparr>;
          buffer = add_hint ROUTE_TO_MASTER (query_buffer ''SELECT @@gtid_current_pos'') in
      do {
        s \<leftarrow> classify E buffer s;
        let (plan, s) = resolve_route buffer s;
        let (target, s) = handle_master_is_target s;
        Some (buffer, plan\<lparr>rp_route_target := TARGET_MASTER, rp_target := target\<rparr>, s)
      })"

section \<open>Writing to one server\<close>

definition track_optimistic_trx :: "gwbuf \<Rightarrow> routing_plan \<Rightarrow> rws \<Rightarrow> gwbuf \<times> rws" where
  "track_optimistic_trx buffer res s =
     (case rp_type res of
        OTRX_START \<Rightarrow> (buffer, s\<lparr>m_state := OTRX_STARTING\<rparr>)
      | OTRX_END \<Rightarrow>
          if trx_is_ending s then (buffer, s\<lparr>m_state := ROUTING\<rparr>)
          else if \<not> is_trx_still_read_only (route_info s) then
            (query_buffer ''ROLLBACK'',
             s\<lparr>m_current_query := (m_current_query s)\<lparr>st_buffer := buffer\<rparr>, m_state := OTRX_ROLLBACK\<rparr>)
          else (buffer, s)
      | PLAN_NORMAL \<Rightarrow>
          if m_state s = OTRX_STARTING then (buffer, s\<lparr>m_state := OTRX_ACTIVE\<rparr>) else (buffer, s))"

fun set_exec :: "u32 \<Rightarrow> nat \<Rightarrow> (u32 \<times> nat) list \<Rightarrow> (u32 \<times> nat) list" where
  "set_exec stmt_id target [] = [(stmt_id, target)]"
| "set_exec stmt_id target ((i, t) # m) =
     (if i = stmt_id then (i, target) # m else (i, t) # set_exec stmt_id target m)"

fun erase_exec :: "u32 \<Rightarrow> (u32 \<times> nat) list \<Rightarrow> (u32 \<times> nat) list" where
  "erase_exec stmt_id [] = []"
| "erase_exec stmt_id ((i, t) # m) = (if i = stmt_id then m else (i, t) # erase_exec stmt_id m)"

text \<open>
  What happens to a statement before it is written: the statement to write, whether it is to be
  stored, and whether the read is a causal one.
\<close>

definition got_target_statement :: "env \<Rightarrow> gwbuf \<Rightarrow> nat \<Rightarrow> bool \<Rightarrow> rws \<Rightarrow> gwbuf \<times> bool \<times> bool \<times> rws" where
  "got_target_statement E buffer target store s =
     (let cmd = mxs_mysql_get_command (gw_data buffer) in
      if multi_part_packet (route_info s) \<or> load_data_active (route_info s) then (buffer, False, False, s)
      else if \<not> rws_is_locked_to_master s then
        (let causal = (is_slave (backend_at s target) \<and> should_do_causal_read s);
             (buffer, store, s) =
               (if cmd = MXS_COM_QUERY \<and> causal
                then (let (buffer, s) = add_prefix_wait_gtid E buffer s in (buffer, False, s))
                else (buffer, store, s));
             (store, s) =
               (if m_wait_gtid s = GTID_READ_DONE then (store, s\<lparr>m_wait_gtid := WG_NONE\<rparr>)
                else if m_wait_gtid s = READING_GTID then (False, s)
                else (store, s));
             s = (if cmd = MXS_COM_STMT_EXECUTE \<or> cmd = MXS_COM_STMT_SEND_LONG_DATA
                  then s\<lparr>m_exec_map := set_exec (m_stmt_id (route_info s)) target (m_exec_map s)\<rparr> else s)
         in (buffer, store, causal, s))
      else if cmd = MXS_COM_STMT_PREPARE then
        (buffer, store, False, s\<lparr>m_qc := ps_store (env_grammar E) (gw_data buffer) (gw_id buffer) (m_qc s)\<rparr>)
      else (buffer, store, False, s))"

definition store_statement :: "gwbuf \<Rightarrow> rws \<Rightarrow> rws" where
  "store_statement buffer s =
     (let s = s\<lparr>m_current_query := (m_current_query s)\<lparr>st_buffer := buffer\<rparr>\<rparr>
      in if transaction_replay (m_config s) \<and> trx_retry_safe_commit (m_config s) \<and>
            type_mask_contains (m_type_mask (route_info s)) TYPE_COMMIT
         then s\<lparr>m_can_replay_trx := False\<rparr> else s)"

definition track_trx_target :: "nat \<Rightarrow> rws \<Rightarrow> rws" where
  "track_trx_target target s =
     (if trx_is_open s then
        (if m_wait_gtid s = READING_GTID then s
         else if trx_target (m_trx s) = None then s\<lparr>m_trx := (m_trx s)\<lparr>trx_target := Some target\<rparr>\<rparr>
         else if trx_is_starting s then s\<lparr>m_trx := (trx_close (m_trx s))\<lparr>trx_target := Some target\<rparr>\<rparr>
         else s)
      else s)"

definition handle_got_target :: "env \<Rightarrow> gwbuf \<Rightarrow> nat \<Rightarrow> bool \<Rightarrow> rws \<Rightarrow> rws \<times> bool" where
  "handle_got_target E buffer target store s =
     (let cmd = mxs_mysql_get_command (gw_data buffer);
          responds = (mxs_mysql_command_will_respond cmd \<and>
                      \<not> (multi_part_packet (route_info s) \<or> load_data_active (route_info s)));
          (buffer, store, attempting_causal_read, s) = got_target_statement E buffer target store s;
          s = (if store then store_statement buffer s else s);
          s = (if responds then s\<lparr>m_expected_responses := m_expected_responses s + 1\<rparr> else s);
          response = (if responds then EXPECT_RESPONSE else NO_RESPONSE);
          s = (if type_mask_contains (m_type_mask (route_info s)) TYPE_NEXT_TRX then s\<lparr>m_set_trx := buffer\<rparr> else s);
          s = track_trx_target target s;
          s = (if attempting_causal_read \<and> cmd = MXS_COM_STMT_EXECUTE then send_sync_query E target s else s)
      in session_write E target buffer response s)"

definition should_replace_master :: "nat option \<Rightarrow> rws \<Rightarrow> bool" where
  "should_replace_master target s =
     (case target of
        Some i \<Rightarrow>
          master_reconnection (m_config s) \<and> Some i \<noteq> m_current_master s \<and>
          (\<not> trx_is_open s \<or> trx_is_starting s \<or> (replaying_trx s \<and> trx_target (m_trx s) = None)) \<and>
          \<not> rws_is_locked_to_master s \<and> is_master (backend_at s i)
      | None \<Rightarrow> False)"

definition single_target :: "routing_plan \<Rightarrow> rws \<Rightarrow> nat option \<times> rws" where
  "single_target res s =
     (let target = rp_target res in
      if rp_route_target res = TARGET_MASTER \<and> target \<noteq> m_current_master s then
        (if should_replace_master target s then (target, replace_master (the target) s) else (None, s))
      else (target, s))"

definition route_to_target :: "env \<Rightarrow> gwbuf \<Rightarrow> routing_plan \<Rightarrow> nat \<Rightarrow> rws \<Rightarrow> rws \<times> bool" where
  "route_to_target E buffer res i s =
     (let (buffer, s) = track_optimistic_trx buffer res s;
          (s, ok) = prepare_target E i (s\<lparr>m_retry_duration := 0\<rparr>) in
      if \<not> ok then (s, False)
      else
        (let store_stmt = (m_state s \<noteq> OTRX_ROLLBACK \<and>
               (delayed_retry (m_config s) \<or>
                (target_is_slave (rp_route_target res) \<and> retry_failed_reads (m_config s))));
             (s, written) = handle_got_target E buffer i store_stmt s
         in (if written then s\<lparr>m_prev_plan := res\<lparr>rp_target := Some i\<rparr>\<rparr> else s, True)))"

definition route_single_stmt :: "env \<Rightarrow> gwbuf \<Rightarrow> routing_plan \<Rightarrow> rws \<Rightarrow> (rws \<times> bool) option" where
  "route_single_stmt E buffer res s =
     (let (target, s) = single_target res s
      in case target of
           Some i \<Rightarrow> Some (route_to_target E buffer res i s)
         | None \<Rightarrow> handle_routing_failure E buffer s)"

section \<open>Writing to all servers\<close>

definition continue_large_session_write :: "env \<Rightarrow> gwbuf \<Rightarrow> rws \<Rightarrow> rws" where
  "continue_large_session_write E querybuf s =
     fold (\<lambda>i s. if in_use (backend_at s i) then fst (session_write E i querybuf NO_RESPONSE s) else s)
       (backend_ids s) s"

definition create_one_connection_for_sescmd :: "env \<Rightarrow> rws \<Rightarrow> rws \<times> bool" where
  "create_one_connection_for_sescmd E s =
     (let (s, ok) =
            (if master_reconnection (m_config s) \<and> (need_master_for_sescmd s \<or> master_accept_reads (m_config s)) then
               (case get_master_backend s of
                  Some i \<Rightarrow>
                    (let (s, ok) = prepare_target E i s
                     in if ok then (if m_current_master s \<noteq> Some i then replace_master i s else s, True)
                        else (s, False))
                | None \<Rightarrow> (s, False))
             else (s, False)) in
      if ok then (s, True)
      else
        (let (target, s) = get_slave_backend (get_max_replication_lag s) s
         in case target of
              Some i \<Rightarrow> prepare_target E i s
            | None \<Rightarrow> (s, False)))"

definition write_session_command :: "env \<Rightarrow> nat \<Rightarrow> gwbuf \<Rightarrow> rws \<Rightarrow> rws \<times> bool" where
  "write_session_command E i buffer s =
     (let type = (if will_respond buffer then
                    (if Some i = m_sescmd_replier s then EXPECT_RESPONSE else IGNORE_RESPONSE)
                  else NO_RESPONSE);
          (s, written) = session_write E i buffer type s
      in if written then (s, True)
         else (session_close CLOSE_NORMAL i s,
               \<not> (master_failure_mode (m_config s) = RW_FAIL_INSTANTLY \<and> Some i = m_current_master s)))"

definition choose_replier :: "rws \<Rightarrow> nat option" where
  "choose_replier s =
     (let replier = fold (\<lambda>i replier. if in_use (backend_at s i) \<and> (replier = None \<or> Some i = m_current_master s)
                                     then Some i else replier) (backend_ids s) None;
          replier = (case trx_target (m_trx s) of
                       Some i \<Rightarrow> if trx_is_open s \<and> in_use (backend_at s i) then Some i else replier
                     | None \<Rightarrow> replier)
      in if need_master_for_sescmd s then None else replier)"

fun write_session_commands :: "env \<Rightarrow> gwbuf \<Rightarrow> nat list \<Rightarrow> rws \<Rightarrow> bool \<Rightarrow> rws \<times> bool" where
  "write_session_commands E buffer [] s ok = (s, ok)"
| "write_session_commands E buffer (i # is) s ok =
     (if in_use (backend_at s i) then
        (let (s, written) = write_session_command E i buffer s
         in write_session_commands E buffer is s (ok \<and> written))
      else write_session_commands E buffer is s ok)"

definition track_prepared_stmts :: "env \<Rightarrow> gwbuf \<Rightarrow> rws \<Rightarrow> rws" where
  "track_prepared_stmts E buffer s =
     (let type = m_type_mask (route_info s) in
      if m_command (route_info s) = MXS_COM_STMT_CLOSE then
        (let s = s\<lparr>m_qc := ps_erase (env_grammar E) (gw_data buffer) (m_qc s)\<rparr>
         in s\<lparr>m_exec_map := erase_exec (m_stmt_id (route_info s)) (m_exec_map s)\<rparr>)
      else if type_mask_contains type TYPE_PREPARE_NAMED_STMT \<or> type_mask_contains type TYPE_PREPARE_STMT then
        s\<lparr>m_qc := ps_store (env_grammar E) (gw_data buffer) (gw_id buffer) (m_qc s)\<rparr>
      else if type_mask_contains type TYPE_DEALLOC_PREPARE then
        s\<lparr>m_qc := ps_erase (env_grammar E) (gw_data buffer) (m_qc s)\<rparr>
      else s)"

definition session_command_sent :: "env \<Rightarrow> gwbuf \<Rightarrow> rws \<Rightarrow> rws" where
  "session_command_sent E buffer s =
     (let s = track_prepared_stmts E buffer s;
          s = s\<lparr>m_current_query := (m_current_query s)\<lparr>st_buffer := buffer\<rparr>\<rparr>;
          s = (if will_respond buffer then s\<lparr>m_expected_responses := m_expected_responses s + 1\<rparr> else s)
      in if trx_is_open s \<and> trx_target (m_trx s) = None
         then s\<lparr>m_trx := (m_trx s)\<lparr>trx_target := m_sescmd_replier s\<rparr>\<rparr> else s)"

definition route_session_write :: "env \<Rightarrow> gwbuf \<Rightarrow> rws \<Rightarrow> rws \<times> bool" where
  "route_session_write E buffer s =
     (let no_connections = (\<not> have_open_connections s \<or> need_master_for_sescmd s) in
      if no_connections \<and> m_command (route_info s) = MXS_COM_QUIT then (s, True)
      else
        (let s = (if no_connections \<and> can_recover_servers s then fst (create_one_connection_for_sescmd E s) else s);
             s = s\<lparr>m_sescmd_replier := choose_replier s\<rparr>;
             (s, ok) =
               (if m_sescmd_replier s \<noteq> None then
                  (let (s, ok) = write_session_commands E buffer (backend_ids s) s True
                   in (if ok then session_command_sent E buffer s else s, ok))
                else (s, False))
         in if \<not> ok \<and> (can_retry_query s \<or> can_continue_trx_replay s) then (retry_query buffer 1 s, True)
            else (s, ok)))"

definition handle_target_is_all :: "env \<Rightarrow> gwbuf \<Rightarrow> routing_plan \<Rightarrow> rws \<Rightarrow> rws \<times> bool" where
  "handle_target_is_all E buffer res s =
     (if multi_part_packet (route_info s) then (continue_large_session_write E buffer s, True)
      else
        (let (s, ok) = route_session_write E buffer s
         in if ok then (s\<lparr>m_retry_duration := 0, m_prev_plan := res\<rparr>, True) else (s, False)))"

section \<open>Routing a statement\<close>

definition route_stmt :: "env \<Rightarrow> gwbuf \<Rightarrow> routing_plan \<Rightarrow> rws \<Rightarrow> (rws \<times> bool) option" where
  "route_stmt E buffer res s =
     (let route_target = ucast (m_target (route_info s));
          (s, reused) = (if reuse_ps (m_config s) then reuse_prepared_stmt buffer s else (s, False)) in
      if reused then Some (s, True)
      else
        do {
          (s, unsupported) \<leftarrow> query_not_supported buffer s;
          if unsupported then Some (s, True)
          else if target_is_all route_target then Some (handle_target_is_all E buffer res s)
          else route_single_stmt E buffer res s
        })"

definition can_route_query :: "routing_plan \<Rightarrow> bool \<Rightarrow> rws \<Rightarrow> bool" where
  "can_route_query res trx_was_ending s \<longleftrightarrow>
     m_expected_responses s = 0 \<or> load_data_active (route_info s) \<or> multi_part_packet (route_info s) \<or>
     (m_stmt_id (route_info s) \<noteq> MARIADB_PS_DIRECT_EXEC_ID \<and>
      rp_route_target res = TARGET_MASTER \<and> rp_route_target (m_prev_plan s) = TARGET_MASTER \<and>
      rp_type res = rp_type (m_prev_plan s) \<and> rp_target res = rp_target (m_prev_plan s) \<and>
      rp_target res = m_current_master s \<and>
      (\<not> transaction_replay (m_config s) \<or> \<not> trx_is_open s) \<and> m_wait_gtid s = WG_NONE \<and> \<not> trx_was_ending)"

definition route_query :: "env \<Rightarrow> gwbuf \<Rightarrow> rws \<Rightarrow> (rws \<times> bool) option" where
  "route_query E buffer s =
     (let trx_was_ending = trx_is_ending s in
      do {
        s \<leftarrow> classify E buffer s;
        let (res, s) = resolve_route buffer s;
        if can_route_query res trx_was_ending s then
          do {
            (buffer, res, s) \<leftarrow>
              (if need_gtid_probe res s then
                 start_gtid_probe E
                   (s\<lparr>m_qc := revert_update (m_qc s), m_query_queue := buffer # m_query_queue s\<rparr>)
               else Some (buffer, res, s));
            route_stmt E buffer res s
          }
        else
          Some (s\<lparr>m_qc := revert_update (m_qc s), m_query_queue := m_query_queue s @ [buffer]\<rparr>, True)
      })"

definition routeQuery :: "env \<Rightarrow> gwbuf \<Rightarrow> rws \<Rightarrow> (rws \<times> bool) option" where
  "routeQuery E buffer s =
     (if buf_empty buffer then Some (s, False)
      else if replaying_trx s \<or> m_pending_retries s > 0 \<or> m_query_queue s \<noteq> [] then
        Some (s\<lparr>m_query_queue := m_query_queue s @ [buffer]\<rparr>, True)
      else route_query E buffer s)"

text \<open>The call that a delayed statement makes when its time has come.\<close>

definition retry_callback :: "env \<Rightarrow> gwbuf \<Rightarrow> rws \<Rightarrow> (rws \<times> bool) option" where
  "retry_callback E buffer s = route_query E buffer (s\<lparr>m_pending_retries := m_pending_retries s - 1\<rparr>)"

text \<open>The statements of the queue are routed one after the other, while the queue itself is empty.\<close>

fun route_stored :: "env \<Rightarrow> gwbuf list \<Rightarrow> rws \<Rightarrow> bool \<Rightarrow> (rws \<times> bool) option" where
  "route_stored E [] s rval = Some (s\<lparr>m_query_queue := []\<rparr>, rval)"
| "route_stored E (query # temp_storage) s rval =
     do {
       (s, ok) \<leftarrow> routeQuery E query (s\<lparr>m_query_queue := []\<rparr>);
       if m_query_queue s = [] then route_stored E temp_storage s (rval \<and> ok)
       else Some (s\<lparr>m_query_queue := hd (m_query_queue s) # temp_storage\<rparr>, rval \<and> ok)
     }"

definition route_stored_query :: "env \<Rightarrow> rws \<Rightarrow> (rws \<times> bool) option" where
  "route_stored_query E s = route_stored E (m_query_queue s) s True"

end
