(* ===== verification/Rws_Reply.thy ===== *)
theory Rws_Reply
  imports Rws_Route
begin

text \<open>
  Replies and lost connections, the other half of \<open>rwsplitsession.cc\<close> and
  \<open>rwsplit_causal_reads.cc\<close> of the read write split router. The backend protocol parses what
  a server sends and describes it by a \<open>Reply\<close>; here it is a record that comes with the
  bytes. Log messages and the texts of errors are left out.
\<close>

section \<open>Replies\<close>

record error =
  er_code :: u16
  er_sql_state :: string
  er_message :: string

datatype reply_state = START | DONE | RSET_COLDEF | RSET_COLDEF_EOF | RSET_ROWS | PREPARE | LOAD_DATA

record reply =
  re_command :: u8
  re_state :: reply_state
  re_error :: error
  re_is_ok :: bool
  re_multiresult :: bool
  re_field_counts :: "u64 list"
  re_generated_id :: u32
  re_param_count :: u16
  re_server_status :: u32
  re_variables :: "(string \<times> string) list"
  re_row_data :: "string list list"

definition is_error :: "error \<Rightarrow> bool" where "is_error e \<longleftrightarrow> er_code e \<noteq> 0"

text \<open>The state of an error has five characters.\<close>

definition is_rollback :: "error \<Rightarrow> bool" where
  "is_rollback e \<longleftrightarrow> er_code e \<noteq> 0 \<and> take 2 (er_sql_state e) = ''40''"

text \<open>
  \<open>ER_CONNECTION_KILLED\<close>, \<open>ER_SERVER_SHUTDOWN\<close>, \<open>ER_NORMAL_SHUTDOWN\<close> and \<open>ER_SHUTDOWN_COMPLETE\<close> of
  the MariaDB server.
\<close>

definition is_unexpected_error :: "error \<Rightarrow> bool" where
  "is_unexpected_error e \<longleftrightarrow> er_code e \<in> {1927, 1053, 1077, 1079}"

definition is_wsrep_error :: "error \<Rightarrow> bool" where
  "is_wsrep_error e \<longleftrightarrow>
     er_code e = 1047 \<and> er_sql_state e = ''08S01'' \<and>
     er_message e = ''WSREP has not yet prepared node for application use''"

definition is_complete :: "reply \<Rightarrow> bool" where "is_complete r \<longleftrightarrow> re_state r = DONE"

definition has_started :: "reply \<Rightarrow> bool" where
  "has_started r \<longleftrightarrow>
     (re_state r \<noteq> START \<and> re_state r \<noteq> DONE) \<or> (re_multiresult r \<and> re_state r = START)"

definition is_resultset :: "reply \<Rightarrow> bool" where "is_resultset r \<longleftrightarrow> re_field_counts r \<noteq> []"

definition is_ok :: "reply \<Rightarrow> bool" where
  "is_ok r \<longleftrightarrow> re_is_ok r \<and> \<not> is_resultset r \<and> \<not> is_error (re_error r)"

definition get_variable :: "string \<Rightarrow> reply \<Rightarrow> string" where
  "get_variable name r = (case map_of (re_variables r) name of Some v \<Rightarrow> v | None \<Rightarrow> [])"

section \<open>Replaying a transaction\<close>

definition mxs_mysql_is_binlog_dump :: "u8 \<Rightarrow> bool" where
  "mxs_mysql_is_binlog_dump cmd \<longleftrightarrow> cmd = MXS_COM_BINLOG_DUMP \<or> cmd = MXS_COM_XPAND_REPL"

definition session_kill :: "rws \<Rightarrow> rws" where
  "session_kill s = emit Io_kill s"

definition include_in_checksum :: "reply \<Rightarrow> rws \<Rightarrow> bool" where
  "include_in_checksum r s =
     (case trx_checksum (m_config s) of
        CK_FULL \<Rightarrow> True
      | CK_RESULT_ONLY \<Rightarrow> \<not> is_ok r
      | CK_NO_INSERT_ID \<Rightarrow> \<not> is_ok r \<and> \<not> type_mask_contains (m_type_mask (route_info s)) TYPE_MASTER_READ)"

definition checksum_mismatch :: "env \<Rightarrow> rws \<Rightarrow> rws" where
  "checksum_mismatch E s =
     (let s = s\<lparr>m_state := TRX_REPLAY\<rparr>;
          (s, started) = (if trx_retry_on_mismatch (m_config s) then start_trx_replay E s else (s, False))
      in if started then s else session_kill s)"

definition trx_replay_next_stmt :: "env \<Rightarrow> rws \<Rightarrow> rws option" where
  "trx_replay_next_stmt E s =
     (let curr = m_checksums (m_trx s); old = m_checksums (m_replayed_trx s) in
      if have_stmts (m_replayed_trx s) then
        (if curr = [] \<or> length old < length curr then None
         else if old ! (length curr - 1) = last curr then
           (let (buf, rest) = pop_stmt (m_replayed_trx s)
            in Some (retry_query buf 0 (s\<lparr>m_replayed_trx := rest\<rparr>)))
         else Some (checksum_mismatch E s))
      else
        (let s = s\<lparr>m_state := ROUTING\<rparr> in
         if \<not> trx_empty (m_replayed_trx s) then
           (if curr = [] \<or> old = [] then None
            else if last curr = last old then
              (let s = s\<lparr>m_num_trx_replays := 0\<rparr> in
               if stmt_set (m_interrupted_query s) then
                 (let query = m_interrupted_query s;
                      s = retry_query (st_buffer query) 0 (s\<lparr>m_state := TRX_REPLAY_INTERRUPTED\<rparr>)
                  in Some (s\<lparr>m_interrupted_query := query\<lparr>st_buffer := no_buffer\<rparr>\<rparr>))
               else if m_query_queue s \<noteq> [] then map_option fst (route_stored_query E s)
               else Some s)
            else Some (checksum_mismatch E s))
         else Some (s\<lparr>m_num_trx_replays := 0\<rparr>)))"

definition manage_transactions :: "env \<Rightarrow> bytes \<Rightarrow> reply \<Rightarrow> rws \<Rightarrow> rws" where
  "manage_transactions E writebuf r s =
     (if m_state s = OTRX_ROLLBACK then
        (if \<not> mxs_mysql_is_ok_packet writebuf then session_kill s else s)
      else if transaction_replay (m_config s) \<and> m_can_replay_trx s \<and> trx_is_open s then
        (if m_wait_gtid s \<noteq> READING_GTID \<and> m_wait_gtid s \<noteq> GTID_READ_DONE then
           (let query = m_current_query s;
                size = m_size (m_trx s) + env_runtime_size E (st_buffer query) in
            if int size < trx_max_size (m_config s) then
              (let query = query\<lparr>st_bytes := st_bytes query + length writebuf,
                                 st_checksum := ck_update writebuf (st_checksum query)\<rparr> in
               if is_complete r then
                 (let ck = st_checksum query;
                      ck = (if \<not> include_in_checksum r s then ck_reset ck else ck);
                      ck = ck_finalize (env_digest E) ck;
                      t = add_result (ck_sum ck) (m_trx s);
                      t = add_stmt (env_runtime_size E) (st_buffer query) t
                  in s\<lparr>m_trx := t, m_current_query := stmt_clear (query\<lparr>st_checksum := ck\<rparr>)\<rparr>)
               else s\<lparr>m_current_query := query\<rparr>)
            else s\<lparr>m_can_replay_trx := False\<rparr>)
         else s)
      else if m_wait_gtid s = RETRYING_ON_MASTER then s
      else s\<lparr>m_current_query := stmt_clear (m_current_query s)\<rparr>)"

definition finish_transaction :: "rws \<Rightarrow> rws" where
  "finish_transaction s =
     s\<lparr>m_trx := trx_close (m_trx s), m_can_replay_trx := True, m_set_trx := no_buffer\<rparr>"

text \<open>
  The part of a result that the client has already got is discarded. The number of bytes to
  discard is a difference of unsigned numbers, which must not be negative.
\<close>

definition discard_partial_result :: "env \<Rightarrow> bytes \<Rightarrow> reply \<Rightarrow> rws \<Rightarrow> (bool \<times> bytes \<times> rws) option" where
  "discard_partial_result E buffer r s =
     (let query = m_current_query s; old = m_interrupted_query s in
      if st_bytes query + length buffer \<le> st_bytes old then
        (let s = s\<lparr>m_current_query :=
                     query\<lparr>st_bytes := st_bytes query + length buffer,
                           st_checksum := ck_update buffer (st_checksum query)\<rparr>\<rparr>
         in Some (True, buffer, if is_complete r then checksum_mismatch E s else s))
      else if st_bytes old < st_bytes query then None
      else
        (let bytes_to_discard = st_bytes old - st_bytes query;
             query = query\<lparr>st_checksum := ck_update (take bytes_to_discard buffer) (st_checksum query),
                           st_bytes := st_bytes old\<rparr>;
             s = s\<lparr>m_current_query := query, m_state := ROUTING\<rparr>;
             mismatch = (include_in_checksum r s \<and>
                         ck_sum (ck_finalize (env_digest E) (st_checksum query)) \<noteq> ck_sum (st_checksum old));
             s = (if mismatch then checksum_mismatch E s else s)
         in Some (mismatch, drop bytes_to_discard buffer,
             s\<lparr>m_interrupted_query := stmt_clear (m_interrupted_query s)\<rparr>)))"

section \<open>Causal reads\<close>

definition ok_packet :: bytes where
  "ok_packet = [7, 0, 0, 1, 0, 0, 0, 0, 0, 0, 0]"

definition parse_gtid_result :: "bytes \<Rightarrow> reply \<Rightarrow> rws \<Rightarrow> (bytes \<times> rws) option" where
  "parse_gtid_result buffer r s =
     do {
       s \<leftarrow> (case re_row_data r of
               [] \<Rightarrow> Some s
             | [] # _ \<Rightarrow> None
             | (value # _) # _ \<Rightarrow> map_option (\<lambda>g. s\<lparr>m_gtid_pos := g\<rparr>) (gtid_parse value));
       Some (if is_complete r then (ok_packet, s\<lparr>m_wait_gtid := GTID_READ_DONE\<rparr>) else ([], s))
     }"

text \<open>The length of the packet is kept in a \<open>uint8_t\<close>.\<close>

definition discard_master_wait_gtid_result :: "bytes \<Rightarrow> rws \<Rightarrow> (bytes \<times> rws) option" where
  "discard_master_wait_gtid_result buffer s =
     do {
       reply_byte \<leftarrow> MYSQL_GET_COMMAND buffer;
       payload_len \<leftarrow> MYSQL_GET_PAYLOAD_LEN buffer;
       if reply_byte = 0 then
         (let packet_len = (ucast (payload_len + 4) :: u8) in
          if length buffer < unat packet_len then None
          else Some (drop (unat packet_len) buffer, s\<lparr>m_wait_gtid := UPDATING_PACKETS, m_next_seq := 1\<rparr>))
       else if reply_byte = 0xff then
         Some (if trx_is_read_only s then
                 (create_error_packet 0 1792 (str_bytes ''25006'')
                    (str_bytes ''Causal read timed out while in a read-only transaction, cannot retry command.''),
                  s\<lparr>m_wait_gtid := WG_NONE\<rparr>)
               else (buffer, s\<lparr>m_wait_gtid := RETRYING_ON_MASTER\<rparr>))
       else Some (buffer, s)
     }"

function renumber :: "bytes \<Rightarrow> u32 \<Rightarrow> (bytes \<times> u32) option" where
  "renumber buffer next_seq =
     (if buffer = [] then Some ([], next_seq)
      else if length buffer < 4 then None
      else
        do {
          len \<leftarrow> get_byte3 buffer;
          (rest, next) \<leftarrow> renumber (drop (4 + unat len) buffer) (next_seq + 1);
          Some (take 3 buffer @ [ucast next_seq] @ take (unat len) (drop 4 buffer) @ rest, next)
        })"
  by pat_completeness auto
termination by (relation "measure (\<lambda>(buffer, _). length buffer)") auto

declare renumber.simps [simp del]

definition correct_packet_sequence :: "bytes \<Rightarrow> rws \<Rightarrow> (bytes \<times> rws) option" where
  "correct_packet_sequence buffer s =
     map_option (\<lambda>(buffer, next). (buffer, s\<lparr>m_next_seq := next\<rparr>)) (renumber buffer (m_next_seq s))"

definition track_last_gtid :: "nat \<Rightarrow> reply \<Rightarrow> rws \<Rightarrow> rws option" where
  "track_last_gtid i r s =
     (let gtid = get_variable ''last_gtid'' r in
      if is_ok r \<and> Some i = m_current_master s \<and> gtid \<noteq> [] then
        (if causal_reads (m_config s) = CR_GLOBAL \<or> causal_reads (m_config s) = CR_FAST_GLOBAL then
           map_option (\<lambda>m. s\<lparr>m_last_gtid := m\<rparr>) (set_last_gtid gtid (m_last_gtid s))
         else map_option (\<lambda>g. s\<lparr>m_gtid_pos := g\<rparr>) (gtid_parse gtid))
      else Some s)"

definition handle_causal_read_reply :: "bytes \<Rightarrow> reply \<Rightarrow> nat \<Rightarrow> rws \<Rightarrow> (bytes \<times> rws) option" where
  "handle_causal_read_reply writebuf r i s =
     (if causal_reads (m_config s) \<noteq> CR_NONE then
        do {
          s \<leftarrow> track_last_gtid i r s;
          (writebuf, s) \<leftarrow>
            (if m_wait_gtid s = READING_GTID then parse_gtid_result writebuf r s else Some (writebuf, s));
          (writebuf, s) \<leftarrow>
            (if m_wait_gtid s = WAITING_FOR_HEADER then discard_master_wait_gtid_result writebuf s
             else Some (writebuf, s));
          if m_wait_gtid s = UPDATING_PACKETS \<and> writebuf \<noteq> [] then correct_packet_sequence writebuf s
          else Some (writebuf, s)
        }
      else Some (writebuf, s))"

definition continue_causal_read :: "rws \<Rightarrow> (rws \<times> bool) option" where
  "continue_causal_read s =
     (if m_wait_gtid s = GTID_READ_DONE then
        (case m_query_queue s of
           [] \<Rightarrow> None
         | buffer # rest \<Rightarrow> Some (retry_query buffer 0 (s\<lparr>m_query_queue := rest\<rparr>), True))
      else if causal_reads (m_config s) \<noteq> CR_NONE then
        (if m_wait_gtid s = RETRYING_ON_MASTER then
           (let query = m_current_query s;
                s = retry_query (add_hint ROUTE_TO_MASTER (st_buffer query)) 0 s
            in Some (s\<lparr>m_current_query := stmt_clear query, m_wait_gtid := WG_NONE\<rparr>, True))
         else Some (s\<lparr>m_wait_gtid := WG_NONE\<rparr>, False))
      else Some (s, False))"

section \<open>Handling a reply\<close>

definition contains_text :: "string \<Rightarrow> string \<Rightarrow> bool" where
  "contains_text needle str \<longleftrightarrow> list_ex (\<lambda>i. take (length needle) (drop i str) = needle) [0..<length str + 1]"

definition track_tx_isolation :: "reply \<Rightarrow> rws \<Rightarrow> rws" where
  "track_tx_isolation r s =
     (let trx_char = get_variable ''trx_characteristics'' r;
          s = (if trx_char \<noteq> [] then s\<lparr>m_locked_to_master := contains_text ''SERIALIZABLE'' trx_char\<rparr> else s);
          tx_isolation = get_variable ''transaction_isolation'' r;
          tx_isolation = (if tx_isolation = [] then get_variable ''tx_isolation'' r else tx_isolation)
      in if tx_isolation \<noteq> [] then s\<lparr>m_locked_to_master := contains_text ''SERIALIZABLE'' tx_isolation\<rparr> else s)"

definition close_stale_connections :: "rws \<Rightarrow> rws" where
  "close_stale_connections s =
     (let current_rank = get_current_rank s
      in fold (\<lambda>i s.
           let b = backend_at s i in
           if in_use b \<and> (\<not> status_is_usable (t_status (b_target b)) \<or> t_rank (b_target b) \<noteq> current_rank)
           then session_close CLOSE_NORMAL i s else s) (backend_ids s) s)"

definition ignore_response :: "nat \<Rightarrow> reply \<Rightarrow> rws \<Rightarrow> rws \<times> bool" where
  "ignore_response i r s =
     (if is_complete r then
        (if is_idle (backend_at s i) then (session_kill s, False) else (upd_backend i ack_write s, True))
      else (s, True))"

definition retry_master_query :: "rws \<Rightarrow> rws \<times> bool" where
  "retry_master_query s =
     (let query = m_current_query s in
      if stmt_set query then ((retry_query (st_buffer query) 1 s)\<lparr>m_current_query := stmt_clear query\<rparr>, True)
      else (s, False))"

definition handle_ignorable_error :: "env \<Rightarrow> nat \<Rightarrow> rws \<Rightarrow> rws \<times> bool" where
  "handle_ignorable_error E i s =
     (let (s, ok) =
            (if trx_is_open s then start_trx_replay E s
             else if m_expected_responses s > 1 then (s, False)
             else if Some i = m_current_master s then
               (if can_retry_query s \<and> can_recover_master s then retry_master_query s else (s, False))
             else if retry_failed_reads (m_config s) then
               (let query = m_current_query s
                in ((retry_query (st_buffer query) 1 s)\<lparr>m_current_query := stmt_clear query\<rparr>, True))
             else (s, False))
      in if ok then
           (session_close CLOSE_NORMAL i
              ((upd_backend i ack_write s)
                 \<lparr>m_expected_responses := m_expected_responses s - 1, m_wait_gtid := WG_NONE\<rparr>), True)
         else (s, False))"

text \<open>Sending what is left of a reply to the client, and going on with what has been waiting for it.\<close>

definition send_reply :: "env \<Rightarrow> bytes \<Rightarrow> reply \<Rightarrow> rws \<Rightarrow> (rws \<times> bool) option" where
  "send_reply E writebuf r s =
     (let rc = env_client_accepts E (m_io s) writebuf;
          s = emit (Io_reply writebuf) s in
      do {
        s \<leftarrow> (if is_complete r \<and> m_expected_responses s = 0 \<and> m_state s \<noteq> TRX_REPLAY
              then map_option fst (route_stored_query E s) else Some s);
        let s = (if m_check_stale s \<and> m_expected_responses s = 0 \<and> \<not> trx_is_open s
                 then (close_stale_connections s)\<lparr>m_check_stale := False\<rparr> else s);
        Some (s, rc)
      })"

definition deliver_reply :: "env \<Rightarrow> bytes \<Rightarrow> reply \<Rightarrow> rws \<Rightarrow> (rws \<times> bool) option" where
  "deliver_reply E writebuf r s =
     (if m_state s = TRX_REPLAY then
        do {
          s \<leftarrow> (if m_expected_responses s = 0 then trx_replay_next_stmt E s else Some s);
          if \<not> trx_empty (m_replayed_trx s) then Some (s, True) else send_reply E writebuf r s
        }
      else if trx_is_open s \<and> trx_is_ending s \<and> m_expected_responses s = 0 then
        send_reply E writebuf r (finish_transaction s)
      else send_reply E writebuf r s)"

definition cache_prepare_response :: "bytes \<Rightarrow> reply \<Rightarrow> rws \<Rightarrow> rws" where
  "cache_prepare_response writebuf r s =
     (if reuse_ps (m_config s) \<and> re_command r = MXS_COM_STMT_PREPARE \<and> stmt_set (m_current_query s) then
        (let sql = get_sql (gw_data (st_buffer (m_current_query s)));
             old = (case m_ps_cache s sql of Some response \<Rightarrow> response | None \<Rightarrow> [])
         in s\<lparr>m_ps_cache := (m_ps_cache s)(sql \<mapsto> old @ writebuf)\<rparr>)
      else s)"

definition accept_reply :: "env \<Rightarrow> nat \<Rightarrow> bytes \<Rightarrow> reply \<Rightarrow> rws \<Rightarrow> (rws \<times> bool) option" where
  "accept_reply E i writebuf r s =
     (let s = (if m_wait_gtid s \<noteq> GTID_READ_DONE then
                 s\<lparr>m_qc := update_from_reply (re_state r = LOAD_DATA) (is_complete r) (re_server_status r) (m_qc s)\<rparr>
               else s);
          s = cache_prepare_response writebuf r s;
          s = manage_transactions E writebuf r s in
      if is_complete r then
        (if is_idle (backend_at s i) then Some (session_kill s, False)
         else
           (let s = s\<lparr>m_expected_responses := m_expected_responses s - 1\<rparr>;
                s = track_tx_isolation r s;
                s = (if re_command r = MXS_COM_STMT_PREPARE \<and> is_ok r
                     then s\<lparr>m_qc := ps_store_response (re_generated_id r) (re_param_count r) (m_qc s)\<rparr> else s) in
            if m_state s = OTRX_ROLLBACK then Some (fst (start_trx_replay E (s\<lparr>m_state := ROUTING\<rparr>)), True)
            else
              do {
                (s, retried) \<leftarrow> continue_causal_read (upd_backend i ack_write s);
                if retried then Some (s, True) else deliver_reply E writebuf r s
              }))
      else deliver_reply E writebuf r s)"

definition clientReply :: "env \<Rightarrow> nat \<Rightarrow> bytes \<Rightarrow> reply \<Rightarrow> rws \<Rightarrow> (rws \<times> bool) option" where
  "clientReply E i writebuf r s =
     (if should_ignore_response (backend_at s i) then Some (ignore_response i r s)
      else
        do {
          (writebuf, s) \<leftarrow> handle_causal_read_reply writebuf r i s;
          if writebuf = [] then Some (s, True)
          else
            do {
              (discard, writebuf, s) \<leftarrow>
                (if m_state s = TRX_REPLAY_INTERRUPTED then discard_partial_result E writebuf r s
                 else Some (False, writebuf, s));
              if discard then Some (s, True)
              else if is_unexpected_error (re_error r) \<and>
                (\<not> is_waiting_result (backend_at s i) \<or> \<not> has_started r) then Some (s, True)
              else
                (let (s, ignored) =
                       (if (trx_retry_on_deadlock (m_config s) \<and> is_rollback (re_error r)) \<or> is_wsrep_error (re_error r)
                        then handle_ignorable_error E i s else (s, False))
                 in if ignored then Some (s, True) else accept_reply E i writebuf r s)
            }
        })"

section \<open>Lost connections\<close>

datatype error_type = TRANSIENT | PERMANENT

definition failure_type :: "error_type \<Rightarrow> close_type" where
  "failure_type type = (if type = PERMANENT then CLOSE_FATAL else CLOSE_NORMAL)"

definition send_readonly_error :: "rws \<Rightarrow> rws" where
  "send_readonly_error s = emit (Io_reply read_only_error) s"

definition handle_error_new_connection :: "nat \<Rightarrow> close_type \<Rightarrow> rws \<Rightarrow> rws \<times> bool" where
  "handle_error_new_connection i type s =
     (let query = m_current_query s;
          (s, can_be_fixed) =
            (if is_waiting_result (backend_at s i) then
               (if stmt_set query \<and> retry_failed_reads (m_config s) then
                  (if \<not> delayed_retry (m_config s) \<and> is_last_backend i s then (s, False)
                   else ((retry_query (st_buffer query) 1 s)\<lparr>m_current_query := stmt_clear query\<rparr>, True))
                else (s, False))
             else (s, True));
          s = session_close type i s
      in (s, can_be_fixed \<and> (can_recover_servers s \<or> have_open_connections s)))"

text \<open>The loss of the primary: whether the session goes on, before transactions are considered.\<close>

definition master_lost :: "nat \<Rightarrow> rws \<Rightarrow> (rws \<times> bool) option" where
  "master_lost i s =
     (if \<not> is_waiting_result (backend_at s i) then
        Some (s, master_failure_mode (m_config s) \<noteq> RW_FAIL_INSTANTLY)
      else if m_expected_responses s > 1 then Some (s, False)
      else if m_wait_gtid s = READING_GTID then
        do {
          (buffer, s) \<leftarrow> reset_gtid_probe s;
          let query = (m_current_query s)\<lparr>st_buffer := buffer\<rparr>;
          Some (if can_retry_query s then ((retry_query buffer 0 s)\<lparr>m_current_query := stmt_clear query\<rparr>, True)
                else (s\<lparr>m_current_query := query\<rparr>, False))
        }
      else if can_retry_query s \<and> can_recover_master s then Some (retry_master_query s)
      else if master_failure_mode (m_config s) = RW_ERROR_ON_WRITE then Some (send_readonly_error s, True)
      else Some (s, False))"

definition handle_master_error :: "env \<Rightarrow> close_type \<Rightarrow> nat \<Rightarrow> rws \<Rightarrow> (rws \<times> bool) option" where
  "handle_master_error E type i s =
     (let old_wait_gtid = m_wait_gtid s; expected_response = is_waiting_result (backend_at s i) in
      do {
        (s, can_continue) \<leftarrow> master_lost i s;
        let (s, can_continue) =
          (if trx_is_open s \<and> \<not> in_optimistic_trx s \<and>
              (trx_target (m_trx s) = None \<or> trx_target (m_trx s) = Some i \<or> old_wait_gtid = READING_GTID)
           then start_trx_replay E s else (s, can_continue));
        let can_continue = (if have_tmp_tables (m_qc s) \<and> strict_tmp_tables (m_config s) then False else can_continue);
        let s = (if can_continue \<and> expected_response
                 then s\<lparr>m_expected_responses := m_expected_responses s - 1\<rparr> else s);
        Some (session_close type i s, can_continue)
      })"

definition handle_slave_error :: "env \<Rightarrow> close_type \<Rightarrow> nat \<Rightarrow> rws \<Rightarrow> rws \<times> bool" where
  "handle_slave_error E type i s =
     (let s = (if is_waiting_result (backend_at s i)
               then s\<lparr>m_expected_responses := m_expected_responses s - 1, m_wait_gtid := WG_NONE\<rparr> else s) in
      if (trx_is_read_only s \<and> trx_target (m_trx s) = Some i \<and> m_wait_gtid s \<noteq> READING_GTID) \<or>
         in_optimistic_trx s then
        (let (s, can_continue) = start_trx_replay E s in (session_close type i s, can_continue))
      else handle_error_new_connection i type s)"

definition handleError :: "env \<Rightarrow> error_type \<Rightarrow> nat \<Rightarrow> reply \<Rightarrow> rws \<Rightarrow> (rws \<times> bool) option" where
  "handleError E type i r s =
     (if has_started r \<and> is_expected_response (backend_at s i) \<and> \<not> transaction_replay (m_config s) then
        Some (s, env_parent_error E (m_io s))
      else if m_current_master s = Some i \<and> in_use (backend_at s i) \<and>
        (mxs_mysql_is_binlog_dump (re_command r) \<or> re_command r = MXS_COM_REGISTER_SLAVE) then
        Some (session_kill s, False)
      else
        do {
          (s, can_continue) \<leftarrow>
            (if m_current_master s = Some i \<and> in_use (backend_at s i)
             then handle_master_error E (failure_type type) i s
             else Some (handle_slave_error E (failure_type type) i s));
          Some (s, can_continue \<or> env_parent_error E (m_io s))
        })"

definition endpointConnReleased :: "nat \<Rightarrow> rws \<Rightarrow> rws" where
  "endpointConnReleased i s =
     (if can_recover_servers s \<and> (\<not> is_master (backend_at s i) \<or> master_reconnection (m_config s))
      then session_close CLOSE_NORMAL i s else s)"

end
