(* ===== verification/Rws_Frame.thy ===== *)
theory Rws_Frame
  imports Rws_Reply
begin

text \<open>
  When the state of a session of the read write split router is consistent, which fields do not
  matter for that, and what the primitive operations and the choice of a target leave alone.
\<close>

section \<open>The state of a session is consistent\<close>

definition valid_ref :: "nat \<Rightarrow> nat option \<Rightarrow> bool" where
  "valid_ref n target = (case target of Some i \<Rightarrow> i < n | None \<Rightarrow> True)"

lemma valid_ref_simps [simp]: "valid_ref n None" "valid_ref n (Some i) \<longleftrightarrow> i < n"
  by (simp_all add: valid_ref_def)

definition refs_ok :: "rws \<Rightarrow> bool" where
  "refs_ok s \<longleftrightarrow>
     list_all (valid_ref (length (m_raw_backends s)))
       [m_current_master s, rp_target (m_prev_plan s), trx_target (m_trx s), trx_target (m_replayed_trx s),
        trx_target (m_orig_trx s), m_sescmd_replier s] \<and>
     list_all (\<lambda>(_, i). i < length (m_raw_backends s)) (m_exec_map s)"

definition counters_ok :: "rws \<Rightarrow> bool" where
  "counters_ok s \<longleftrightarrow>
     0 \<le> m_pending_retries s \<and> 0 \<le> m_retry_duration s \<and> 0 \<le> m_num_trx_replays s \<and>
     (trx_timeout (m_config s) \<le> 0 \<longrightarrow> m_num_trx_replays s \<le> max 0 (trx_max_attempts (m_config s)))"

definition state_ok :: "rws \<Rightarrow> bool" where
  "state_ok s \<longleftrightarrow>
     (replaying_trx s \<longrightarrow> transaction_replay (m_config s)) \<and>
     (in_optimistic_trx s \<longrightarrow> optimistic_trx (m_config s))"

definition session_ok :: "rws \<Rightarrow> bool" where
  "session_ok s \<longleftrightarrow> refs_ok s \<and> counters_ok s \<and> state_ok s"

lemmas ok_defs = session_ok_def refs_ok_def counters_ok_def state_ok_def replaying_trx_def in_optimistic_trx_def

text \<open>Most fields do not matter.\<close>

lemma session_ok_frame [simp]:
  "session_ok (s\<lparr>m_expected_responses := x1\<rparr>) = session_ok s"
  "session_ok (s\<lparr>m_locked_to_master := x2\<rparr>) = session_ok s"
  "session_ok (s\<lparr>m_check_stale := x3\<rparr>) = session_ok s"
  "session_ok (s\<lparr>m_query_queue := x4\<rparr>) = session_ok s"
  "session_ok (s\<lparr>m_gtid_pos := x5\<rparr>) = session_ok s"
  "session_ok (s\<lparr>m_wait_gtid := x6\<rparr>) = session_ok s"
  "session_ok (s\<lparr>m_next_seq := x7\<rparr>) = session_ok s"
  "session_ok (s\<lparr>m_qc := x8\<rparr>) = session_ok s"
  "session_ok (s\<lparr>m_current_query := x9\<rparr>) = session_ok s"
  "session_ok (s\<lparr>m_can_replay_trx := x10\<rparr>) = session_ok s"
  "session_ok (s\<lparr>m_interrupted_query := x11\<rparr>) = session_ok s"
  "session_ok (s\<lparr>m_orig_stmt := x12\<rparr>) = session_ok s"
  "session_ok (s\<lparr>m_set_trx := x13\<rparr>) = session_ok s"
  "session_ok (s\<lparr>m_trx_replay_timer := x14\<rparr>) = session_ok s"
  "session_ok (s\<lparr>m_ps_cache := x15\<rparr>) = session_ok s"
  "session_ok (s\<lparr>m_last_gtid := x16\<rparr>) = session_ok s"
  "session_ok (s\<lparr>m_can_recover := x17\<rparr>) = session_ok s"
  "session_ok (s\<lparr>m_now := x18\<rparr>) = session_ok s"
  "session_ok (s\<lparr>m_io := x19\<rparr>) = session_ok s"
  by (simp_all add: ok_defs)

lemma session_ok_set:
  "session_ok s \<Longrightarrow> valid_ref (length (m_raw_backends s)) r \<Longrightarrow> session_ok (s\<lparr>m_current_master := r\<rparr>)"
  "session_ok s \<Longrightarrow> valid_ref (length (m_raw_backends s)) r \<Longrightarrow> session_ok (s\<lparr>m_sescmd_replier := r\<rparr>)"
  "session_ok s \<Longrightarrow> valid_ref (length (m_raw_backends s)) (rp_target p) \<Longrightarrow> session_ok (s\<lparr>m_prev_plan := p\<rparr>)"
  "session_ok s \<Longrightarrow> valid_ref (length (m_raw_backends s)) (trx_target t) \<Longrightarrow> session_ok (s\<lparr>m_trx := t\<rparr>)"
  "session_ok s \<Longrightarrow> valid_ref (length (m_raw_backends s)) (trx_target t) \<Longrightarrow> session_ok (s\<lparr>m_replayed_trx := t\<rparr>)"
  "session_ok s \<Longrightarrow> valid_ref (length (m_raw_backends s)) (trx_target t) \<Longrightarrow> session_ok (s\<lparr>m_orig_trx := t\<rparr>)"
  "session_ok s \<Longrightarrow> 0 \<le> d \<Longrightarrow> session_ok (s\<lparr>m_retry_duration := d\<rparr>)"
  "session_ok s \<Longrightarrow> 0 \<le> d \<Longrightarrow> session_ok (s\<lparr>m_pending_retries := d\<rparr>)"
  "session_ok s \<Longrightarrow> session_ok (s\<lparr>m_num_trx_replays := 0\<rparr>)"
  "session_ok s \<Longrightarrow> session_ok (s\<lparr>m_state := ROUTING\<rparr>)"
  "session_ok s \<Longrightarrow> transaction_replay (m_config s) \<Longrightarrow> session_ok (s\<lparr>m_state := TRX_REPLAY\<rparr>)"
  "session_ok s \<Longrightarrow> transaction_replay (m_config s) \<Longrightarrow> session_ok (s\<lparr>m_state := TRX_REPLAY_INTERRUPTED\<rparr>)"
  "session_ok s \<Longrightarrow> list_all (\<lambda>(_, i). i < length (m_raw_backends s)) m \<Longrightarrow> session_ok (s\<lparr>m_exec_map := m\<rparr>)"
  "session_ok s \<Longrightarrow> length bs = length (m_raw_backends s) \<Longrightarrow> session_ok (s\<lparr>m_raw_backends := bs\<rparr>)"
  by (simp_all add: ok_defs)

lemma session_okD:
  "session_ok s \<Longrightarrow> valid_ref (length (m_raw_backends s)) (m_current_master s)"
  "session_ok s \<Longrightarrow> valid_ref (length (m_raw_backends s)) (rp_target (m_prev_plan s))"
  "session_ok s \<Longrightarrow> valid_ref (length (m_raw_backends s)) (trx_target (m_trx s))"
  "session_ok s \<Longrightarrow> valid_ref (length (m_raw_backends s)) (trx_target (m_replayed_trx s))"
  "session_ok s \<Longrightarrow> valid_ref (length (m_raw_backends s)) (trx_target (m_orig_trx s))"
  "session_ok s \<Longrightarrow> valid_ref (length (m_raw_backends s)) (m_sescmd_replier s)"
  "session_ok s \<Longrightarrow> list_all (\<lambda>(_, i). i < length (m_raw_backends s)) (m_exec_map s)"
  "session_ok s \<Longrightarrow> 0 \<le> m_retry_duration s"
  "session_ok s \<Longrightarrow> 0 \<le> m_pending_retries s"
  "session_ok s \<Longrightarrow> replaying_trx s \<Longrightarrow> transaction_replay (m_config s)"
  "session_ok s \<Longrightarrow> in_optimistic_trx s \<Longrightarrow> optimistic_trx (m_config s)"
  by (simp_all add: session_ok_def refs_ok_def counters_ok_def state_ok_def)

section \<open>Primitive operations\<close>

lemma emit_simps [simp]:
  "session_ok (emit e s) = session_ok s" "m_config (emit e s) = m_config s"
  "m_raw_backends (emit e s) = m_raw_backends s" "m_state (emit e s) = m_state s"
  "m_query_queue (emit e s) = m_query_queue s" "m_qc (emit e s) = m_qc s" "m_trx (emit e s) = m_trx s"
  "m_expected_responses (emit e s) = m_expected_responses s" "m_current_master (emit e s) = m_current_master s"
  "m_retry_duration (emit e s) = m_retry_duration s" "m_pending_retries (emit e s) = m_pending_retries s"
  "m_wait_gtid (emit e s) = m_wait_gtid s" "m_io (emit e s) = m_io s @ [e]"
  "m_set_trx (emit e s) = m_set_trx s" "m_locked_to_master (emit e s) = m_locked_to_master s"
  "m_sescmd_replier (emit e s) = m_sescmd_replier s"
  by (simp_all add: emit_def)

lemma upd_backend_simps [simp]:
  "session_ok (upd_backend i f s) = session_ok s" "m_config (upd_backend i f s) = m_config s"
  "length (m_raw_backends (upd_backend i f s)) = length (m_raw_backends s)" "m_state (upd_backend i f s) = m_state s"
  "m_query_queue (upd_backend i f s) = m_query_queue s" "m_qc (upd_backend i f s) = m_qc s" "m_trx (upd_backend i f s) = m_trx s"
  "m_expected_responses (upd_backend i f s) = m_expected_responses s" "m_current_master (upd_backend i f s) = m_current_master s"
  "m_retry_duration (upd_backend i f s) = m_retry_duration s" "m_pending_retries (upd_backend i f s) = m_pending_retries s"
  "m_wait_gtid (upd_backend i f s) = m_wait_gtid s" "m_io (upd_backend i f s) = m_io s"
  "m_set_trx (upd_backend i f s) = m_set_trx s" "m_locked_to_master (upd_backend i f s) = m_locked_to_master s"
  "m_sescmd_replier (upd_backend i f s) = m_sescmd_replier s"
  by (simp_all add: upd_backend_def ok_defs)

text \<open>Operations that touch nothing but backends and the trace.\<close>

definition only_backends :: "rws \<Rightarrow> rws \<Rightarrow> bool" where
  "only_backends s s' \<longleftrightarrow>
     (\<exists>bs io. length bs = length (m_raw_backends s) \<and> s' = s\<lparr>m_raw_backends := bs, m_io := m_io s @ io\<rparr>)"

lemma only_backends_refl [simp, intro]: "only_backends s s"
  unfolding only_backends_def by (intro exI [of _ "m_raw_backends s"] exI [of _ "[]"]) simp

lemma only_backends_trans: "only_backends s t \<Longrightarrow> only_backends t u \<Longrightarrow> only_backends s u"
  unfolding only_backends_def by (elim exE conjE, rule exI, rule exI) auto


lemma session_ok_backends:
  "length bs = length (m_raw_backends s) \<Longrightarrow> session_ok (s\<lparr>m_raw_backends := bs, m_io := io\<rparr>) = session_ok s"
  by (simp add: ok_defs)

lemma only_backends_fields:
  assumes "only_backends s s'"
  shows "session_ok s' = session_ok s" "m_config s' = m_config s" "length (m_raw_backends s') = length (m_raw_backends s)"
    "m_state s' = m_state s" "m_query_queue s' = m_query_queue s" "m_qc s' = m_qc s" "m_trx s' = m_trx s"
    "m_expected_responses s' = m_expected_responses s" "m_current_master s' = m_current_master s"
    "m_retry_duration s' = m_retry_duration s" "m_pending_retries s' = m_pending_retries s"
    "m_wait_gtid s' = m_wait_gtid s" "m_set_trx s' = m_set_trx s" "m_locked_to_master s' = m_locked_to_master s"
    "m_sescmd_replier s' = m_sescmd_replier s" "m_exec_map s' = m_exec_map s" "m_current_query s' = m_current_query s"
    "m_prev_plan s' = m_prev_plan s" "m_num_trx_replays s' = m_num_trx_replays s"
proof -
  obtain bs io where l: "length bs = length (m_raw_backends s)" and s': "s' = s\<lparr>m_raw_backends := bs, m_io := m_io s @ io\<rparr>"
    using assms by (auto simp: only_backends_def)
  show "session_ok s' = session_ok s" unfolding s' by (rule session_ok_backends [OF l])
qed (use assms in \<open>auto simp: only_backends_def\<close>)

lemma only_backends_emit: "only_backends s (emit e s)"
  unfolding only_backends_def emit_def by (intro exI [of _ "m_raw_backends s"] exI [of _ "[e]"]) simp

lemma only_backends_upd: "only_backends s (upd_backend i f s)"
  unfolding only_backends_def upd_backend_def
  by (intro exI [of _ "(m_raw_backends s)[i := f (backend_at s i)]"] exI [of _ "[]"]) simp

lemma only_backends_prims:
  "only_backends s (fst (session_connect E i s))" "only_backends s (session_close c i s)"
  "only_backends s (fst (session_write E i b r s))" "only_backends s (emit e s)" "only_backends s (upd_backend i f s)"
  by (auto simp: session_connect_def session_close_def session_write_def split_beta
      intro: only_backends_upd only_backends_emit only_backends_trans)

lemma only_backends_prepare_connection: "only_backends s (fst (prepare_connection E i s))"
  by (auto simp: prepare_connection_def Let_def split_beta intro: only_backends_prims only_backends_trans)

lemma only_backends_prepare_target: "only_backends s (fst (prepare_target E i s))"
  by (simp add: prepare_target_def only_backends_prepare_connection)

lemma only_backends_fold: "(\<And>i s. only_backends s (f i s)) \<Longrightarrow> only_backends s (fold f is s)"
  by (induction "is" arbitrary: s) (auto intro: only_backends_trans)

lemma only_backends_continue_large: "only_backends s (continue_large_session_write E b s)"
  unfolding continue_large_session_write_def by (rule only_backends_fold) (simp add: only_backends_prims)

lemma only_backends_close_stale: "only_backends s (close_stale_connections s)"
  unfolding close_stale_connections_def Let_def by (rule only_backends_fold) (simp add: only_backends_prims)

lemma only_backends_write_session_command: "only_backends s (fst (write_session_command E i b s))"
  by (auto simp: write_session_command_def Let_def split_beta intro: only_backends_prims only_backends_trans)

lemma only_backends_write_session_commands: "only_backends s (fst (write_session_commands E b is s ok))"
  by (induction "is" arbitrary: s ok)
    (auto simp: split_beta intro: only_backends_trans [OF only_backends_write_session_command])

lemmas only_backends_ops = only_backends_prims only_backends_prepare_connection only_backends_prepare_target
  only_backends_continue_large only_backends_close_stale only_backends_write_session_command only_backends_write_session_commands

lemmas only_backends_ok [simp] = only_backends_ops [THEN only_backends_fields(1)]
lemmas only_backends_config [simp] = only_backends_ops [THEN only_backends_fields(2)]
lemmas only_backends_length [simp] = only_backends_ops [THEN only_backends_fields(3)]
lemmas only_backends_state [simp] = only_backends_ops [THEN only_backends_fields(4)]
lemmas only_backends_queue [simp] = only_backends_ops [THEN only_backends_fields(5)]
lemmas only_backends_qc [simp] = only_backends_ops [THEN only_backends_fields(6)]
lemmas only_backends_trx [simp] = only_backends_ops [THEN only_backends_fields(7)]
lemmas only_backends_master [simp] = only_backends_ops [THEN only_backends_fields(9)]
lemmas only_backends_retry [simp] = only_backends_ops [THEN only_backends_fields(10)] only_backends_ops [THEN only_backends_fields(11)]
lemmas only_backends_replier [simp] = only_backends_ops [THEN only_backends_fields(15)]
lemmas only_backends_exec_map [simp] = only_backends_ops [THEN only_backends_fields(16)]
lemmas only_backends_plan [simp] = only_backends_ops [THEN only_backends_fields(18)]

section \<open>Operations keep the state consistent\<close>

lemma retry_query_ok [simp]: "session_ok s \<Longrightarrow> session_ok (retry_query b d s)"
  by (simp add: retry_query_def emit_def ok_defs)

lemma retry_query_fields [simp]:
  "m_config (retry_query b d s) = m_config s" "m_raw_backends (retry_query b d s) = m_raw_backends s"
  "m_state (retry_query b d s) = m_state s" "m_query_queue (retry_query b d s) = m_query_queue s"
  "m_trx (retry_query b d s) = m_trx s" "m_qc (retry_query b d s) = m_qc s"
  by (simp_all add: retry_query_def)

lemma set_response_ok [simp]: "session_ok (set_response r s) = session_ok s" "m_raw_backends (set_response r s) = m_raw_backends s"
  "m_config (set_response r s) = m_config s" "m_query_queue (set_response r s) = m_query_queue s"
  by (simp_all add: set_response_def)

lemma session_kill_ok [simp]: "session_ok (session_kill s) = session_ok s" "m_raw_backends (session_kill s) = m_raw_backends s"
  "m_config (session_kill s) = m_config s" "m_query_queue (session_kill s) = m_query_queue s"
  by (simp_all add: session_kill_def)

lemma discard_connection_ok [simp]: "session_ok (discard_connection t s) = session_ok s"
  "length (m_raw_backends (discard_connection t s)) = length (m_raw_backends s)"
  "m_config (discard_connection t s) = m_config s" "m_query_queue (discard_connection t s) = m_query_queue s"
  by (simp_all add: discard_connection_def Let_def split: option.splits)

lemma replace_master_ok [simp]:
  "session_ok s \<Longrightarrow> i < length (m_raw_backends s) \<Longrightarrow> session_ok (replace_master i s)"
  "length (m_raw_backends (replace_master i s)) = length (m_raw_backends s)"
  "m_query_queue (replace_master i s) = m_query_queue s" "m_config (replace_master i s) = m_config s"
  by (simp_all add: replace_master_def session_ok_set)

lemma get_slave_backend_ok [simp]: "session_ok (snd (get_slave_backend r s)) = session_ok s"
  "m_raw_backends (snd (get_slave_backend r s)) = m_raw_backends s" "m_config (snd (get_slave_backend r s)) = m_config s"
  "m_query_queue (snd (get_slave_backend r s)) = m_query_queue s" "m_qc (snd (get_slave_backend r s)) = m_qc s"
  by (simp_all add: get_slave_backend_def Let_def)


lemma session_ok_next_replay:
  "session_ok s \<Longrightarrow> can_start_trx_replay s \<Longrightarrow> session_ok (s\<lparr>m_num_trx_replays := m_num_trx_replays s + 1\<rparr>)"
  unfolding session_ok_def by (auto simp: can_start_trx_replay_def refs_ok_def counters_ok_def state_ok_def
      replaying_trx_def in_optimistic_trx_def)

lemma start_trx_replay_ok [simp]:
  assumes "session_ok s"
  shows "session_ok (fst (start_trx_replay E s))"
proof (cases "transaction_replay (m_config s) \<and> can_start_trx_replay s")
  case True
  then show ?thesis
    using session_ok_next_replay [OF assms] session_okD(3,5) [OF assms]
    unfolding start_trx_replay_def Let_def
    by (auto simp: pop_stmt_def trx_close_def new_trx_def intro!: session_ok_set retry_query_ok)
next
  case False
  then show ?thesis using assms unfolding start_trx_replay_def by (subst if_not_P) auto
qed

lemma start_trx_replay_fields [simp]:
  "m_config (fst (start_trx_replay E s)) = m_config s" "m_raw_backends (fst (start_trx_replay E s)) = m_raw_backends s"
  "m_query_queue (fst (start_trx_replay E s)) = m_query_queue s"
  by (simp_all add: start_trx_replay_def Let_def pop_stmt_def)

lemma get_target_backend_fields [simp]: "session_ok (snd (get_target_backend t n r s)) = session_ok s"
  "m_raw_backends (snd (get_target_backend t n r s)) = m_raw_backends s"
  "m_config (snd (get_target_backend t n r s)) = m_config s" "m_query_queue (snd (get_target_backend t n r s)) = m_query_queue s"
  "m_qc (snd (get_target_backend t n r s)) = m_qc s"
  by (simp_all add: get_target_backend_def split: option.splits backend_type.splits)

section \<open>Targets are servers of the session\<close>

lemma keep_least_subset: "set (keep_least f xs cs b) \<subseteq> set xs \<union> set cs"
proof (induction xs arbitrary: cs b)
  case (Cons x xs)
  show ?case by (auto simp: Let_def dest!: subsetD [OF Cons.IH] split: if_splits)
qed simp

lemma get_slave_backend_Some:
  assumes "fst (get_slave_backend r s) = Some i"
  shows "i < length (m_raw_backends s) \<and> slave_candidate s r i"
proof -
  have "i \<in> set (keep_least (slave_priority s) (filter (slave_candidate s r) (backend_ids s)) [] None)"
    using assms configured.select_SomeD
    by (simp add: get_slave_backend_def slave_loop_keep_least Let_def)
  then show ?thesis using keep_least_subset by fastforce
qed

lemma get_root_master_Some:
  assumes "get_root_master s = Some i"
  shows "is_master (backend_at s i) \<and>
    (m_current_master s = Some i \<and> in_use (backend_at s i) \<or> i < length (m_raw_backends s) \<and> can_connect (backend_at s i))"
proof (cases "master_in_use s \<and> is_master (backend_at s (the (m_current_master s)))")
  case True
  then show ?thesis using assms by (auto simp: get_root_master_def master_in_use_def split: option.splits)
next
  case False
  let ?cs = "keep_least (\<lambda>i. t_rank (b_target (backend_at s i)))
       (filter (\<lambda>i. can_connect (backend_at s i) \<and> is_master (backend_at s i)) (backend_ids s)) [] (Some (2 ^ 63 - 1))"
  have "backend_cmp_global_conn s ?cs = Some i"
    using assms False unfolding get_root_master_def master_loop_keep_least by (subst (asm) if_not_P) auto
  then have "i \<in> set ?cs" using global_conn.select_SomeD by blast
  then show ?thesis using keep_least_subset by fastforce
qed

lemma get_master_backend_Some:
  "get_master_backend s = Some i \<Longrightarrow> is_master (backend_at s i) \<and>
     (m_current_master s = Some i \<and> in_use (backend_at s i) \<or> i < length (m_raw_backends s) \<and> can_connect (backend_at s i))"
  using get_root_master_Some [of s i] by (auto simp: get_master_backend_def split: option.splits if_splits)

lemma get_master_backend_valid:
  "session_ok s \<Longrightarrow> get_master_backend s = Some i \<Longrightarrow> i < length (m_raw_backends s)"
  using get_master_backend_Some [of s i] session_okD(1) [of s] by auto

lemma get_hinted_backend_valid: "get_hinted_backend n s = Some i \<Longrightarrow> i < length (m_raw_backends s)"
  by (auto simp: get_hinted_backend_def find_Some_iff)

text \<open>Choosing a target changes at most the flag about stale connections.\<close>

definition selects :: "rws \<Rightarrow> nat option \<times> rws \<Rightarrow> bool" where
  "selects s p \<longleftrightarrow> (\<exists>stale. snd p = s\<lparr>m_check_stale := stale\<rparr>) \<and>
     (session_ok s \<longrightarrow> valid_ref (length (m_raw_backends s)) (fst p))"

lemma selects_same: "(session_ok s \<longrightarrow> valid_ref (length (m_raw_backends s)) t) \<Longrightarrow> selects s (t, s)"
  unfolding selects_def by (auto intro: exI [of _ "m_check_stale s"])

lemma selects_slave: "selects s (get_slave_backend r s)"
proof -
  have "\<exists>stale. snd (get_slave_backend r s) = s\<lparr>m_check_stale := stale\<rparr>"
    unfolding get_slave_backend_def Let_def snd_conv by (rule exI, rule refl)
  then show ?thesis
    using get_slave_backend_Some [of r s] unfolding selects_def by (auto simp: valid_ref_def split: option.splits)
qed

lemma selects_none: "selects s (None, s)"
  by (rule selects_same) simp

lemma get_target_backend_selects: "selects s (get_target_backend t n r s)"
  using session_okD(3) [of s] get_master_backend_valid [of s] get_hinted_backend_valid [of _ s]
  by (auto simp: get_target_backend_def valid_ref_def split: option.splits backend_type.splits
      intro!: selects_slave selects_same)

lemma hint_backend_selects: "selects s (hint_backend r h s)"
  unfolding hint_backend_def Let_def by (auto intro: get_target_backend_selects selects_none)

lemma selects_trans: "selects s p \<Longrightarrow> selects (snd p) q \<Longrightarrow> selects s q"
  unfolding selects_def by auto

lemma hinted_target_selects: "selects s (hinted_target r hs s)"
proof (induction hs arbitrary: s)
  case (Cons h hs)
  then show ?case
    using hint_backend_selects [of s r h] by (auto simp: Let_def split_beta intro: selects_trans)
qed (simp add: selects_none)

lemma handle_hinted_target_selects: "selects s (handle_hinted_target b t s)"
  using hinted_target_selects [of s "get_max_replication_lag s" "gw_hints b"]
  by (auto simp: handle_hinted_target_def Let_def split_beta intro: selects_trans get_target_backend_selects)

lemma map_of_exec_valid:
  "session_ok s \<Longrightarrow> map_of (m_exec_map s) i = Some t \<Longrightarrow> t < length (m_raw_backends s)"
  using session_okD(7) [of s] by (auto simp: list_all_iff dest!: map_of_SomeD)

lemma handle_slave_is_target_selects: "selects s (handle_slave_is_target i s)"
  by (auto simp: handle_slave_is_target_def get_target_backend_selects selects_none map_of_exec_valid
      split: option.splits intro!: selects_same)

lemma get_target_selects: "selects s (get_target b t s)"
  using session_okD(2) [of s] get_master_backend_valid [of s]
  by (auto simp: get_target_def handle_hinted_target_selects handle_slave_is_target_selects handle_master_is_target_def
      get_target_backend_selects selects_none get_last_used_backend_def valid_ref_def split: option.splits
      intro!: selects_same)

lemma resolve_route_selects: "selects s (rp_target (fst (resolve_route b s)), snd (resolve_route b s))"
  using get_target_selects [of s b] by (simp add: resolve_route_def Let_def split_beta selects_none)

lemma resolve_route_snd: "\<exists>stale. snd (resolve_route b s) = s\<lparr>m_check_stale := stale\<rparr>"
  using resolve_route_selects [of s b] by (simp add: selects_def)

lemma resolve_route_valid: "session_ok s \<Longrightarrow> valid_ref (length (m_raw_backends s)) (rp_target (fst (resolve_route b s)))"
  using resolve_route_selects [of s b] by (simp add: selects_def)

end
