(* ===== verification/Rws_Invariant.thy ===== *)
theory Rws_Invariant
  imports Rws_Frame Classifier_Correct
begin

text \<open>
  The state of a session stays consistent: a lemma for every operation of the read write split
  router, the transition system of everything that can happen to a session, and the invariant of
  its reachable states.
\<close>

section \<open>Routing keeps the state consistent\<close>

text \<open>Every result of a partial operation has a property.\<close>

abbreviation results :: "('a \<Rightarrow> bool) \<Rightarrow> 'a option \<Rightarrow> bool" where
  "results P x \<equiv> pred_option P x"

lemma results_bind [simp]: "results P (x \<bind> f) \<longleftrightarrow> results (\<lambda>y. results P (f y)) x"
  by (cases x) auto

lemma results_cong_imp: "results P x \<Longrightarrow> (\<And>y. P y \<Longrightarrow> Q y) \<Longrightarrow> results Q x"
  by (cases x) auto

lemma results_map [simp]: "results P (map_option f x) \<longleftrightarrow> results (P \<circ> f) x"
  by (cases x) auto

lemma classify_type_handler:
  "fst (classify_type H G db b info locked ro (h, qc)) \<in> {h, fst (lock_to_master H h)}"
  by (auto simp: classify_type_def Let_def split_beta)

lemma classify_packet_handler:
  "fst (classify_packet H G db b info (h, qc)) \<in> {h, fst (lock_to_master H h)}"
  using classify_type_handler [of H G db "gw_data b" info]
  by (auto simp: classify_packet_def classify_stmt_def Let_def split_beta)

text \<open>Classifying a statement changes the classifier and may lock the session to the primary.\<close>

definition classified :: "rws \<Rightarrow> rws \<Rightarrow> bool" where
  "classified s s' \<longleftrightarrow> (\<exists>l qc. s' = s\<lparr>m_locked_to_master := l, m_qc := qc\<rparr>)"

lemma classified_qc: "classified s (s\<lparr>m_qc := x\<rparr>)"
  unfolding classified_def by (intro exI [of _ "m_locked_to_master s"] exI [of _ x]) simp

lemma classified_lock: "classified s ((fst (lock_to_master rws_handler s))\<lparr>m_qc := x\<rparr>)"
proof (cases "strict_multi_stmt (m_config s) \<or> strict_sp_calls (m_config s)")
  case True
  then show ?thesis
    unfolding classified_def by (intro exI [of _ True] exI [of _ x]) (simp add: rws_handler_def rws_lock_to_master_def Let_def)
qed (use classified_qc in \<open>auto simp: rws_handler_def rws_lock_to_master_def\<close>)

lemma classify_results: "results (classified s) (classify E b s)"
proof (cases "get_query_info (env_grammar E) (gw_data b)")
  case (Some info)
  then show ?thesis
    using classify_packet_handler [of rws_handler "env_grammar E" "env_db E" b info s "m_qc s"]
    by (auto simp: classify_def update_route_info_def split_beta intro: classified_qc classified_lock)
qed (simp add: classify_def update_route_info_def)

lemma classified_fields:
  "classified s s' \<Longrightarrow> session_ok s' = session_ok s" "classified s s' \<Longrightarrow> m_raw_backends s' = m_raw_backends s"
  "classified s s' \<Longrightarrow> m_query_queue s' = m_query_queue s" "classified s s' \<Longrightarrow> m_config s' = m_config s"
  by (auto simp: classified_def)

subsection \<open>Statements without a target\<close>

lemma start_trx_migration_fields [simp]:
  "session_ok s \<Longrightarrow> session_ok (fst (start_trx_migration E b s))"
  "m_raw_backends (fst (start_trx_migration E b s)) = m_raw_backends s"
  "m_query_queue (fst (start_trx_migration E b s)) = m_query_queue s"
  by (simp_all add: start_trx_migration_def)

lemma reset_gtid_probe_ok: "session_ok s \<Longrightarrow> results (\<lambda>p. session_ok (snd p)) (reset_gtid_probe s)"
  by (simp add: reset_gtid_probe_def split: list.splits)

lemma handle_routing_failure_ok:
  "session_ok s \<Longrightarrow> results (\<lambda>p. session_ok (fst p)) (handle_routing_failure E b s)"
  by (auto simp: handle_routing_failure_def routing_failed_def split_beta reset_gtid_probe_def split: list.splits)

lemma query_not_supported_ok:
  "session_ok s \<Longrightarrow> results (\<lambda>p. session_ok (fst p)) (query_not_supported b s)"
  by (simp add: query_not_supported_def Let_def option.pred_True)

lemma reuse_prepared_stmt_ok [simp]: "session_ok (fst (reuse_prepared_stmt b s)) = session_ok s"
  "m_raw_backends (fst (reuse_prepared_stmt b s)) = m_raw_backends s" "m_config (fst (reuse_prepared_stmt b s)) = m_config s"
  "m_query_queue (fst (reuse_prepared_stmt b s)) = m_query_queue s"
  by (simp_all add: reuse_prepared_stmt_def split: option.splits)

subsection \<open>Statements with a target\<close>

lemma track_optimistic_trx_ok [simp]:
  "session_ok s \<Longrightarrow> (rp_type res \<noteq> PLAN_NORMAL \<longrightarrow> optimistic_trx (m_config s)) \<Longrightarrow>
   session_ok (snd (track_optimistic_trx b res s))"
  by (auto simp: track_optimistic_trx_def ok_defs split: plan_type.splits)

lemma track_optimistic_trx_fields [simp]:
  "m_raw_backends (snd (track_optimistic_trx b res s)) = m_raw_backends s"
  "m_config (snd (track_optimistic_trx b res s)) = m_config s"
  "m_query_queue (snd (track_optimistic_trx b res s)) = m_query_queue s"
  by (simp_all add: track_optimistic_trx_def split: plan_type.splits)

lemma set_exec_valid:
  "list_all (\<lambda>(_, i). i < n) m \<Longrightarrow> t < n \<Longrightarrow> list_all (\<lambda>(_, i). i < n) (set_exec k t m)"
  by (induction k t m rule: set_exec.induct) auto

lemma erase_exec_valid: "list_all (\<lambda>(_, i). i < n) m \<Longrightarrow> list_all (\<lambda>(_, i). i < n) (erase_exec k m)"
  by (induction k m rule: erase_exec.induct) auto

lemma add_prefix_wait_gtid_fields [simp]:
  "session_ok (snd (add_prefix_wait_gtid E b s)) = session_ok s"
  "m_raw_backends (snd (add_prefix_wait_gtid E b s)) = m_raw_backends s"
  "m_query_queue (snd (add_prefix_wait_gtid E b s)) = m_query_queue s"
  "m_exec_map (snd (add_prefix_wait_gtid E b s)) = m_exec_map s"
  "m_qc (snd (add_prefix_wait_gtid E b s)) = m_qc s"
  "m_trx (snd (add_prefix_wait_gtid E b s)) = m_trx s"
  by (simp_all add: add_prefix_wait_gtid_def Let_def)

lemma send_sync_query_fields [simp]:
  "session_ok (send_sync_query E i s) = session_ok s"
  "length (m_raw_backends (send_sync_query E i s)) = length (m_raw_backends s)"
  "m_query_queue (send_sync_query E i s) = m_query_queue s"
  by (simp_all add: send_sync_query_def Let_def)

lemma got_target_statement_ok [simp]:
  "session_ok s \<Longrightarrow> i < length (m_raw_backends s) \<Longrightarrow> session_ok (snd (snd (snd (got_target_statement E b i st s))))"
  using session_okD(7) [of s]
  by (auto simp: got_target_statement_def Let_def split_beta intro!: session_ok_set set_exec_valid)

lemma got_target_statement_fields [simp]:
  "m_raw_backends (snd (snd (snd (got_target_statement E b i st s)))) = m_raw_backends s"
  "m_query_queue (snd (snd (snd (got_target_statement E b i st s)))) = m_query_queue s"
  by (simp_all add: got_target_statement_def Let_def split_beta)

lemma store_statement_fields [simp]:
  "session_ok (store_statement b s) = session_ok s" "m_raw_backends (store_statement b s) = m_raw_backends s"
  "m_query_queue (store_statement b s) = m_query_queue s"
  by (simp_all add: store_statement_def Let_def)

lemma track_trx_target_ok [simp]:
  "session_ok s \<Longrightarrow> i < length (m_raw_backends s) \<Longrightarrow> session_ok (track_trx_target i s)"
  by (simp add: track_trx_target_def session_ok_set)

lemma track_trx_target_fields [simp]:
  "m_raw_backends (track_trx_target i s) = m_raw_backends s" "m_query_queue (track_trx_target i s) = m_query_queue s"
  by (simp_all add: track_trx_target_def)

lemma handle_got_target_ok [simp]:
  "session_ok s \<Longrightarrow> i < length (m_raw_backends s) \<Longrightarrow> session_ok (fst (handle_got_target E b i st s))"
  by (simp add: handle_got_target_def Let_def split_beta)

lemma handle_got_target_fields [simp]:
  "length (m_raw_backends (fst (handle_got_target E b i st s))) = length (m_raw_backends s)"
  "m_query_queue (fst (handle_got_target E b i st s)) = m_query_queue s"
  by (simp_all add: handle_got_target_def Let_def split_beta)

definition plan_ok :: "routing_plan \<Rightarrow> rws \<Rightarrow> bool" where
  "plan_ok res s \<longleftrightarrow>
     valid_ref (length (m_raw_backends s)) (rp_target res) \<and>
     (rp_type res \<noteq> PLAN_NORMAL \<longrightarrow> optimistic_trx (m_config s))"

lemma single_target_ok:
  "session_ok s \<Longrightarrow> plan_ok res s \<Longrightarrow> session_ok (snd (single_target res s)) \<and>
     valid_ref (length (m_raw_backends s)) (fst (single_target res s)) \<and> plan_ok res (snd (single_target res s))"
  by (auto simp: single_target_def Let_def plan_ok_def should_replace_master_def split: option.splits)

lemma single_target_fields [simp]:
  "length (m_raw_backends (snd (single_target res s))) = length (m_raw_backends s)"
  "m_query_queue (snd (single_target res s)) = m_query_queue s"
  by (simp_all add: single_target_def Let_def)

lemma route_to_target_ok:
  "session_ok s \<Longrightarrow> plan_ok res s \<Longrightarrow> i < length (m_raw_backends s) \<Longrightarrow> session_ok (fst (route_to_target E b res i s))"
  by (simp add: route_to_target_def plan_ok_def Let_def split_beta session_ok_set)

lemma route_to_target_fields [simp]:
  "length (m_raw_backends (fst (route_to_target E b res i s))) = length (m_raw_backends s)"
  "m_query_queue (fst (route_to_target E b res i s)) = m_query_queue s"
  by (simp_all add: route_to_target_def Let_def split_beta)

lemma route_single_stmt_ok:
  "session_ok s \<Longrightarrow> plan_ok res s \<Longrightarrow> results (\<lambda>p. session_ok (fst p)) (route_single_stmt E b res s)"
  using single_target_ok [of s res]
  by (auto simp: route_single_stmt_def split_beta route_to_target_ok handle_routing_failure_ok split: option.splits)

subsection \<open>Session commands\<close>

lemma valid_replier: "session_ok s \<Longrightarrow> valid_ref (length (m_raw_backends s)) (choose_replier s)"
proof -
  assume ok: "session_ok s"
  have "valid_ref (length (m_raw_backends s)) r \<Longrightarrow> list_all (\<lambda>i. i < length (m_raw_backends s)) is \<Longrightarrow>
    valid_ref (length (m_raw_backends s))
      (fold (\<lambda>i replier. if in_use (backend_at s i) \<and> (replier = None \<or> Some i = m_current_master s) then Some i else replier) is r)" for r "is"
    by (induction "is" arbitrary: r) auto
  from this [of None "backend_ids s"] session_okD(3) [OF ok] show ?thesis
    by (auto simp: choose_replier_def Let_def list_all_iff split: option.splits)
qed

lemma replier_ok [simp]: "session_ok s \<Longrightarrow> session_ok (s\<lparr>m_sescmd_replier := choose_replier s\<rparr>)"
  by (simp add: session_ok_set valid_replier)

lemma create_one_connection_ok [simp]:
  "session_ok s \<Longrightarrow> session_ok (fst (create_one_connection_for_sescmd E s))"
  using get_master_backend_valid [of s]
  by (auto simp: create_one_connection_for_sescmd_def Let_def split_beta split: option.splits)

lemma create_one_connection_fields [simp]:
  "length (m_raw_backends (fst (create_one_connection_for_sescmd E s))) = length (m_raw_backends s)"
  "m_query_queue (fst (create_one_connection_for_sescmd E s)) = m_query_queue s"
  by (auto simp: create_one_connection_for_sescmd_def Let_def split_beta split: option.splits)

lemma track_prepared_stmts_ok [simp]: "session_ok s \<Longrightarrow> session_ok (track_prepared_stmts E b s)"
  using session_okD(7) [of s] by (simp add: track_prepared_stmts_def Let_def session_ok_set erase_exec_valid)

lemma track_prepared_stmts_fields [simp]:
  "m_raw_backends (track_prepared_stmts E b s) = m_raw_backends s"
  "m_query_queue (track_prepared_stmts E b s) = m_query_queue s"
  "m_sescmd_replier (track_prepared_stmts E b s) = m_sescmd_replier s"
  by (simp_all add: track_prepared_stmts_def Let_def)

lemma session_command_sent_ok [simp]: "session_ok s \<Longrightarrow> session_ok (session_command_sent E b s)"
  using session_okD(6) [of s] by (simp add: session_command_sent_def Let_def session_ok_set)

lemma session_command_sent_fields [simp]:
  "m_raw_backends (session_command_sent E b s) = m_raw_backends s"
  "m_query_queue (session_command_sent E b s) = m_query_queue s"
  by (simp_all add: session_command_sent_def Let_def)

lemma route_session_write_ok [simp]: "session_ok s \<Longrightarrow> session_ok (fst (route_session_write E b s))"
  by (simp add: route_session_write_def Let_def split_beta session_ok_set(2))

lemma route_session_write_fields [simp]:
  "length (m_raw_backends (fst (route_session_write E b s))) = length (m_raw_backends s)"
  "m_query_queue (fst (route_session_write E b s)) = m_query_queue s"
  by (simp_all add: route_session_write_def Let_def split_beta)

lemma handle_target_is_all_ok:
  "session_ok s \<Longrightarrow> plan_ok res s \<Longrightarrow> session_ok (fst (handle_target_is_all E b res s))"
  by (simp add: handle_target_is_all_def Let_def split_beta session_ok_set plan_ok_def)

lemma handle_target_is_all_fields [simp]:
  "length (m_raw_backends (fst (handle_target_is_all E b res s))) = length (m_raw_backends s)"
  "m_query_queue (fst (handle_target_is_all E b res s)) = m_query_queue s"
  by (simp_all add: handle_target_is_all_def Let_def split_beta)

subsection \<open>Statements\<close>

lemma query_not_supported_results:
  "results (\<lambda>p. m_config (fst p) = m_config s \<and> m_raw_backends (fst p) = m_raw_backends s \<and>
     m_query_queue (fst p) = m_query_queue s \<and> session_ok (fst p) = session_ok s \<and> m_wait_gtid (fst p) = m_wait_gtid s)
   (query_not_supported b s)"
  by (simp add: query_not_supported_def Let_def option.pred_True set_response_def)

lemma route_stmt_ok:
  assumes "session_ok s" "plan_ok res s"
  shows "results (\<lambda>p. session_ok (fst p)) (route_stmt E b res s)"
proof -
  define s1 where "s1 = fst (if reuse_ps (m_config s) then reuse_prepared_stmt b s else (s, False))"
  have s1: "session_ok s1" "plan_ok res s1" using assms by (auto simp: s1_def plan_ok_def)
  have "results (\<lambda>p. session_ok (fst p))
    (query_not_supported b s1 \<bind> (\<lambda>p. if snd p then Some (fst p, True)
       else if target_is_all (ucast (m_target (route_info s))) then Some (handle_target_is_all E b res (fst p))
       else route_single_stmt E b res (fst p)))"
    unfolding results_bind
    by (rule option.pred_mono_strong [OF query_not_supported_results])
      (use s1 in \<open>auto simp: plan_ok_def intro!: handle_target_is_all_ok route_single_stmt_ok\<close>)
  then show ?thesis using s1(1) by (simp add: route_stmt_def Let_def split_beta s1_def)
qed


lemma resolve_route_plan_ok:
  assumes "session_ok s"
  shows "plan_ok (fst (resolve_route b s)) (snd (resolve_route b s)) \<and> session_ok (snd (resolve_route b s))"
proof -
  obtain stale where st: "snd (resolve_route b s) = s\<lparr>m_check_stale := stale\<rparr>" using resolve_route_snd [of b s] by auto
  have "rp_type (fst (resolve_route b s)) \<noteq> PLAN_NORMAL \<longrightarrow> optimistic_trx (m_config s)"
    using session_okD(11) [OF assms]
    by (auto simp: resolve_route_def plan_route_def Let_def split_beta should_try_trx_on_slave_def in_optimistic_trx_def split: if_splits)
  then show ?thesis using resolve_route_valid [OF assms, of b] assms by (simp add: plan_ok_def st)
qed

lemma start_gtid_probe_ok:
  assumes "session_ok s"
  shows "results (\<lambda>p. session_ok (snd (snd p)) \<and> plan_ok (fst (snd p)) (snd (snd p))) (start_gtid_probe E s)"
proof -
  let ?b = "add_hint ROUTE_TO_MASTER (query_buffer ''SELECT @@gtid_current_pos'')"
  have "session_ok t' \<and> plan_ok (p\<lparr>rp_route_target := TARGET_MASTER, rp_target := tgt\<rparr>) t'"
    if "classified (s\<lparr>m_wait_gtid := READING_GTID\<rparr>) t" "resolve_route ?b t = (p, t1)" "handle_master_is_target t1 = (tgt, t')"
    for t p t1 tgt t'
  proof -
    have "session_ok t" using classified_fields(1) [OF that(1)] assms by simp
    from resolve_route_plan_ok [OF this, of ?b] have "session_ok t1" "plan_ok p t1" by (auto simp: that(2))
    then show ?thesis
      using get_target_backend_selects [of t1 BE_MASTER None RLAG_UNDEFINED] that(3)
      by (auto simp: handle_master_is_target_def selects_def plan_ok_def)
  qed
  then show ?thesis
    unfolding start_gtid_probe_def Let_def results_bind
    by (intro option.pred_mono_strong [OF classify_results]) (simp add: split_beta prod_eq_iff)
qed

lemma route_query_ok:
  assumes "session_ok s"
  shows "results (\<lambda>p. session_ok (fst p)) (route_query E b s)"
proof -
  have "results (\<lambda>p. session_ok (fst p)) (case resolve_route b t of (res, t) \<Rightarrow>
      if can_route_query res e t then
        (if need_gtid_probe res t then start_gtid_probe E (t\<lparr>m_qc := revert_update (m_qc t), m_query_queue := b # m_query_queue t\<rparr>)
         else Some (b, res, t)) \<bind> (\<lambda>(b, res, t). route_stmt E b res t)
      else Some (t\<lparr>m_qc := revert_update (m_qc t), m_query_queue := m_query_queue t @ [b]\<rparr>, True))"
    if "classified s t" for t e
  proof -
    obtain res u where r: "resolve_route b t = (res, u)" by fastforce
    have "session_ok t" using classified_fields(1) [OF that] assms by simp
    from resolve_route_plan_ok [OF this, of b] have u: "session_ok u" "plan_ok res u" by (auto simp: r)
    then show ?thesis
      using start_gtid_probe_ok [of "u\<lparr>m_qc := revert_update (m_qc u), m_query_queue := b # m_query_queue u\<rparr>" E]
      by (auto simp: r route_stmt_ok split_beta elim!: results_cong_imp)
  qed
  then show ?thesis
    unfolding route_query_def Let_def results_bind
    by (intro option.pred_mono_strong [OF classify_results]) auto
qed

lemma routeQuery_ok: "session_ok s \<Longrightarrow> results (\<lambda>p. session_ok (fst p)) (routeQuery E b s)"
  by (simp add: routeQuery_def route_query_ok)

lemma retry_callback_ok:
  "session_ok s \<Longrightarrow> 0 < m_pending_retries s \<Longrightarrow> results (\<lambda>p. session_ok (fst p)) (retry_callback E b s)"
  by (simp add: retry_callback_def route_query_ok session_ok_set)

lemma route_stored_ok: "session_ok s \<Longrightarrow> results (\<lambda>p. session_ok (fst p)) (route_stored E qs s ok)"
proof (induction qs arbitrary: s ok)
  case (Cons q qs)
  have "results (\<lambda>p. session_ok (fst p)) (routeQuery E q (s\<lparr>m_query_queue := []\<rparr>))"
    using Cons.prems by (simp add: routeQuery_ok)
  then show ?case by (auto simp: split_beta Cons.IH elim!: results_cong_imp)
qed simp

lemma route_stored_query_ok: "session_ok s \<Longrightarrow> results (\<lambda>p. session_ok (fst p)) (route_stored_query E s)"
  by (simp add: route_stored_query_def route_stored_ok)

section \<open>Replies and errors keep the state consistent\<close>

lemma checksum_mismatch_ok [simp]:
  "session_ok s \<Longrightarrow> transaction_replay (m_config s) \<Longrightarrow> session_ok (checksum_mismatch E s)"
  by (simp add: checksum_mismatch_def Let_def split_beta session_ok_set)

lemma pop_stmt_target [simp]: "trx_target (snd (pop_stmt t)) = trx_target t" "trx_target (trx_close t) = None"
  "trx_target (add_result c t) = trx_target t" "trx_target (add_stmt f b t) = trx_target t"
  by (simp_all add: pop_stmt_def trx_close_def new_trx_def add_result_def add_stmt_def)

lemma trx_replay_next_stmt_ok:
  assumes "session_ok s" "transaction_replay (m_config s)"
  shows "results session_ok (trx_replay_next_stmt E s)"
  using assms session_okD(4) [OF assms(1)] route_stored_query_ok [of "s\<lparr>m_state := ROUTING, m_num_trx_replays := 0\<rparr>" E]
  unfolding trx_replay_next_stmt_def Let_def
  by (auto simp: split_beta session_ok_set o_def)

lemma manage_transactions_ok [simp]: "session_ok s \<Longrightarrow> session_ok (manage_transactions E w r s)"
  using session_okD(3) [of s] by (simp add: manage_transactions_def Let_def session_ok_set)

lemma manage_transactions_fields [simp]:
  "m_raw_backends (manage_transactions E w r s) = m_raw_backends s" "m_config (manage_transactions E w r s) = m_config s"
  "m_state (manage_transactions E w r s) = m_state s"
  by (simp_all add: manage_transactions_def Let_def session_kill_def)

lemma finish_transaction_ok [simp]: "session_ok s \<Longrightarrow> session_ok (finish_transaction s)"
  by (simp add: finish_transaction_def session_ok_set)

lemma discard_partial_result_ok:
  "session_ok s \<Longrightarrow> m_state s = TRX_REPLAY_INTERRUPTED \<Longrightarrow>
   results (\<lambda>p. session_ok (snd (snd p))) (discard_partial_result E w r s)"
  using session_okD(10) [of s] unfolding discard_partial_result_def Let_def
  by (auto simp: session_ok_set replaying_trx_def)

lemma track_last_gtid_results:
  "results (\<lambda>t. session_ok t = session_ok s \<and> m_raw_backends t = m_raw_backends s \<and> m_state t = m_state s) (track_last_gtid i r s)"
  by (simp add: track_last_gtid_def Let_def o_def option.pred_True)

lemma causal_reply_steps:
  "results (\<lambda>p. session_ok (snd p) = session_ok s \<and> m_raw_backends (snd p) = m_raw_backends s \<and> m_state (snd p) = m_state s)
     (parse_gtid_result w r s)"
  "results (\<lambda>p. session_ok (snd p) = session_ok s \<and> m_raw_backends (snd p) = m_raw_backends s \<and> m_state (snd p) = m_state s)
     (discard_master_wait_gtid_result w s)"
  "results (\<lambda>p. session_ok (snd p) = session_ok s \<and> m_raw_backends (snd p) = m_raw_backends s \<and> m_state (snd p) = m_state s)
     (correct_packet_sequence w s)"
  by (auto simp: parse_gtid_result_def discard_master_wait_gtid_result_def correct_packet_sequence_def Let_def o_def
      option.pred_True split_beta split: list.splits)

lemma handle_causal_read_reply_ok:
  "results (\<lambda>p. session_ok (snd p) = session_ok s \<and> m_raw_backends (snd p) = m_raw_backends s \<and> m_state (snd p) = m_state s)
     (handle_causal_read_reply w r i s)"
  unfolding handle_causal_read_reply_def
  by (auto simp: split_beta intro!: option.pred_mono_strong [OF track_last_gtid_results]
      option.pred_mono_strong [OF causal_reply_steps(1)] option.pred_mono_strong [OF causal_reply_steps(2)]
      option.pred_mono_strong [OF causal_reply_steps(3)])

lemma continue_causal_read_ok: "session_ok s \<Longrightarrow> results (\<lambda>p. session_ok (fst p)) (continue_causal_read s)"
  by (simp add: continue_causal_read_def Let_def split: list.splits)

lemma track_tx_isolation_fields [simp]: "session_ok (track_tx_isolation r s) = session_ok s"
  "m_raw_backends (track_tx_isolation r s) = m_raw_backends s" "m_state (track_tx_isolation r s) = m_state s"
  by (simp_all add: track_tx_isolation_def Let_def)

lemma cache_prepare_response_fields [simp]: "session_ok (cache_prepare_response w r s) = session_ok s"
  "m_raw_backends (cache_prepare_response w r s) = m_raw_backends s" "m_config (cache_prepare_response w r s) = m_config s"
  by (simp_all add: cache_prepare_response_def Let_def)

lemma ignore_response_ok [simp]: "session_ok (fst (ignore_response i r s)) = session_ok s"
  by (simp add: ignore_response_def)

lemma retry_master_query_ok [simp]: "session_ok s \<Longrightarrow> session_ok (fst (retry_master_query s))"
  by (simp add: retry_master_query_def Let_def)

lemma handle_ignorable_error_ok [simp]: "session_ok s \<Longrightarrow> session_ok (fst (handle_ignorable_error E i s))"
  by (simp add: handle_ignorable_error_def Let_def split_beta)

lemma send_reply_ok: "session_ok s \<Longrightarrow> results (\<lambda>p. session_ok (fst p)) (send_reply E w r s)"
  using route_stored_query_ok [of "emit (Io_reply w) s" E]
  by (auto simp: send_reply_def Let_def o_def elim!: results_cong_imp)

lemma deliver_reply_ok: "session_ok s \<Longrightarrow> results (\<lambda>p. session_ok (fst p)) (deliver_reply E w r s)"
  using trx_replay_next_stmt_ok [of s E] session_okD(10) [of s]
  by (auto simp: deliver_reply_def send_reply_ok replaying_trx_def elim!: results_cong_imp)

lemma accept_reply_ok:
  assumes "session_ok s"
  shows "results (\<lambda>p. session_ok (fst p)) (accept_reply E i w r s)"
proof -
  have *: "results (\<lambda>p. session_ok (fst p)) (continue_causal_read t \<bind> (\<lambda>(s, retried). if retried then Some (s, True) else deliver_reply E w r s))"
    if "session_ok t" for t
    using continue_causal_read_ok [OF that] by (auto simp: split_beta deliver_reply_ok elim!: results_cong_imp)
  show ?thesis
    using assms unfolding accept_reply_def Let_def by (simp add: * deliver_reply_ok session_ok_set del: results_bind)
qed

lemma clientReply_ok:
  assumes "session_ok s"
  shows "results (\<lambda>p. session_ok (fst p)) (clientReply E i w r s)"
proof -
  have "results (\<lambda>p. session_ok (fst p)) (clientReply E i w r s)"
    if "\<not> should_ignore_response (backend_at s i)"
    using that assms unfolding clientReply_def
    by (auto simp: split_beta option.pred_True intro!: option.pred_mono_strong [OF handle_causal_read_reply_ok]
        option.pred_mono_strong [OF discard_partial_result_ok] accept_reply_ok)
  then show ?thesis using assms by (cases "should_ignore_response (backend_at s i)") (simp_all add: clientReply_def)
qed

lemma handle_error_new_connection_ok [simp]:
  "session_ok s \<Longrightarrow> session_ok (fst (handle_error_new_connection i t s))"
  by (simp add: handle_error_new_connection_def Let_def split_beta)

lemma master_lost_ok: "session_ok s \<Longrightarrow> results (\<lambda>p. session_ok (fst p)) (master_lost i s)"
  by (auto simp: master_lost_def Let_def split_beta reset_gtid_probe_def send_readonly_error_def split: list.splits)

lemma handle_master_error_ok: "session_ok s \<Longrightarrow> results (\<lambda>p. session_ok (fst p)) (handle_master_error E t i s)"
  using master_lost_ok [of s i] by (auto simp: handle_master_error_def Let_def split_beta elim!: results_cong_imp)

lemma handle_slave_error_ok [simp]: "session_ok s \<Longrightarrow> session_ok (fst (handle_slave_error E t i s))"
  by (simp add: handle_slave_error_def Let_def split_beta)

lemma handleError_ok: "session_ok s \<Longrightarrow> results (\<lambda>p. session_ok (fst p)) (handleError E t i r s)"
  using handle_master_error_ok [of s E "failure_type t" i] by (simp add: handleError_def split_beta)

lemma endpointConnReleased_ok [simp]: "session_ok (endpointConnReleased i s) = session_ok s"
  by (simp add: endpointConnReleased_def)

lemma only_backends_open_slaves: "only_backends s (open_slaves E cs n m s)"
proof (induction E cs n m s rule: open_slaves.induct)
  case (1 E cs n m s)
  show ?case
  proof (cases "n < m \<and> backend_cmp_global_conn s cs \<noteq> None")
    case True
    then obtain c where c: "backend_cmp_global_conn s cs = Some c" "n < m" by auto
    obtain s1 ok where p: "prepare_connection E c s = (s1, ok)" by fastforce
    have "open_slaves E cs n m s = open_slaves E (remove1 c cs) (if ok then n + 1 else n) m s1"
      by (subst open_slaves.simps) (simp add: c p)
    moreover have "only_backends s s1" using only_backends_prepare_connection [of s E c] by (simp add: p)
    ultimately show ?thesis using "1" [OF c(2,1) p [symmetric]] only_backends_trans by metis
  next
    case False
    then show ?thesis by (subst open_slaves.simps) (auto split: option.splits)
  qed
qed

lemma open_connections_ok:
  assumes "session_ok s"
  shows "session_ok (fst (open_connections E s))"
proof -
  have "get_root_master s = Some i \<Longrightarrow> i < length (m_raw_backends s)" for i
    using get_root_master_Some [of s i] session_okD(1) [OF assms] by auto
  then show ?thesis
    using assms unfolding open_connections_def Let_def
    by (auto simp: split_beta only_backends_fields(1) [OF only_backends_open_slaves] session_ok_set split: option.splits)
qed

lemma new_rws_ok: "session_ok (new_rws c ms bs)"
  by (simp add: new_rws_def ok_defs new_trx_def)

section \<open>Everything that can happen to a session\<close>

text \<open>
  A client sends a statement, a delayed statement is due, a server replies, a connection is lost
  or taken back for pooling, and, between these, time passes, monitors report about the servers
  and the history of session commands is pruned.
\<close>

inductive rws_step :: "env \<Rightarrow> rws \<Rightarrow> rws \<Rightarrow> bool" for E where
  query: "routeQuery E buffer s = Some (s', ok) \<Longrightarrow> rws_step E s s'"
| retry: "0 < m_pending_retries s \<Longrightarrow> retry_callback E buffer s = Some (s', ok) \<Longrightarrow> rws_step E s s'"
| answer: "clientReply E i writebuf r s = Some (s', ok) \<Longrightarrow> rws_step E s s'"
| lost: "handleError E type i r s = Some (s', ok) \<Longrightarrow> rws_step E s s'"
| released: "rws_step E s (endpointConnReleased i s)"
| clock: "m_now s \<le> now \<Longrightarrow> rws_step E s (s\<lparr>m_now := now\<rparr>)"
| monitor: "length ts = length (m_raw_backends s) \<Longrightarrow>
    rws_step E s (s\<lparr>m_raw_backends := map2 (\<lambda>b t. b\<lparr>b_target := t\<rparr>) (m_raw_backends s) ts\<rparr>)"
| history: "rws_step E s (s\<lparr>m_can_recover := recover\<rparr>)"

lemma rws_step_ok: "rws_step E s s' \<Longrightarrow> session_ok s \<Longrightarrow> session_ok s'"
proof (induction rule: rws_step.induct)
  case (query buffer s s' ok)
  then show ?case using routeQuery_ok [of s E buffer] by simp
next
  case (retry s buffer s' ok)
  then show ?case using retry_callback_ok [of s E buffer] by simp
next
  case (answer i writebuf r s s' ok)
  then show ?case using clientReply_ok [of s E i writebuf r] by simp
next
  case (lost type i r s s' ok)
  then show ?case using handleError_ok [of s E type i r] by simp
qed (simp_all add: session_ok_set)

text \<open>The states a session can be in, from its creation on.\<close>

inductive reachable :: "env \<Rightarrow> rws_config \<Rightarrow> backend list \<Rightarrow> rws \<Rightarrow> bool" for E config backends where
  opened: "open_connections E (new_rws config multi backends) = (s, True) \<Longrightarrow> reachable E config backends s"
| step: "reachable E config backends s \<Longrightarrow> rws_step E s s' \<Longrightarrow> reachable E config backends s'"

text \<open>
  C1. At every moment of the life of a session, whatever the client, the servers, the monitors and
  the network do: the backends it refers to exist, the counters of delayed statements and of the
  time spent on retrying are not negative, a transaction is replayed or run optimistically only
  if that is configured, and, if there is no time limit for replays, the number of attempts does
  not exceed the configured one. These are the assertions of the code about them.
\<close>

theorem session_always_ok: "reachable E config backends s \<Longrightarrow> session_ok s"
proof (induction rule: reachable.induct)
  case (opened multi s)
  then show ?case using open_connections_ok [OF new_rws_ok [of config multi backends], of E] by simp
qed (rule rws_step_ok)


text \<open>A network that accepts everything.\<close>

definition sample_env :: env where
  "sample_env =
     \<lparr>env_grammar = sample_grammar TYPE_READ OP_SELECT [], env_db = [],
      env_connects = (\<lambda>_ _. True), env_accepts = (\<lambda>_ _ _. True), env_client_accepts = (\<lambda>_ _. True),
      env_parent_error = (\<lambda>_. False), env_digest = (\<lambda>data. data), env_runtime_size = (\<lambda>b. length (gw_data b)),
      env_version = 0\<rparr>"

definition lazy_session :: rws where
  "lazy_session = new_rws (default_config\<lparr>lazy_connect := True\<rparr>) False (m_raw_backends sample_session)"

theorem session_always_ok_witness: "session_ok (lazy_session\<lparr>m_now := 7\<rparr>)"
proof -
  have r: "reachable sample_env (default_config\<lparr>lazy_connect := True\<rparr>) (m_raw_backends sample_session) lazy_session"
    unfolding lazy_session_def by (rule opened [of _ _ False]) (simp add: open_connections_def new_rws_def)
  have "m_now lazy_session \<le> 7" by (simp add: lazy_session_def new_rws_def)
  from session_always_ok [OF step [OF r clock [OF this]]] show ?thesis .
qed

end
