(* ===== verification/Rws_Safety.thy ===== *)
theory Rws_Safety
  imports Rws_Invariant
begin

text \<open>
  Where the statements of a session are written. \<open>written_to\<close> reads the servers off the trace of a
  session, and the lemmas \<open>writes_within_\<close> bound the servers that each step of the routing can
  write to, up to the router's entry \<^const>\<open>route_query\<close>. The two properties are the reasons to
  have a router: what can change data reaches primaries only, and a transaction stays on
  the server that it was started on.
\<close>

section \<open>Which servers are written to\<close>

fun written_to :: "io list \<Rightarrow> nat list" where
  "written_to [] = []"
| "written_to (Io_write i b t # es) = i # written_to es"
| "written_to (e # es) = written_to es"

definition new_io :: "rws \<Rightarrow> rws \<Rightarrow> io list" where
  "new_io s s' = drop (length (m_io s)) (m_io s')"

lemma written_to_append [simp]: "written_to (xs @ ys) = written_to xs @ written_to ys"
  by (induction xs rule: written_to.induct) auto

text \<open>The trace grows, and only servers of a set are written to.\<close>

definition writes_within :: "nat set \<Rightarrow> rws \<Rightarrow> rws \<Rightarrow> bool" where
  "writes_within A s s' \<longleftrightarrow> (\<exists>es. m_io s' = m_io s @ es \<and> set (written_to es) \<subseteq> A)"

lemma writes_within_new_io: "writes_within A s s' \<Longrightarrow> set (written_to (new_io s s')) \<subseteq> A"
  by (auto simp: writes_within_def new_io_def)

lemma writes_within_same [intro, simp]: "m_io s' = m_io s \<Longrightarrow> writes_within A s s'"
  by (auto simp: writes_within_def)

lemma writes_within_trans: "writes_within A s t \<Longrightarrow> writes_within A t u \<Longrightarrow> writes_within A s u"
  unfolding writes_within_def by (metis append.assoc set_append written_to_append le_supI)

lemma writes_within_mono: "writes_within A s t \<Longrightarrow> A \<subseteq> B \<Longrightarrow> writes_within B s t"
  unfolding writes_within_def by blast

lemma writes_within_cong: "m_io s' = m_io s \<Longrightarrow> m_io t' = m_io t \<Longrightarrow> writes_within A s' t' = writes_within A s t"
  by (simp add: writes_within_def)

lemma writes_within_emit: "writes_within A s (emit e s) \<longleftrightarrow> set (written_to [e]) \<subseteq> A"
  by (auto simp: writes_within_def)

lemma writes_within_prims:
  "writes_within A s (fst (session_connect E i s))" "writes_within A s (session_close c i s)"
  "i \<in> A \<Longrightarrow> writes_within A s (fst (session_write E i b r s))" "writes_within A s (set_response x s)"
  "writes_within A s (retry_query b d s)"
  by (auto simp: session_connect_def session_close_def session_write_def set_response_def retry_query_def split_beta writes_within_def)

lemma writes_within_prepare: "i \<in> A \<Longrightarrow> writes_within A s (fst (prepare_target E i s))"
  by (auto simp: prepare_target_def prepare_connection_def Let_def split_beta intro: writes_within_prims writes_within_trans)

lemma writes_within_discard: "writes_within A s (discard_connection t s)"
  using writes_within_prims(2) [of A s CLOSE_NORMAL] unfolding discard_connection_def Let_def
  by (auto simp: writes_within_def split: option.splits)

lemma writes_within_single_target: "writes_within A s (snd (single_target res s))"
  using writes_within_discard [of A s "m_current_master s"]
  by (auto simp: single_target_def Let_def replace_master_def writes_within_def)

lemma writes_within_start_trx_replay: "writes_within A s (fst (start_trx_replay E s))"
  by (auto simp: start_trx_replay_def Let_def pop_stmt_def retry_query_def writes_within_def)

lemma writes_within_routing_failed: "writes_within A u (fst (routing_failed E old c u))"
proof -
  have "writes_within A u (fst (start_trx_migration E b' (discard_connection t u)))" for t b'
    unfolding start_trx_migration_def
    by (rule writes_within_trans [OF writes_within_trans [OF writes_within_discard writes_within_same]
        writes_within_start_trx_replay]) simp
  moreover have "writes_within A u (discard_connection t (set_response r u))" for t r
    using writes_within_trans [OF writes_within_prims(4) writes_within_discard] .
  ultimately show ?thesis by (simp add: routing_failed_def writes_within_prims)
qed

lemma writes_within_routing_failure: "results (\<lambda>p. writes_within A s (fst p)) (handle_routing_failure E b s)"
proof -
  have "writes_within A s (fst (routing_failed E old c (s\<lparr>m_query_queue := q, m_wait_gtid := w\<rparr>)))" for old c q w
    by (rule writes_within_trans [OF writes_within_same writes_within_routing_failed]) simp
  then show ?thesis
    by (simp add: handle_routing_failure_def reset_gtid_probe_def writes_within_routing_failed split_beta split: list.splits)
qed

lemma got_target_io [simp]: "m_io (snd (snd (snd (got_target_statement E b i st s)))) = m_io s"
  "m_io (store_statement b s) = m_io s" "m_io (track_trx_target i s) = m_io s" "m_io (snd (track_optimistic_trx b res s)) = m_io s"
  by (simp_all add: got_target_statement_def add_prefix_wait_gtid_def store_statement_def track_trx_target_def
      track_optimistic_trx_def Let_def split_beta split: plan_type.splits)

lemma writes_within_got_target: "writes_within {i} s (fst (handle_got_target E b i st s))"
proof -
  have "writes_within {i} u (send_sync_query E i u)" for u
    unfolding send_sync_query_def Let_def by (rule writes_within_trans [OF writes_within_same writes_within_prims(3)]) simp_all
  then have sync: "writes_within {i} s (if x then send_sync_query E i u else u)" if "m_io u = m_io s" for u x
    using that by (cases x) (auto intro: writes_within_trans [OF writes_within_same])
  have "writes_within {i} s (fst (session_write E i c t (if x then send_sync_query E i u else u)))" if "m_io u = m_io s" for u c t x
    by (rule writes_within_trans [OF sync [OF that] writes_within_prims(3)]) simp
  then show ?thesis unfolding handle_got_target_def Let_def split_beta by simp
qed

lemma writes_within_route_to_target: "writes_within {i} s (fst (route_to_target E b res i s))"
proof -
  define u where "u = (snd (track_optimistic_trx b res s))\<lparr>m_retry_duration := 0\<rparr>"
  have "writes_within {i} s u" by (rule writes_within_same) (simp add: u_def)
  moreover have "writes_within {i} u (fst (prepare_target E i u))" by (simp add: writes_within_prepare)
  ultimately have p: "writes_within {i} s (fst (prepare_target E i u))" by (rule writes_within_trans)
  have "writes_within {i} s (fst (handle_got_target E c i st (fst (prepare_target E i u))))" for c st
    using p writes_within_got_target by (rule writes_within_trans)
  then have "writes_within {i} s ((fst (handle_got_target E c i st (fst (prepare_target E i u))))\<lparr>m_prev_plan := x\<rparr>)" for c st x
    by (simp add: writes_within_def)
  then show ?thesis
    using p \<open>\<And>c st. writes_within {i} s (fst (handle_got_target E c i st (fst (prepare_target E i u))))\<close>
    by (simp add: route_to_target_def Let_def split_beta u_def)
qed

lemma single_target_Some: "fst (single_target res s) = Some i \<Longrightarrow> rp_target res = Some i"
  by (auto simp: single_target_def Let_def split: if_splits)

lemma writes_within_single_stmt:
  "results (\<lambda>p. writes_within (set_option (rp_target res)) s (fst p)) (route_single_stmt E b res s)"
proof (cases "fst (single_target res s)")
  case None
  have "results (\<lambda>p. writes_within (set_option (rp_target res)) s (fst p)) (handle_routing_failure E b (snd (single_target res s)))"
    by (rule results_cong_imp [OF writes_within_routing_failure])
      (rule writes_within_trans [OF writes_within_single_target])
  then show ?thesis using None by (simp add: route_single_stmt_def split_beta)
next
  case (Some i)
  then show ?thesis
    using writes_within_trans [OF writes_within_single_target writes_within_route_to_target] single_target_Some [OF Some]
    by (simp add: route_single_stmt_def split_beta)
qed

lemma writes_within_route_stmt:
  assumes "\<not> target_is_all (ucast (m_target (route_info s)))"
  shows "results (\<lambda>p. writes_within (set_option (rp_target res)) s (fst p)) (route_stmt E b res s)"
proof -
  define s1 where "s1 = fst (if reuse_ps (m_config s) then reuse_prepared_stmt b s else (s, False))"
  let ?W = "\<lambda>t. writes_within (set_option (rp_target res)) s t"
  have s1: "?W s1"
    by (auto simp: s1_def reuse_prepared_stmt_def writes_within_prims split: option.splits)
  have q: "results (\<lambda>p. ?W (fst p)) (query_not_supported b s1)"
    using s1 writes_within_trans [OF s1 writes_within_prims(4)]
    by (simp add: query_not_supported_def Let_def option.pred_True)
  have "results (\<lambda>p. (snd p \<longrightarrow> ?W (fst p)) \<and>
      (\<not> snd p \<longrightarrow> results (\<lambda>p. ?W (fst p)) (route_single_stmt E b res (fst p)))) (query_not_supported b s1)"
    by (rule results_cong_imp [OF q])
      (auto intro: results_cong_imp [OF writes_within_single_stmt] writes_within_trans)
  then show ?thesis
    using s1 assms by (cases "reuse_ps (m_config s)") (simp_all add: route_stmt_def Let_def split_beta s1_def)
qed

lemma TARGET_MASTER_flags [simp]:
  "target_is_master TARGET_MASTER" "\<not> target_is_slave TARGET_MASTER" "\<not> target_is_named_server TARGET_MASTER"
  "\<not> target_is_rlag_max TARGET_MASTER" "\<not> target_is_last_used TARGET_MASTER" "\<not> target_is_all TARGET_MASTER"
  "\<not> target_is_master TARGET_SLAVE" "target_is_slave TARGET_SLAVE" "\<not> target_is_named_server TARGET_SLAVE"
  "\<not> target_is_rlag_max TARGET_SLAVE" "\<not> target_is_last_used TARGET_SLAVE" "\<not> target_is_all TARGET_SLAVE"
  "TARGET_MASTER \<noteq> TARGET_ALL" "TARGET_SLAVE \<noteq> TARGET_ALL" "TARGET_MASTER \<noteq> TARGET_SLAVE"
  by (simp_all add: target_defs flag_bits flag_bit) (simp_all add: TARGET_MASTER_def TARGET_SLAVE_def TARGET_ALL_def)

lemma normal_plan:
  assumes "session_ok s" "\<not> optimistic_trx (m_config s)" "\<not> multi_part_packet (route_info s)"
  shows "plan_route s = (ucast (m_target (route_info s)), PLAN_NORMAL)"
  using assms session_okD(11) [OF assms(1)]
  by (auto simp: plan_route_def Let_def should_try_trx_on_slave_def in_optimistic_trx_def)

lemma trx_target_valid_cases:
  "trx_target_still_valid s \<Longrightarrow> trx_target (m_trx s) = Some i \<Longrightarrow> is_master (backend_at s i) \<or> trx_is_read_only s"
  by (auto simp: trx_target_still_valid_def)

lemma master_target_is_master:
  assumes "fst (handle_master_is_target s) = Some i" "\<not> trx_is_read_only s"
  shows "is_master (backend_at s i)"
  using assms get_master_backend_Some [of s i] trx_target_valid_cases [of s i]
  by (auto simp: handle_master_is_target_def get_target_backend_def split: if_splits)

text \<open>Routing a statement for the primary, from its plan to the last byte that is written.\<close>

lemma route_query_plan:
  assumes "classify E b s = Some s1" "\<not> need_gtid_probe (fst (resolve_route b s1)) (snd (resolve_route b s1))"
    and "\<not> target_is_all (ucast (m_target (route_info s1)))" "route_query E b s = Some (s', ok)"
  shows "writes_within (set_option (rp_target (fst (resolve_route b s1)))) s s'"
proof -
  obtain stale where st: "snd (resolve_route b s1) = s1\<lparr>m_check_stale := stale\<rparr>" using resolve_route_snd [of b s1] by auto
  obtain l qc where s1: "s1 = s\<lparr>m_locked_to_master := l, m_qc := qc\<rparr>"
    using classify_results [of s E b] assms(1) by (auto simp: classified_def)
  let ?res = "fst (resolve_route b s1)" and ?u = "snd (resolve_route b s1)"
  have io: "m_io ?u = m_io s" unfolding st by (simp add: s1)
  show ?thesis
  proof (cases "can_route_query ?res (trx_is_ending s) ?u")
    case True
    then have "route_stmt E b ?res ?u = Some (s', ok)"
      using assms by (auto simp: route_query_def Let_def split_beta)
    then have "writes_within (set_option (rp_target ?res)) ?u s'"
      using writes_within_route_stmt [of ?u ?res E b] assms(3) by (simp add: st)
    then show ?thesis using io by (simp add: writes_within_def)
  next
    case False
    then show ?thesis using assms io by (auto simp: route_query_def Let_def split_beta writes_within_def)
  qed
qed

section \<open>Where statements of a session go\<close>

lemma multi_part_set_if [simp]:
  "multi_part_packet (set_if PS_CONTINUATION v ri) = multi_part_packet ri"
  "multi_part_packet (set_if TRX_IS_READ_ONLY v ri) = multi_part_packet ri"
  by (auto simp: multi_part_packet_def set_if_def flag_bits flag_bit bit_simps)

lemma multi_part_update_trx [simp]:
  "multi_part_packet (m_route_info (update_trx_still_read_only m qc)) = multi_part_packet (m_route_info qc)"
  by (simp add: update_trx_still_read_only_def Let_def)

lemma multi_part_classify_stmt:
  assumes "classify_stmt H G db buf info i (h, qc) = (h', qc', t, m)"
  shows "multi_part_packet (m_route_info qc') = multi_part_packet (m_route_info qc)"
proof -
  have "multi_part_packet (m_route_info (snd (snd (resolve_ps G b info' i' ro m' qc1)))) = multi_part_packet (m_route_info qc1)" for b info' i' ro m' qc1
    by (simp add: resolve_ps_def split: option.splits)
  moreover have "m_route_info (fst (snd (classify_type H G db (gw_data buf) info locked ro (h, qc)))) = m_route_info qc" for locked ro
    using core_classify_type [of H G db "gw_data buf" info locked ro h qc] core_D by (metis prod.collapse)
  ultimately show ?thesis
    using assms unfolding classify_stmt_def Let_def split_beta by (auto split: if_splits)
qed

lemma classify_route:
  assumes "classify E b s = Some s1" "gw_hints b = []" "\<not> expecting_multi_part_packet (route_info s)"
  shows "\<not> multi_part_packet (route_info s1)"
    and "ucast (m_target (route_info s1)) \<in> {TARGET_MASTER, TARGET_ALL} \<or> trx_is_read_only s1 \<or>
      \<not> trx_is_open s1 \<and> query_type_is_read_only (m_use_sql_variables_in (m_qc s1)) (m_type_mask (route_info s1))"
proof -
  obtain info h qc where c: "classify_packet rws_handler (env_grammar E) (env_db E) b info (s, m_qc s) = (h, qc)" "s1 = h\<lparr>m_qc := qc\<rparr>"
    using assms(1) by (auto simp: classify_def update_route_info_def split: prod.splits)
  have q: "m_qc s1 = qc" using c(2) by simp
  have "\<not> multi_part_packet (m_route_info qc) \<and> (ucast (m_target (m_route_info qc)) \<in> {TARGET_MASTER, TARGET_ALL} \<or>
      is_trx_read_only (m_trx_tracker (m_route_info qc)) \<or> \<not> is_trx_active (m_trx_tracker (m_route_info qc)) \<and>
      query_type_is_read_only (m_use_sql_variables_in qc) (m_type_mask (m_route_info qc)))"
    using c(1)
  proof (cases rule: classify_packet_cases)
    case other
    then show ?thesis using multi_part_begin_update [of info "m_qc s"] assms(3)
      by (simp add: multi_part_packet_def ucast_master)
  next
    case (stmt qc2 t m)
    have "multi_part_packet (m_route_info qc) = multi_part_packet (m_route_info qc2)" using stmt(3) by (simp add: multi_part_packet_def)
    then show ?thesis
      using multi_part_classify_stmt [OF stmt(2)] multi_part_begin_update [of info "m_qc s"] assms(3) stmt(3)
        classify_stmt_target [OF stmt(2) assms(2)]
      by (cases "t = TARGET_MASTER"; cases "t = TARGET_ALL") (auto simp: ucast_master)
  qed (use assms(3) in simp)
  then show "\<not> multi_part_packet (route_info s1)"
    and "ucast (m_target (route_info s1)) \<in> {TARGET_MASTER, TARGET_ALL} \<or> trx_is_read_only s1 \<or>
      \<not> trx_is_open s1 \<and> query_type_is_read_only (m_use_sql_variables_in (m_qc s1)) (m_type_mask (route_info s1))"
    by (simp_all add: q trx_is_read_only_def trx_is_open_def)
qed

text \<open>
  C2. A statement that may write reaches primaries only. Take a complete statement without hints,
  in a session of which optimistic transactions are not configured. If it is classified as part of
  a transaction that is not read-only, or as more than a read, and not as a session command, then
  whatever the router does with it - choose or replace the primary, reconnect, delay, replay or
  give up - all servers to which anything is written are primaries.
\<close>

theorem writes_reach_primaries_only:
  assumes "session_ok s" "\<not> optimistic_trx (m_config s)" "gw_hints buffer = []"
    and "\<not> expecting_multi_part_packet (route_info s)"
    and "classify E buffer s = Some s1" "\<not> target_is_all (ucast (m_target (route_info s1)))" "\<not> trx_is_read_only s1"
    and "trx_is_open s1 \<or> \<not> query_type_is_read_only (m_use_sql_variables_in (m_qc s1)) (m_type_mask (route_info s1))"
    and "route_query E buffer s = Some (s', ok)"
  shows "list_all (\<lambda>i. is_master (backend_at s i)) (written_to (new_io s s'))"
proof -
  have s1: "session_ok s1" "m_raw_backends s1 = m_raw_backends s" "m_config s1 = m_config s"
    using classify_results [of s E buffer] assms(1,5) classified_fields [of s s1] by simp_all
  have "\<not> multi_part_packet (route_info s1)" using classify_route(1) [OF assms(5,3,4)] .
  moreover have t: "ucast (m_target (route_info s1)) = TARGET_MASTER"
    using classify_route(2) [OF assms(5,3,4)] assms(6,7,8) by (auto simp: target_defs flag_bits flag_bit)
  ultimately have plan: "plan_route s1 = (TARGET_MASTER, PLAN_NORMAL)"
    using normal_plan [OF s1(1)] assms(2) s1(3) by simp
  then have r: "fst (resolve_route buffer s1) =
      \<lparr>rp_route_target = TARGET_MASTER, rp_target = fst (handle_master_is_target s1), rp_type = PLAN_NORMAL\<rparr>"
    by (simp add: resolve_route_def get_target_def split_beta)
  then have "writes_within (set_option (fst (handle_master_is_target s1))) s s'"
    using route_query_plan [OF assms(5) _ assms(6,9)] by (simp add: need_gtid_probe_def Let_def)
  from writes_within_new_io [OF this] show ?thesis
    using master_target_is_master [OF _ assms(7)] s1(2) by (auto simp: list_all_iff)
qed

section \<open>A statement of a sample session\<close>

definition sample_network :: "u32 \<Rightarrow> sql_op \<Rightarrow> env" where
  "sample_network ty oper = sample_env\<lparr>env_grammar := sample_grammar ty oper []\<rparr>"

definition sample_classified :: "u32 \<Rightarrow> sql_op \<Rightarrow> rws \<Rightarrow> rws" where
  "sample_classified ty oper s =
     (let (h, qc) = classify_packet rws_handler (sample_grammar ty oper []) [] (sample_query []) (sample_info ty oper) (s, m_qc s)
      in h\<lparr>m_qc := qc\<rparr>)"

lemma sample_classify: "classify (sample_network ty oper) (sample_query []) s = Some (sample_classified ty oper s)"
  by (simp add: classify_def update_route_info_def sample_network_def sample_env_def sample_query_info sample_classified_def split_beta)

definition sample_routed :: "u32 \<Rightarrow> sql_op \<Rightarrow> rws \<Rightarrow> (rws \<times> bool) option" where
  "sample_routed ty oper s =
     (let (res, s1) = resolve_route (sample_query []) (sample_classified ty oper s)
      in if can_route_query res (trx_is_ending s) s1 \<and> \<not> need_gtid_probe res s1
         then route_stmt (sample_network ty oper) (sample_query []) res s1 else None)"

lemma sample_route:
  "sample_routed ty oper s = Some p \<Longrightarrow> route_query (sample_network ty oper) (sample_query []) s = Some p"
  by (auto simp: route_query_def sample_classify sample_routed_def Let_def split_beta split: if_splits)

definition sample_writer :: rws where
  "sample_writer = lazy_session\<lparr>m_config := default_config\<lparr>lazy_connect := True, master_reconnection := True\<rparr>\<rparr>"

lemma sample_writer_ok: "session_ok sample_writer" "\<not> optimistic_trx (m_config sample_writer)"
  "\<not> expecting_multi_part_packet (route_info sample_writer)"
  by code_simp+

theorem writes_reach_primaries_only_witness:
  "\<exists>s'. route_query (sample_network TYPE_WRITE OP_INSERT) (sample_query []) sample_writer = Some (s', True) \<and>
     written_to (new_io sample_writer s') = [0] \<and> is_master (backend_at sample_writer 0)"
proof -
  let ?s1 = "sample_classified TYPE_WRITE OP_INSERT sample_writer"
  have "map_option (\<lambda>(s, ok). (written_to (new_io sample_writer s), ok)) (sample_routed TYPE_WRITE OP_INSERT sample_writer) = Some ([0], True)"
    by code_simp
  then obtain s' where s': "sample_routed TYPE_WRITE OP_INSERT sample_writer = Some (s', True)"
    "written_to (new_io sample_writer s') = [0]" by auto
  have c: "\<not> target_is_all (ucast (m_target (route_info ?s1)))" "\<not> trx_is_read_only ?s1"
    "\<not> query_type_is_read_only (m_use_sql_variables_in (m_qc ?s1)) (m_type_mask (route_info ?s1))"
    by code_simp+
  have "gw_hints (sample_query []) = []" by (simp add: sample_query_def)
  from writes_reach_primaries_only [OF sample_writer_ok(1,2) this sample_writer_ok(3) sample_classify c(1,2) disjI2 [OF c(3)] sample_route [OF s'(1)]]
  show ?thesis using sample_route [OF s'(1)] s'(2) by auto
qed

text \<open>
  C3. A transaction stays where it is. As long as a transaction is open and has a target, every
  statement of it that is classified for the primary or for a replica is written to that target or
  not at all, whatever has happened to the servers since. This is about statements without hints
  that are not session commands and not the later packets of a large one, in sessions without
  optimistic transactions. Further exceptions are fetches from an earlier statement, which go to the
  server of that statement, and the probes for the position of the universal causal reads.
\<close>

theorem transaction_stays_on_target:
  assumes "session_ok s" "\<not> optimistic_trx (m_config s)" "causal_reads (m_config s) \<notin> {CR_UNIVERSAL, CR_FAST_UNIVERSAL}"
    and "gw_hints buffer = []" "\<not> expecting_multi_part_packet (route_info s)" "m_wait_gtid s \<noteq> READING_GTID"
    and "classify E buffer s = Some s1" "ucast (m_target (route_info s1)) \<in> {TARGET_MASTER, TARGET_SLAVE}"
    and "\<not> is_ps_continuation (route_info s1)" "trx_is_open s1" "trx_target (m_trx s) = Some t"
    and "route_query E buffer s = Some (s', ok)"
  shows "list_all (\<lambda>i. i = t) (written_to (new_io s s'))"
proof -
  have cl: "classified s s1" using classify_results [of s E buffer] assms(7) by simp
  then have s1: "session_ok s1" "m_config s1 = m_config s" "m_trx s1 = m_trx s" "m_wait_gtid s1 = m_wait_gtid s"
    using assms(1) classified_fields(1) [OF cl] by (auto simp: classified_def)
  have plan: "plan_route s1 = (ucast (m_target (route_info s1)), PLAN_NORMAL)"
    using normal_plan [OF s1(1)] classify_route(1) [OF assms(7,4,5)] assms(2) s1(2) by simp
  have tb: "fst (get_target_backend ty None r s1) \<in> {None, Some t}" for ty r
    using assms(6,10,11) s1(3,4) by (simp add: get_target_backend_def)
  have "fst (get_target buffer (ucast (m_target (route_info s1))) s1) \<in> {None, Some t}"
    using assms(8,9) tb by (auto simp: get_target_def handle_master_is_target_def handle_slave_is_target_def)
  then have "rp_target (fst (resolve_route buffer s1)) \<in> {None, Some t}"
    by (simp add: resolve_route_def plan split_beta)
  moreover have "\<not> need_gtid_probe (fst (resolve_route buffer s1)) (snd (resolve_route buffer s1))"
    using resolve_route_snd [of buffer s1] assms(3) s1(2) by (auto simp: need_gtid_probe_def Let_def)
  moreover have "\<not> target_is_all (ucast (m_target (route_info s1)))" using assms(8) by auto
  ultimately have "writes_within {t} s s'"
    using route_query_plan [OF assms(7) _ _ assms(12)] by (auto intro: writes_within_mono)
  from writes_within_new_io [OF this] show ?thesis by (auto simp: list_all_iff)
qed

definition sample_in_trx :: rws where
  "sample_in_trx = (sample_classified TYPE_BEGIN_TRX OP_UNDEFINED sample_writer)
     \<lparr>m_raw_backends := map (\<lambda>b. b\<lparr>b_state := IN_USE\<rparr>) (m_raw_backends sample_writer),
      m_current_master := Some 0, m_trx := new_trx\<lparr>trx_target := Some 0\<rparr>\<rparr>"

theorem transaction_stays_on_target_witness:
  "\<exists>s'. route_query (sample_network TYPE_WRITE OP_INSERT) (sample_query []) sample_in_trx = Some (s', True) \<and>
     written_to (new_io sample_in_trx s') = [0] \<and> trx_target (m_trx sample_in_trx) = Some 0"
proof -
  let ?s1 = "sample_classified TYPE_WRITE OP_INSERT sample_in_trx"
  have "map_option (\<lambda>(s, ok). (length (written_to (new_io sample_in_trx s)), ok)) (sample_routed TYPE_WRITE OP_INSERT sample_in_trx) = Some (1, True)"
    by code_simp
  then obtain s' where s': "sample_routed TYPE_WRITE OP_INSERT sample_in_trx = Some (s', True)"
    "length (written_to (new_io sample_in_trx s')) = 1" by auto
  have a: "session_ok sample_in_trx" "\<not> optimistic_trx (m_config sample_in_trx)" by code_simp+
  have b: "causal_reads (m_config sample_in_trx) \<notin> {CR_UNIVERSAL, CR_FAST_UNIVERSAL}"
    "\<not> expecting_multi_part_packet (route_info sample_in_trx)" "m_wait_gtid sample_in_trx \<noteq> READING_GTID" by code_simp+
  have c: "ucast (m_target (route_info ?s1)) \<in> {TARGET_MASTER, TARGET_SLAVE}" "\<not> is_ps_continuation (route_info ?s1)"
    "trx_is_open ?s1" "trx_target (m_trx sample_in_trx) = Some 0"
    by code_simp+
  have "gw_hints (sample_query []) = []" by (simp add: sample_query_def)
  from transaction_stays_on_target [OF a b(1) this b(2,3) sample_classify c sample_route [OF s'(1)]]
  show ?thesis using sample_route [OF s'(1)] s'(2) c(4) by (auto simp: length_Suc_conv)
qed

end
