(* ===== verification/Rws_Queue.thy ===== *)
theory Rws_Queue
  imports Rws_Safety
begin

text \<open>
  The statements that wait in the queue of a session, and that routing a statement always has a
  result: \<^const>\<open>route_query\<close> is partial because packets and the queue are read without checks, and the
  lemmas ending in \<open>_gives\<close> show for each step that complete requests are read within their bounds.
  The lemmas \<open>keeps_\<close> say what a step leaves alone.
\<close>

section \<open>Partial operations that have a result\<close>

definition gives :: "('a \<Rightarrow> bool) \<Rightarrow> 'a option \<Rightarrow> bool" where
  "gives P x = (case x of Some y \<Rightarrow> P y | None \<Rightarrow> False)"

lemma gives_simps [simp]:
  "gives P (Some y) = P y" "\<not> gives P None" "gives P (x \<bind> f) \<longleftrightarrow> gives (\<lambda>y. gives P (f y)) x"
  "gives P (map_option h x) \<longleftrightarrow> gives (P \<circ> h) x"
  by (cases x; simp add: gives_def)+

lemma gives_mono: "gives P x \<Longrightarrow> (\<And>y. P y \<Longrightarrow> Q y) \<Longrightarrow> gives Q x"
  by (cases x) auto

lemma gives_True: "gives (\<lambda>_. True) x \<longleftrightarrow> x \<noteq> None"
  by (cases x) auto

lemma gives_obtain: "gives P x \<Longrightarrow> (\<And>y. x = Some y \<Longrightarrow> P y \<Longrightarrow> thesis) \<Longrightarrow> thesis"
  by (cases x) auto

section \<open>What routing leaves alone\<close>

definition keeps :: "rws \<Rightarrow> rws \<Rightarrow> bool" where
  "keeps s s' \<longleftrightarrow>
     route_info s' = route_info s \<and> m_query_queue s' = m_query_queue s \<and>
     (m_wait_gtid s' = READING_GTID \<longrightarrow> m_wait_gtid s = READING_GTID)"

lemma keeps_refl [simp]: "keeps s s"
  by (simp add: keeps_def)

lemma keeps_fields [simp]:
  "keeps s (t\<lparr>m_retry_duration := x0\<rparr>) = keeps s t"
  "keeps s (t\<lparr>m_prev_plan := x1\<rparr>) = keeps s t"
  "keeps s (t\<lparr>m_current_master := x2\<rparr>) = keeps s t"
  "keeps s (t\<lparr>m_sescmd_replier := x3\<rparr>) = keeps s t"
  "keeps s (t\<lparr>m_expected_responses := x4\<rparr>) = keeps s t"
  "keeps s (t\<lparr>m_set_trx := x5\<rparr>) = keeps s t"
  "keeps s (t\<lparr>m_current_query := x6\<rparr>) = keeps s t"
  "keeps s (t\<lparr>m_trx := x7\<rparr>) = keeps s t"
  by (simp_all add: keeps_def)

lemma keeps_trans: "keeps s t \<Longrightarrow> keeps t u \<Longrightarrow> keeps s u"
  by (auto simp: keeps_def)

lemma keeps_only_backends: "only_backends s s' \<Longrightarrow> keeps s s'"
  using only_backends_fields(5,6,12) by (simp add: keeps_def)

lemma keeps_start_trx_replay: "keeps s (fst (start_trx_replay E s))"
  by (simp add: keeps_def) (simp add: start_trx_replay_def Let_def pop_stmt_def retry_query_def emit_def)

lemma master_replaced_route_info [simp]: "m_route_info (master_replaced qc) = m_route_info qc"
  by (simp add: master_replaced_def)

lemma keeps_discard: "keeps s (discard_connection t s)"
  by (simp add: keeps_def discard_connection_def Let_def only_backends_ops [THEN only_backends_fields(12)] split: option.splits)

lemma keeps_retry: "keeps s (retry_query b d s)"
  by (simp add: keeps_def) (simp add: retry_query_def emit_def)

lemma set_response_qc [simp]: "m_qc (set_response r s) = m_qc s" "m_wait_gtid (set_response r s) = m_wait_gtid s"
  by (simp_all add: set_response_def)

lemma keeps_response: "keeps s (set_response r s)"
  by (simp add: keeps_def set_response_def)

lemmas keeps_prims = keeps_start_trx_replay keeps_discard keeps_retry keeps_response

lemma keeps_routing_failed: "keeps s (fst (routing_failed E old b s))"
proof -
  have "keeps s (fst (start_trx_migration E b (discard_connection t s)))" for t
    unfolding start_trx_migration_def
    by (rule keeps_trans [OF keeps_discard [of _ t]], rule keeps_trans [OF _ keeps_start_trx_replay]) (simp add: keeps_def)
  then show ?thesis
    by (simp add: routing_failed_def keeps_prims keeps_trans [OF keeps_response keeps_discard])
qed

lemma keeps_reuse: "keeps s (fst (reuse_prepared_stmt b s))"
  by (simp add: reuse_prepared_stmt_def keeps_prims split: option.splits)

lemma ps_route_info [simp]:
  "m_route_info (ps_store G b i qc) = m_route_info qc" "m_route_info (ps_erase G b qc) = m_route_info qc"
  by (simp_all add: ps_store_def ps_erase_def)

lemma keeps_got_target_statement: "keeps s (snd (snd (snd (got_target_statement E b i st s))))"
  by (simp add: keeps_def got_target_statement_def Let_def split_beta add_prefix_wait_gtid_def)

lemma keeps_track_trx_target: "keeps s (track_trx_target i s)"
  by (simp add: keeps_def track_trx_target_def)

lemma keeps_store_statement: "keeps s (store_statement b s)"
  by (simp add: keeps_def store_statement_def Let_def)

lemma keeps_sync: "keeps s (send_sync_query E i s)"
  unfolding send_sync_query_def Let_def
  by (rule keeps_trans [OF _ keeps_only_backends [OF only_backends_prims(3)]]) (simp add: keeps_def)

lemma keeps_step: "keeps s t \<Longrightarrow> keeps t u \<Longrightarrow> keeps s (if c then u else t)"
  by (auto intro: keeps_trans)

lemma keeps_got_target: "keeps s (fst (handle_got_target E b i st s))"
  unfolding handle_got_target_def Let_def split_beta
  by (rule keeps_trans [OF _ keeps_only_backends [OF only_backends_prims(3)]],
      rule keeps_step [OF _ keeps_sync], rule keeps_trans [OF _ keeps_track_trx_target],
      rule keeps_step, rule keeps_step, rule keeps_step [OF keeps_got_target_statement keeps_store_statement])
    (simp_all add: keeps_def)

lemma keeps_track_optimistic: "keeps s (snd (track_optimistic_trx b res s))"
  by (simp add: keeps_def track_optimistic_trx_def split: plan_type.splits)

lemma keeps_prepare_target: "keeps s (fst (prepare_target E i s))"
  by (rule keeps_only_backends [OF only_backends_prepare_target])

lemma keeps_route_to_target: "keeps s (fst (route_to_target E b res i s))"
proof -
  let ?p = "track_optimistic_trx b res s"
  let ?q = "prepare_target E i ((snd ?p)\<lparr>m_retry_duration := 0\<rparr>)"
  have q: "keeps s (fst ?q)"
    by (rule keeps_trans [OF keeps_track_optimistic [of s b res] keeps_trans [OF _ keeps_prepare_target]]) simp
  have "keeps s (fst (handle_got_target E (fst ?p) i st (fst ?q)))" for st
    by (rule keeps_trans [OF q keeps_got_target])
  then show ?thesis
    using q by (auto simp: route_to_target_def Let_def split_beta intro: keeps_trans)
qed

lemma keeps_replace_master: "keeps s (replace_master i s)"
  using keeps_discard [of s "m_current_master s"] by (simp add: keeps_def replace_master_def)

lemma keeps_single_target: "keeps s (snd (single_target res s))"
  by (simp add: single_target_def Let_def keeps_replace_master)

lemma keeps_create_one: "keeps s (fst (create_one_connection_for_sescmd E s))"
proof -
  have slave: "keeps t (snd (get_slave_backend r t))" for r t
    by (simp add: keeps_def) (simp add: get_slave_backend_def Let_def)
  have conn: "keeps t (fst (prepare_target E i (snd (get_slave_backend r t))))" for i r t
    by (rule keeps_trans [OF slave keeps_prepare_target])
  have repl: "keeps s (replace_master i (fst (prepare_target E i s)))" for i
    by (rule keeps_trans [OF keeps_prepare_target keeps_replace_master])
  have again: "keeps s t \<Longrightarrow> keeps s (fst (prepare_target E i (snd (get_slave_backend r t))))" for i r t
    using conn keeps_trans by blast
  have slave': "keeps s t \<Longrightarrow> keeps s (snd (get_slave_backend r t))" for r t
    using slave keeps_trans by blast
  show ?thesis
    by (simp add: create_one_connection_for_sescmd_def Let_def split_beta repl again slave' keeps_prepare_target split: option.splits)
qed

lemma keeps_track_prepared: "keeps s (track_prepared_stmts E b s)"
  by (simp add: keeps_def) (simp add: track_prepared_stmts_def Let_def)

lemma keeps_session_command_sent: "keeps s (session_command_sent E b s)"
  by (simp add: session_command_sent_def Let_def keeps_track_prepared)

lemma keeps_route_session_write: "keeps s (fst (route_session_write E b s))"
proof -
  define s1 where "s1 = (if (\<not> have_open_connections s \<or> need_master_for_sescmd s) \<and> can_recover_servers s
     then fst (create_one_connection_for_sescmd E s) else s)"
  define s2 where "s2 = s1\<lparr>m_sescmd_replier := choose_replier s1\<rparr>"
  define w where "w = write_session_commands E b (backend_ids s2) s2 True"
  define p where "p = (if m_sescmd_replier s2 \<noteq> None then (if snd w then session_command_sent E b (fst w) else fst w, snd w) else (s2, False))"
  have s2: "keeps s s2" by (simp add: s2_def s1_def keeps_create_one)
  have w: "keeps s2 (fst w)" unfolding w_def by (rule keeps_only_backends [OF only_backends_write_session_commands])
  have "keeps s (fst p)" unfolding p_def
    using s2 keeps_trans [OF s2 w] keeps_trans [OF keeps_trans [OF s2 w] keeps_session_command_sent] by simp
  moreover have "route_session_write E b s =
      (if (\<not> have_open_connections s \<or> need_master_for_sescmd s) \<and> m_command (route_info s) = MXS_COM_QUIT then (s, True)
       else if \<not> snd p \<and> (can_retry_query (fst p) \<or> can_continue_trx_replay (fst p)) then (retry_query b 1 (fst p), True)
       else (fst p, snd p))"
    unfolding p_def w_def s2_def s1_def route_session_write_def Let_def split_beta by (rule refl)
  ultimately show ?thesis using keeps_trans [OF _ keeps_retry] by simp
qed

lemma keeps_target_is_all: "keeps s (fst (handle_target_is_all E b res s))"
  by (simp add: handle_target_is_all_def Let_def split_beta keeps_route_session_write
      keeps_only_backends [OF only_backends_continue_large])

section \<open>Routing always ends with a result\<close>

text \<open>
  A request that fits one packet and holds what its command needs. Statements that are retried
  and those of the router itself are such requests.
\<close>

definition complete_request :: "gwbuf \<Rightarrow> bool" where
  "complete_request b \<longleftrightarrow>
     5 \<le> length (gw_data b) \<and> length (gw_data b) < MYSQL_HEADER_LEN + GW_MYSQL_MAX_PACKET_LEN \<and>
     (mxs_mysql_is_ps_command (gw_data b ! MYSQL_HEADER_LEN) \<longrightarrow> 9 \<le> length (gw_data b))"

definition between_requests :: "rws \<Rightarrow> bool" where
  "between_requests s \<longleftrightarrow> \<not> expecting_multi_part_packet (route_info s)"

lemma get_byte4_Some: "4 \<le> length xs \<Longrightarrow> \<exists>v. get_byte4 xs = Some v"
  by (simp add: get_byte4_def read_le_def)

lemma query_not_supported_gives:
  assumes "mxs_mysql_is_ps_command (m_command (route_info s)) \<longrightarrow> 9 \<le> length (gw_data b)"
  shows "gives (\<lambda>p. keeps s (fst p) \<and> m_wait_gtid (fst p) = m_wait_gtid s) (query_not_supported b s)"
proof -
  have "extract_binary_ps_id (gw_data b) \<noteq> None" if "mxs_mysql_is_ps_command (m_command (route_info s))"
    using assms that get_byte4_Some [of "drop 5 (gw_data b)"] by (auto simp: extract_binary_ps_id_def)
  then show ?thesis
    by (cases "mxs_mysql_is_ps_command (m_command (route_info s)) \<and> m_stmt_id (route_info s) = 0")
      (simp_all add: query_not_supported_def Let_def keeps_response gives_True)
qed

text \<open>The statement that the router probes the position for is at the front of the queue.\<close>

definition probe_queued :: "rws \<Rightarrow> bool" where
  "probe_queued s \<longleftrightarrow> (m_wait_gtid s = READING_GTID \<longrightarrow> m_query_queue s \<noteq> [])"

definition routes :: "rws \<Rightarrow> rws \<Rightarrow> bool" where
  "routes s s' \<longleftrightarrow>
     expecting_multi_part_packet (route_info s') = expecting_multi_part_packet (route_info s) \<and>
     (m_query_queue s' = m_query_queue s \<and> (m_wait_gtid s' = READING_GTID \<longrightarrow> m_wait_gtid s = READING_GTID) \<or>
      m_wait_gtid s = READING_GTID \<and> m_wait_gtid s' \<noteq> READING_GTID \<and> m_query_queue s' = tl (m_query_queue s))"

lemma handle_routing_failure_gives:
  assumes "probe_queued s"
  shows "gives (\<lambda>p. routes s (fst p)) (handle_routing_failure E b s)"
proof (cases "m_wait_gtid s = READING_GTID")
  case True
  with assms obtain q qs where q: "m_query_queue s = q # qs" by (cases "m_query_queue s") (auto simp: probe_queued_def)
  show ?thesis
    using True q keeps_routing_failed [of "s\<lparr>m_query_queue := qs, m_wait_gtid := WG_NONE\<rparr>" E READING_GTID q]
    by (simp add: handle_routing_failure_def reset_gtid_probe_def keeps_def routes_def)
next
  case False
  then show ?thesis
    using keeps_routing_failed [of s E "m_wait_gtid s" b] by (auto simp: handle_routing_failure_def keeps_def routes_def)
qed

lemma keeps_routes: "keeps s s' \<Longrightarrow> routes s s'"
  by (simp add: keeps_def routes_def)

lemma keeps_routes_trans: "keeps s t \<Longrightarrow> m_wait_gtid t = m_wait_gtid s \<Longrightarrow> routes t u \<Longrightarrow> routes s u"
  by (auto simp: keeps_def routes_def)

lemma route_single_stmt_gives:
  assumes "probe_queued s"
  shows "gives (\<lambda>p. routes s (fst p)) (route_single_stmt E b res s)"
proof -
  let ?t = "snd (single_target res s)"
  have k: "keeps s ?t" by (rule keeps_single_target)
  have w: "m_wait_gtid ?t = m_wait_gtid s"
    by (simp add: single_target_def Let_def replace_master_def discard_connection_def only_backends_ops [THEN only_backends_fields(12)] split: option.splits)
  have "probe_queued ?t" using assms k w by (simp add: probe_queued_def keeps_def)
  then have "gives (\<lambda>p. routes ?t (fst p)) (handle_routing_failure E b ?t)"
    by (rule handle_routing_failure_gives)
  then have "gives (\<lambda>p. routes ?t (fst p)) (route_single_stmt E b res s)"
    by (auto simp: route_single_stmt_def split_beta keeps_routes [OF keeps_route_to_target] split: option.splits)
  from gives_mono [OF this keeps_routes_trans [OF k w]] show ?thesis .
qed

lemma route_stmt_gives:
  assumes "probe_queued s" "mxs_mysql_is_ps_command (m_command (route_info s)) \<longrightarrow> 9 \<le> length (gw_data b)"
  shows "gives (\<lambda>p. routes s (fst p)) (route_stmt E b res s)"
proof -
  define u where "u = (if reuse_ps (m_config s) then reuse_prepared_stmt b s else (s, False))"
  have u: "keeps s (fst u)" "route_info (fst u) = route_info s" "m_wait_gtid (fst u) = m_wait_gtid s"
    by (auto simp: u_def keeps_response reuse_prepared_stmt_def split: option.splits)
  have q: "gives (\<lambda>p. keeps (fst u) (fst p) \<and> m_wait_gtid (fst p) = m_wait_gtid (fst u)) (query_not_supported b (fst u))"
    using query_not_supported_gives [of "fst u" b] assms(2) u(2) by simp
  have r: "gives (\<lambda>p. routes (fst u) (fst p))
      (if snd p then Some (fst p, True)
       else if t then Some (handle_target_is_all E b res (fst p)) else route_single_stmt E b res (fst p))"
    if p: "keeps (fst u) (fst p) \<and> m_wait_gtid (fst p) = m_wait_gtid (fst u)" for p t
  proof -
    have "probe_queued (fst p)" using assms(1) p u by (simp add: probe_queued_def keeps_def)
    from gives_mono [OF route_single_stmt_gives [OF this] keeps_routes_trans [OF conjunct1 [OF p] conjunct2 [OF p]]]
    have "gives (\<lambda>q. routes (fst u) (fst q)) (route_single_stmt E b res (fst p))" .
    then show ?thesis using p keeps_routes [OF keeps_trans [OF _ keeps_target_is_all]] keeps_routes by simp
  qed
  have "gives (\<lambda>p. routes (fst u) (fst p)) (route_stmt E b res s)"
    using keeps_routes [OF keeps_refl] gives_mono [OF q r]
    by (simp add: route_stmt_def Let_def split_beta flip: u_def)
  from gives_mono [OF this keeps_routes_trans [OF u(1,3)]] show ?thesis .
qed

subsection \<open>Classification\<close>

lemma expecting_set_if [simp]:
  "expecting_multi_part_packet (set_if PS_CONTINUATION v ri) = expecting_multi_part_packet ri"
  "expecting_multi_part_packet (set_if TRX_IS_READ_ONLY v ri) = expecting_multi_part_packet ri"
  by (auto simp: expecting_multi_part_packet_def set_if_def flag_bits flag_bit bit_simps)

lemma expecting_update_trx [simp]:
  "expecting_multi_part_packet (m_route_info (update_trx_still_read_only m qc)) = expecting_multi_part_packet (m_route_info qc)"
  by (simp add: update_trx_still_read_only_def Let_def)

lemma expecting_classify_stmt:
  assumes "classify_stmt H G db buf info i (h, qc) = (h', qc', t, m)"
  shows "expecting_multi_part_packet (m_route_info qc') = expecting_multi_part_packet (m_route_info qc)"
proof -
  have "expecting_multi_part_packet (m_route_info (snd (snd (resolve_ps G b info' i' ro m' qc1)))) = expecting_multi_part_packet (m_route_info qc1)" for b info' i' ro m' qc1
    by (simp add: resolve_ps_def split: option.splits)
  moreover have "m_route_info (fst (snd (classify_type H G db (gw_data buf) info locked ro (h, qc)))) = m_route_info qc" for locked ro
    using core_classify_type [of H G db "gw_data buf" info locked ro h qc] core_D by (metis prod.collapse)
  ultimately show ?thesis
    using assms unfolding classify_stmt_def Let_def split_beta by (auto split: if_splits)
qed

lemma expecting_begin_update:
  "expecting_multi_part_packet (m_route_info (begin_update info qc)) = qi_multi_part_packet info"
  by (auto simp: begin_update_def Let_def set_multi_part_packet_def set_if_def route_flag_defs flag_bits flag_bit bit_simps)

lemma classify_packet_between:
  assumes "classify_packet H G db b info (h, qc) = (h', qc')" "\<not> expecting_multi_part_packet (m_route_info qc)"
    and "\<not> qi_multi_part_packet info"
  shows "\<not> expecting_multi_part_packet (m_route_info qc') \<and> m_command (m_route_info qc') = ucast (qi_command info)"
  using assms(1)
proof (cases rule: classify_packet_cases)
  case (stmt qc2 t m)
  then show ?thesis using expecting_classify_stmt [OF stmt(2)] assms(3) expecting_begin_update [of info qc]
    by (simp add: finish_route_info_def expecting_multi_part_packet_def)
qed (use assms(2,3) expecting_begin_update [of info qc] in \<open>simp_all add: finish_route_info_def expecting_multi_part_packet_def\<close>)

lemma complete_request_info:
  assumes "complete_request b"
  obtains info where "get_query_info G (gw_data b) = Some info" "\<not> qi_multi_part_packet info"
    "qi_command info = ucast (gw_data b ! MYSQL_HEADER_LEN)"
  using assms that
  by (auto simp: complete_request_def get_query_info_def helper_get_query_info_def Let_def split_beta new_query_info_def
      split: option.splits)

lemma ucast_u8 [simp]: "ucast (ucast (x :: u8) :: u32) = x"
  by (simp add: bit_eq_iff bit_simps)

lemma classify_gives:
  assumes "complete_request b" "between_requests s"
  shows "gives (\<lambda>s1. classified s s1 \<and> between_requests s1 \<and> m_command (route_info s1) = gw_data b ! MYSQL_HEADER_LEN \<and>
    m_prev_route_info (m_qc s1) = route_info s) (classify E b s)"
proof -
  obtain info where info: "get_query_info (env_grammar E) (gw_data b) = Some info" "\<not> qi_multi_part_packet info"
    "qi_command info = ucast (gw_data b ! MYSQL_HEADER_LEN)"
    using complete_request_info [OF assms(1)] .
  obtain h qc where c: "classify_packet rws_handler (env_grammar E) (env_db E) b info (s, m_qc s) = (h, qc)"
    by (metis prod.collapse)
  then have "classify E b s = Some (h\<lparr>m_qc := qc\<rparr>)" by (simp add: classify_def update_route_info_def info)
  moreover have "classified s (h\<lparr>m_qc := qc\<rparr>)" using classify_results [of s E b] calculation by simp
  ultimately show ?thesis
    using classify_packet_between [OF c _ info(2)] update_changed [OF c] assms(2) info(3)
    by (simp add: between_requests_def)
qed

lemma revert_route_info [simp]: "m_route_info (revert_update qc) = m_prev_route_info qc"
  by (simp add: revert_update_def)

lemma probe_request: "complete_request (add_hint ROUTE_TO_MASTER (query_buffer ''SELECT @@gtid_current_pos''))"
  by (simp add: complete_request_def add_hint_def query_buffer_def create_query_def write_header_def str_bytes_def
      mxs_mysql_is_ps_command_def)

lemma handle_master_is_target_state [simp]: "snd (handle_master_is_target s) = s"
  by (simp add: handle_master_is_target_def get_target_backend_def)

text \<open>From an empty queue, a request is dealt with or put into the queue.\<close>

definition routed_or_queued :: "gwbuf \<Rightarrow> rws \<Rightarrow> bool" where
  "routed_or_queued b s' \<longleftrightarrow> between_requests s' \<and> probe_queued s' \<and> m_query_queue s' \<in> {[], [b]}"

lemma start_gtid_probe_gives:
  assumes "between_requests s"
  shows "gives (\<lambda>(b, res, s1). between_requests s1 \<and> m_wait_gtid s1 = READING_GTID \<and> m_query_queue s1 = m_query_queue s \<and>
      \<not> mxs_mysql_is_ps_command (m_command (route_info s1))) (start_gtid_probe E s)"
proof -
  let ?b = "add_hint ROUTE_TO_MASTER (query_buffer ''SELECT @@gtid_current_pos'')"
  have "between_requests (s\<lparr>m_wait_gtid := READING_GTID\<rparr>)" using assms by (simp add: between_requests_def)
  from classify_gives [OF probe_request this, of E] obtain s1 where
    s1: "classify E ?b (s\<lparr>m_wait_gtid := READING_GTID\<rparr>) = Some s1" "classified (s\<lparr>m_wait_gtid := READING_GTID\<rparr>) s1"
      "between_requests s1" "m_command (route_info s1) = gw_data ?b ! MYSQL_HEADER_LEN"
    by (rule gives_obtain) blast
  have "\<not> mxs_mysql_is_ps_command (m_command (route_info s1))"
    unfolding s1(4) by (simp add: add_hint_def query_buffer_def create_query_def write_header_def mxs_mysql_is_ps_command_def nth_append)
  moreover obtain stale where "snd (resolve_route ?b s1) = s1\<lparr>m_check_stale := stale\<rparr>" using resolve_route_snd by blast
  ultimately show ?thesis
    using s1 by (auto simp: start_gtid_probe_def Let_def split_beta between_requests_def classified_def)
qed

lemma route_query_cases:
  assumes "complete_request b" "between_requests s" "m_wait_gtid s \<noteq> READING_GTID"
  obtains s3 res where "between_requests s3" "m_wait_gtid s3 = m_wait_gtid s" "m_query_queue s3 = m_query_queue s"
    "m_config s3 = m_config s" "m_expected_responses s3 = m_expected_responses s" "m_prev_route_info (m_qc s3) = route_info s"
    "\<And>res. gives (\<lambda>p. routes s3 (fst p)) (route_stmt E b res s3)"
    "route_query E b s =
      (if can_route_query res (trx_is_ending s) s3 then
         (if need_gtid_probe res s3
          then start_gtid_probe E (s3\<lparr>m_qc := revert_update (m_qc s3), m_query_queue := b # m_query_queue s3\<rparr>)
          else Some (b, res, s3)) \<bind> (\<lambda>(b, res, s). route_stmt E b res s)
       else Some (s3\<lparr>m_qc := revert_update (m_qc s3), m_query_queue := m_query_queue s3 @ [b]\<rparr>, True))"
proof -
  from classify_gives [OF assms(1,2), of E] obtain s1 where
    s1: "classify E b s = Some s1" "classified s s1" "between_requests s1" "m_command (route_info s1) = gw_data b ! MYSQL_HEADER_LEN"
      "m_prev_route_info (m_qc s1) = route_info s"
    by (rule gives_obtain) blast
  obtain stale where s2: "snd (resolve_route b s1) = s1\<lparr>m_check_stale := stale\<rparr>" using resolve_route_snd by blast
  let ?s3 = "s1\<lparr>m_check_stale := stale\<rparr>"
  have f: "m_wait_gtid s1 = m_wait_gtid s" "m_query_queue s1 = m_query_queue s" "m_config s1 = m_config s"
    "m_expected_responses s1 = m_expected_responses s" using s1(2) by (auto simp: classified_def)
  have "gives (\<lambda>p. routes ?s3 (fst p)) (route_stmt E b res ?s3)" for res
    by (rule route_stmt_gives) (use assms f s1(4) in \<open>auto simp: probe_queued_def complete_request_def\<close>)
  then show thesis
    by (rule that [of ?s3 "fst (resolve_route b s1)", rotated 6])
      (use f s1(3,5) in \<open>simp_all add: between_requests_def route_query_def s1(1) s2 Let_def split_beta\<close>)
qed

lemma route_query_gives:
  assumes "complete_request b" "between_requests s" "m_wait_gtid s \<noteq> READING_GTID" "m_query_queue s = []"
  shows "gives (\<lambda>p. routed_or_queued b (fst p)) (route_query E b s)"
  using assms(1-3)
proof (rule route_query_cases [where E = E])
  fix s3 res
  assume s3: "between_requests s3" "m_wait_gtid s3 = m_wait_gtid s" "m_query_queue s3 = m_query_queue s"
    "m_prev_route_info (m_qc s3) = route_info s"
    and r: "\<And>res. gives (\<lambda>p. routes s3 (fst p)) (route_stmt E b res s3)"
    and eq: "route_query E b s =
      (if can_route_query res (trx_is_ending s) s3 then
         (if need_gtid_probe res s3
          then start_gtid_probe E (s3\<lparr>m_qc := revert_update (m_qc s3), m_query_queue := b # m_query_queue s3\<rparr>)
          else Some (b, res, s3)) \<bind> (\<lambda>(b, res, s). route_stmt E b res s)
       else Some (s3\<lparr>m_qc := revert_update (m_qc s3), m_query_queue := m_query_queue s3 @ [b]\<rparr>, True))"
  let ?s4 = "s3\<lparr>m_qc := revert_update (m_qc s3), m_query_queue := b # m_query_queue s3\<rparr>"
  have "routes s3 u \<Longrightarrow> routed_or_queued b u" for u
    using s3 assms(3,4) by (auto simp: routes_def routed_or_queued_def between_requests_def probe_queued_def)
  note direct = gives_mono [OF r this]
  have b4: "between_requests ?s4" using s3(4) assms(2) by (simp add: between_requests_def)
  have p: "gives (\<lambda>p. routed_or_queued b (fst p)) (case x of (b, res, s) \<Rightarrow> route_stmt E b res s)"
    if "case x of (b, res, s1) \<Rightarrow> between_requests s1 \<and> m_wait_gtid s1 = READING_GTID \<and> m_query_queue s1 = m_query_queue ?s4 \<and>
      \<not> mxs_mysql_is_ps_command (m_command (route_info s1))" for x
  proof -
    have "gives (\<lambda>p. routes (snd (snd x)) (fst p)) (case x of (b, res, s) \<Rightarrow> route_stmt E b res s)"
      unfolding split_beta by (rule route_stmt_gives) (use that in \<open>auto simp: probe_queued_def\<close>)
    moreover have "routes (snd (snd x)) u \<Longrightarrow> routed_or_queued b u" for u
      using that s3(3) assms(4) by (auto simp: routes_def routed_or_queued_def between_requests_def probe_queued_def)
    ultimately show ?thesis by (rule gives_mono)
  qed
  have "routed_or_queued b (s3\<lparr>m_qc := revert_update (m_qc s3), m_query_queue := m_query_queue s3 @ [b]\<rparr>)"
    using s3 assms(2,4) by (simp add: routed_or_queued_def between_requests_def probe_queued_def)
  then show ?thesis
    using direct gives_mono [OF start_gtid_probe_gives [OF b4, of E] p] unfolding eq by simp
qed

lemma idle_route_query_gives:
  assumes "complete_request b" "between_requests s" "m_wait_gtid s \<noteq> READING_GTID"
    and "m_expected_responses s = 0" "causal_reads (m_config s) \<notin> {CR_UNIVERSAL, CR_FAST_UNIVERSAL}"
  shows "gives (\<lambda>p. m_query_queue (fst p) = m_query_queue s) (route_query E b s)"
  using assms(1-3)
proof (rule route_query_cases [where E = E])
  fix s3 res
  assume s3: "m_wait_gtid s3 = m_wait_gtid s" "m_query_queue s3 = m_query_queue s"
    "m_config s3 = m_config s" "m_expected_responses s3 = m_expected_responses s"
    and r: "\<And>res. gives (\<lambda>p. routes s3 (fst p)) (route_stmt E b res s3)"
    and eq: "route_query E b s =
      (if can_route_query res (trx_is_ending s) s3 then
         (if need_gtid_probe res s3
          then start_gtid_probe E (s3\<lparr>m_qc := revert_update (m_qc s3), m_query_queue := b # m_query_queue s3\<rparr>)
          else Some (b, res, s3)) \<bind> (\<lambda>(b, res, s). route_stmt E b res s)
       else Some (s3\<lparr>m_qc := revert_update (m_qc s3), m_query_queue := m_query_queue s3 @ [b]\<rparr>, True))"
  have "can_route_query res (trx_is_ending s) s3" "\<not> need_gtid_probe res s3"
    using assms(4,5) s3 by (auto simp: can_route_query_def need_gtid_probe_def Let_def)
  then have "route_query E b s = route_stmt E b res s3" by (simp add: eq)
  then show ?thesis using gives_mono [OF r] s3 assms(3) by (auto simp: routes_def)
qed

section \<open>The stored statements\<close>

lemma routeQuery_gives:
  assumes "complete_request b" "between_requests s" "m_wait_gtid s \<noteq> READING_GTID" "m_query_queue s = []"
  shows "gives (\<lambda>p. routed_or_queued b (fst p)) (routeQuery E b s)"
proof -
  have "\<not> buf_empty b" using assms(1) by (auto simp: complete_request_def buf_empty_def)
  moreover have "routed_or_queued b (s\<lparr>m_query_queue := [b]\<rparr>)"
    using assms(2) by (simp add: routed_or_queued_def between_requests_def probe_queued_def)
  ultimately show ?thesis using route_query_gives [OF assms] by (simp add: routeQuery_def assms(4))
qed

text \<open>
  One statement after the other, each from an empty queue; there is no result if one of them is
  put into the queue again.
\<close>

fun route_each :: "env \<Rightarrow> gwbuf list \<Rightarrow> rws \<Rightarrow> bool \<Rightarrow> (rws \<times> bool) option" where
  "route_each E [] s ok = Some (s\<lparr>m_query_queue := []\<rparr>, ok)"
| "route_each E (q # qs) s ok =
     do {
       (s, r) \<leftarrow> routeQuery E q (s\<lparr>m_query_queue := []\<rparr>);
       if m_query_queue s = [] then route_each E qs s (ok \<and> r) else None
     }"

text \<open>
  The first \<open>n\<close> statements are routed, and none of them waits. If there is a next one, it waits
  again, and the queue consists of it and those behind it.
\<close>

definition stops_at :: "env \<Rightarrow> gwbuf list \<Rightarrow> rws \<Rightarrow> bool \<Rightarrow> nat \<Rightarrow> rws \<times> bool \<Rightarrow> bool" where
  "stops_at E qs s ok n p \<longleftrightarrow>
     n \<le> length qs \<and>
     gives (\<lambda>(s1, ok1).
       if n = length qs then p = (s1, ok1)
       else gives (\<lambda>(s2, ok2). m_query_queue s2 = [qs ! n] \<and> p = (s2\<lparr>m_query_queue := drop n qs\<rparr>, ok1 \<and> ok2))
              (routeQuery E (qs ! n) s1))
     (route_each E (take n qs) s ok)"

lemma stops_at_Cons:
  assumes "routeQuery E b (s\<lparr>m_query_queue := []\<rparr>) = Some p" "m_query_queue (fst p) = []"
    and "stops_at E qs (fst p) (ok \<and> snd p) n q"
  shows "stops_at E (b # qs) s ok (Suc n) q"
  using assms by (cases p) (simp add: stops_at_def split del: if_split cong: if_cong)

lemma route_stored_gives:
  assumes "list_all complete_request qs" "between_requests s" "m_wait_gtid s \<noteq> READING_GTID"
  shows "gives (\<lambda>p. \<exists>n. m_query_queue (fst p) = drop n qs \<and> stops_at E qs s ok n p) (route_stored E qs s ok)"
  using assms
proof (induction qs arbitrary: s ok)
  case (Cons b qs)
  let ?s = "s\<lparr>m_query_queue := []\<rparr>"
  have "gives (\<lambda>p. routed_or_queued b (fst p)) (routeQuery E b ?s)"
    by (rule routeQuery_gives) (use Cons.prems in \<open>simp_all add: between_requests_def\<close>)
  then obtain p where p: "routeQuery E b ?s = Some p" "routed_or_queued b (fst p)" by (rule gives_obtain)
  show ?case
  proof (cases "m_query_queue (fst p) = []")
    case True
    with p(2) Cons.prems(1) have
      "gives (\<lambda>q. \<exists>n. m_query_queue (fst q) = drop n qs \<and> stops_at E qs (fst p) (ok \<and> snd p) n q)
         (route_stored E qs (fst p) (ok \<and> snd p))"
      by (intro Cons.IH) (auto simp: routed_or_queued_def probe_queued_def)
    then obtain q n where q: "route_stored E qs (fst p) (ok \<and> snd p) = Some q" "m_query_queue (fst q) = drop (Suc n) (b # qs)"
      "stops_at E (b # qs) s ok (Suc n) q"
      using stops_at_Cons [OF p(1) True] by (auto elim: gives_obtain)
    then show ?thesis using p(1) True by (auto simp: split_beta intro!: exI [of _ "Suc n"])
  next
    case False
    with p have w: "m_query_queue (fst p) = [b]" by (auto simp: routed_or_queued_def)
    then have "stops_at E (b # qs) s ok 0 ((fst p)\<lparr>m_query_queue := b # qs\<rparr>, ok \<and> snd p)"
      using p(1) by (simp add: stops_at_def split_beta)
    then show ?thesis using p(1) w by (auto simp: split_beta intro!: exI [of _ 0])
  qed
qed (simp add: stops_at_def)

text \<open>
  C6. Statements that have to wait are routed in the order in which they came and none of them
  is lost. If the waiting statements are complete requests and the session is not in the middle of
  another one or of a probe for the position, then routing them has a result, without any access
  outside of a packet or an empty queue: the first \<open>n\<close> of them are routed one after the other and
  none of these has to wait, the next one, if there is any, has to wait again, and exactly this one
  and those behind it remain in the queue.
\<close>

theorem stored_queries_in_order:
  assumes "list_all complete_request (m_query_queue s)" "between_requests s" "m_wait_gtid s \<noteq> READING_GTID"
  shows "\<exists>s' ok n. route_stored_query E s = Some (s', ok) \<and>
    stops_at E (m_query_queue s) s True n (s', ok) \<and> m_query_queue s' = drop n (m_query_queue s)"
  using route_stored_gives [OF assms, of E True] by (auto simp: route_stored_query_def elim!: gives_obtain)

definition sample_waiting :: rws where
  "sample_waiting = sample_writer\<lparr>m_query_queue := [sample_query []]\<rparr>"

lemma sample_waiting_ok:
  "list_all complete_request (m_query_queue sample_waiting)" "between_requests sample_waiting" "m_wait_gtid sample_waiting \<noteq> READING_GTID"
proof -
  show "list_all complete_request (m_query_queue sample_waiting)"
    by (simp add: sample_waiting_def sample_query_def complete_request_def create_query_def write_header_def nth_append
        mxs_mysql_is_ps_command_def str_bytes_def)
qed code_simp+

theorem stored_queries_in_order_witness:
  "\<exists>s' ok n. route_stored_query (sample_network TYPE_WRITE OP_INSERT) sample_waiting = Some (s', ok) \<and>
     stops_at (sample_network TYPE_WRITE OP_INSERT) [sample_query []] sample_waiting True n (s', ok) \<and> m_query_queue s' = drop n [sample_query []]"
  using stored_queries_in_order [OF sample_waiting_ok] by (simp add: sample_waiting_def)

text \<open>
  C7. The queue makes progress. If in addition there is a waiting statement, no response is expected, no
  transaction is replayed, no statement is delayed and the position is not probed by universal
  causal reads, then at least the first of the stored statements is routed and does not wait again,
  and what remains in the queue are those behind the ones that were routed.
\<close>

theorem stored_queries_progress:
  assumes "list_all complete_request (m_query_queue s)" "between_requests s" "m_wait_gtid s \<noteq> READING_GTID"
    and "m_query_queue s \<noteq> []" "m_expected_responses s = 0" "\<not> replaying_trx s" "m_pending_retries s = 0"
    and "causal_reads (m_config s) \<notin> {CR_UNIVERSAL, CR_FAST_UNIVERSAL}"
  shows "\<exists>s' ok n. route_stored_query E s = Some (s', ok) \<and> 0 < n \<and>
    stops_at E (m_query_queue s) s True n (s', ok) \<and> m_query_queue s' = drop n (m_query_queue s)"
proof -
  obtain b qs where q: "m_query_queue s = b # qs" using assms(4) by (cases "m_query_queue s") auto
  let ?s = "s\<lparr>m_query_queue := []\<rparr>"
  have b: "complete_request b" "\<not> buf_empty b" using assms(1) q by (auto simp: complete_request_def buf_empty_def)
  then have "gives (\<lambda>p. m_query_queue (fst p) = []) (route_query E b ?s)"
    using assms idle_route_query_gives [of b ?s E] by (simp add: between_requests_def)
  then have "gives (\<lambda>p. m_query_queue (fst p) = []) (routeQuery E b ?s)"
    using b(2) assms(6,7) by (simp add: routeQuery_def replaying_trx_def)
  then have "\<not> stops_at E (b # qs) s True 0 p" for p by (auto simp: stops_at_def elim!: gives_obtain)
  moreover obtain p n where "route_stored_query E s = Some p" "stops_at E (b # qs) s True n p" "m_query_queue (fst p) = drop n (b # qs)"
    using route_stored_gives [OF assms(1-3), of E True] by (auto simp: route_stored_query_def q elim!: gives_obtain)
  ultimately show ?thesis unfolding q by (cases p, cases n) auto
qed

theorem stored_queries_progress_witness:
  "\<exists>s' ok. route_stored_query (sample_network TYPE_WRITE OP_INSERT) sample_waiting = Some (s', ok) \<and> m_query_queue s' = []"
proof -
  have "m_query_queue sample_waiting \<noteq> []" "m_expected_responses sample_waiting = 0" "\<not> replaying_trx sample_waiting"
    "m_pending_retries sample_waiting = 0" "causal_reads (m_config sample_waiting) \<notin> {CR_UNIVERSAL, CR_FAST_UNIVERSAL}"
    by code_simp+
  from stored_queries_progress [OF sample_waiting_ok this, of "sample_network TYPE_WRITE OP_INSERT"]
  show ?thesis by (auto simp: sample_waiting_def)
qed

section \<open>A request that is too short\<close>

text \<open>
  C32. A COM_STMT_RESET packet that ends before the identifier of the statement is read past its end,
  if nothing is expected, responses of prepared statements are not reused and there are no universal
  causal reads: it is classified as one for the statement 0, which is unknown, and the text of
  the error is made from four bytes that the packet does not have.
\<close>

theorem short_ps_request_read_past_end:
  assumes "gw_data b = [1, 0, 0, 0, MXS_COM_STMT_RESET]" "between_requests s" "m_expected_responses s = 0" "\<not> reuse_ps (m_config s)"
    and "causal_reads (m_config s) \<notin> {CR_UNIVERSAL, CR_FAST_UNIVERSAL}"
  shows "route_query E b s = None"
proof -
  define info where "info = new_query_info\<lparr>qi_command := ucast MXS_COM_STMT_RESET, qi_ps_packet := True, qi_type_mask := TYPE_SESSION_WRITE\<rparr>"
  have "helper_get_query_info (gw_data b) = Some info"
    by (simp add: assms(1) helper_get_query_info_def Let_def command_to_typemask_def mxs_mysql_is_ps_command_def
        mxs_mysql_extract_ps_id_def copy_data_def get_byte4_def read_le_def info_def new_query_info_def MARIADB_PS_DIRECT_EXEC_ID_def)
  then have info: "get_query_info (env_grammar E) (gw_data b) = Some info"
    by (simp add: get_query_info_def info_def new_query_info_def)
  obtain h qc where c: "classify_packet rws_handler (env_grammar E) (env_db E) b info (s, m_qc s) = (h, qc)"
    by (metis prod.collapse)
  define s1 where "s1 = h\<lparr>m_qc := qc\<rparr>"
  have s1: "classify E b s = Some s1" by (simp add: classify_def update_route_info_def info c s1_def)
  have "m_stmt_id (m_route_info qc) = 0 \<and> m_command (m_route_info qc) = MXS_COM_STMT_RESET"
    using c assms(2) by (cases rule: classify_packet_cases)
      (simp_all add: between_requests_def finish_route_info_def effective_stmt_id_def info_def new_query_info_def)
  then have i: "m_stmt_id (route_info s1) = 0" "m_command (route_info s1) = MXS_COM_STMT_RESET" by (simp_all add: s1_def)
  have f: "m_config s1 = m_config s" "m_expected_responses s1 = m_expected_responses s"
    using classify_results [of s E b] s1 by (auto simp: classified_def)
  obtain stale where s2: "snd (resolve_route b s1) = s1\<lparr>m_check_stale := stale\<rparr>" using resolve_route_snd by blast
  have "query_not_supported b (s1\<lparr>m_check_stale := stale\<rparr>) = None"
    using i by (simp add: query_not_supported_def Let_def mxs_mysql_is_ps_command_def will_respond_def assms(1)
        mxs_mysql_get_command_def mxs_mysql_command_will_respond_def extract_binary_ps_id_def get_byte4_def read_le_def)
  then show ?thesis
    using assms f by (simp add: route_query_def s1 s2 Let_def split_beta can_route_query_def need_gtid_probe_def route_stmt_def)
qed

theorem short_ps_request_read_past_end_witness:
  "route_query sample_env (no_buffer\<lparr>gw_data := [1, 0, 0, 0, MXS_COM_STMT_RESET]\<rparr>) sample_writer = None"
proof -
  have "between_requests sample_writer" "m_expected_responses sample_writer = 0" "\<not> reuse_ps (m_config sample_writer)"
    "causal_reads (m_config sample_writer) \<notin> {CR_UNIVERSAL, CR_FAST_UNIVERSAL}" by code_simp+
  from short_ps_request_read_past_end [OF _ this] show ?thesis by simp
qed

end
