(* ===== verification/Rws_Replay.thy ===== *)
theory Rws_Replay
  imports Rws_Safety
begin

text \<open>
  Transaction replay and causal reads: what a client sees when the router executes more than it
  asked for. A replay sends the statements of the transaction again and ends after a bounded number
  of restarts, an interrupted result is continued where it broke off, and the packets behind
  the wait of a causal read are renumbered.
\<close>

section \<open>A replay that keeps failing comes to an end\<close>

lemma start_trx_replay_starts:
  "snd (start_trx_replay E s) \<longleftrightarrow> transaction_replay (m_config s) \<and> can_start_trx_replay s"
  by (simp add: start_trx_replay_def Let_def split_beta)

lemma start_trx_replay_started:
  assumes "snd (start_trx_replay E s)"
  shows "m_num_trx_replays (fst (start_trx_replay E s)) = m_num_trx_replays s + 1 \<and> can_start_trx_replay s"
  using assms unfolding start_trx_replay_starts by (simp add: start_trx_replay_def Let_def split_beta retry_query_def emit_def)

lemma start_trx_replay_io: "\<exists>es. m_io (fst (start_trx_replay E s)) = m_io s @ es"
  by (simp add: start_trx_replay_def Let_def split_beta retry_query_def emit_def)

text \<open>A mismatch uses up an attempt or closes the session.\<close>

lemma checksum_mismatch_cases:
  obtains (killed) "Io_kill \<in> set (m_io (checksum_mismatch E s))"
  | (restarted) "m_num_trx_replays (checksum_mismatch E s) = m_num_trx_replays s + 1"
      "trx_timeout (m_config s) \<le> 0 \<Longrightarrow> m_num_trx_replays s < trx_max_attempts (m_config s)"
proof (cases "trx_retry_on_mismatch (m_config s) \<and> snd (start_trx_replay E (s\<lparr>m_state := TRX_REPLAY\<rparr>))")
  case True
  then have eq: "checksum_mismatch E s = fst (start_trx_replay E (s\<lparr>m_state := TRX_REPLAY\<rparr>))"
    by (simp add: checksum_mismatch_def Let_def split_beta)
  show thesis
    using start_trx_replay_started [of E "s\<lparr>m_state := TRX_REPLAY\<rparr>"] True
    by (intro restarted) (auto simp: eq can_start_trx_replay_def split: if_splits)
next
  case False
  then have "\<exists>t. checksum_mismatch E s = session_kill t"
    by (auto simp: checksum_mismatch_def Let_def split_beta)
  then show thesis by (auto simp: session_kill_def emit_def intro: killed)
qed

lemma checksum_mismatch_io: "\<exists>es. m_io (checksum_mismatch E s) = m_io s @ es"
proof -
  obtain es where "m_io (fst (start_trx_replay E (s\<lparr>m_state := TRX_REPLAY\<rparr>))) = m_io s @ es"
    using start_trx_replay_io [of E "s\<lparr>m_state := TRX_REPLAY\<rparr>"] by auto
  then show ?thesis by (auto simp: checksum_mismatch_def Let_def split_beta session_kill_def emit_def)
qed

lemma checksum_mismatch_config [simp]: "m_config (checksum_mismatch E s) = m_config s"
  by (simp add: checksum_mismatch_def Let_def split_beta)

text \<open>
  A run with a number of mismatches in it. Between them the session may do whatever does not
  count as the end of the replay, which is what resets the counter.
\<close>

inductive mismatches :: "env \<Rightarrow> rws \<Rightarrow> nat \<Rightarrow> rws \<Rightarrow> bool" for E s where
  no_mismatch: "mismatches E s 0 s"
| mismatch: "mismatches E s n t \<Longrightarrow> mismatches E s (Suc n) (checksum_mismatch E t)"
| other_step: "mismatches E s n t \<Longrightarrow> m_config t' = m_config t \<Longrightarrow> m_num_trx_replays t \<le> m_num_trx_replays t' \<Longrightarrow>
    m_io t' = m_io t @ es \<Longrightarrow> mismatches E s n t'"

lemma mismatches_counted:
  assumes "mismatches E s n t" "0 \<le> m_num_trx_replays s" "trx_timeout (m_config s) \<le> 0"
  shows "m_config t = m_config s \<and>
    (Io_kill \<in> set (m_io t) \<or> int n \<le> m_num_trx_replays t \<and> int n \<le> max 0 (trx_max_attempts (m_config s)))"
  using assms
proof induction
  case (mismatch n t)
  obtain es where io: "m_io (checksum_mismatch E t) = m_io t @ es" using checksum_mismatch_io by blast
  show ?case
  proof (cases rule: checksum_mismatch_cases [of E t])
    case restarted
    with mismatch io show ?thesis by auto
  qed (use mismatch in simp)
qed auto

text \<open>
  C8. A replay does not restart for ever. Without a time limit, a session in which the checksums
  keep differing is closed: among more mismatches than there are attempts, with no successful
  replay in between, there is one after which the session is killed.
\<close>

theorem replay_restarts_bounded:
  assumes "mismatches E s n t" "session_ok s" "trx_timeout (m_config s) \<le> 0" "max 0 (trx_max_attempts (m_config s)) < int n"
  shows "Io_kill \<in> set (m_io t)"
  using mismatches_counted [OF assms(1) _ assms(3)] assms(2,4) by (auto simp: session_ok_def counters_ok_def)

theorem replay_restarts_bounded_witness:
  "let s = sample_writer\<lparr>m_config := (m_config sample_writer)\<lparr>transaction_replay := True, trx_retry_on_mismatch := True, trx_timeout := 0, trx_max_attempts := 1\<rparr>\<rparr>
   in Io_kill \<in> set (m_io (checksum_mismatch sample_env (checksum_mismatch sample_env s)))"
proof -
  let ?s = "sample_writer\<lparr>m_config := (m_config sample_writer)\<lparr>transaction_replay := True, trx_retry_on_mismatch := True, trx_timeout := 0, trx_max_attempts := 1\<rparr>\<rparr>"
  have "session_ok ?s" by code_simp
  from replay_restarts_bounded [OF mismatch [OF mismatch [OF no_mismatch]] this] show ?thesis by (simp add: Let_def)
qed

section \<open>A replay sends the transaction again\<close>

text \<open>
  The course of a replay, as the results of its statements come in: the checksum of a result is
  added to the new transaction and the next statement is chosen.
\<close>

fun replay_results :: "env \<Rightarrow> bytes list \<Rightarrow> rws \<Rightarrow> rws option" where
  "replay_results E [] s = Some s"
| "replay_results E (ck # cks) s =
     do { s \<leftarrow> trx_replay_next_stmt E (s\<lparr>m_trx := add_result ck (m_trx s)\<rparr>); replay_results E cks s }"

lemma replay_next:
  assumes "m_log (m_replayed_trx s) = b # log" "length cks < length (m_checksums (m_replayed_trx s))"
    and "m_checksums (m_trx s) = cks" "ck = m_checksums (m_replayed_trx s) ! length cks"
  shows "trx_replay_next_stmt E (s\<lparr>m_trx := add_result ck (m_trx s)\<rparr>) =
    Some (retry_query b 0 (s\<lparr>m_trx := add_result ck (m_trx s), m_replayed_trx := (m_replayed_trx s)\<lparr>m_log := log\<rparr>\<rparr>))"
  using assms by (simp add: trx_replay_next_stmt_def Let_def have_stmts_def add_result_def pop_stmt_def)

lemma replay_results_delays:
  assumes "m_checksums (m_replayed_trx s) = done @ cks @ [ck]" "m_checksums (m_trx s) = done"
    and "length (m_log (m_replayed_trx s)) = length cks"
  shows "\<exists>t. replay_results E cks s = Some t \<and> m_io t = m_io s @ map (\<lambda>b. Io_delay b 0) (m_log (m_replayed_trx s)) \<and>
    m_checksums (m_trx t) = done @ cks \<and> m_replayed_trx t = (m_replayed_trx s)\<lparr>m_log := []\<rparr> \<and>
    m_interrupted_query t = m_interrupted_query s \<and> m_query_queue t = m_query_queue s"
  using assms
proof (induction cks arbitrary: s "done")
  case (Cons c cks)
  obtain b log where l: "m_log (m_replayed_trx s) = b # log" using Cons.prems(3) by (cases "m_log (m_replayed_trx s)") auto
  let ?s = "retry_query b 0 (s\<lparr>m_trx := add_result c (m_trx s), m_replayed_trx := (m_replayed_trx s)\<lparr>m_log := log\<rparr>\<rparr>)"
  have s: "trx_replay_next_stmt E (s\<lparr>m_trx := add_result c (m_trx s)\<rparr>) = Some ?s"
    using Cons.prems by (intro replay_next [OF l]) auto
  have f: "m_replayed_trx ?s = (m_replayed_trx s)\<lparr>m_log := log\<rparr>" "m_trx ?s = add_result c (m_trx s)"
    "m_io ?s = m_io s @ [Io_delay b 0]" "m_interrupted_query ?s = m_interrupted_query s" "m_query_queue ?s = m_query_queue s"
    by (simp_all add: retry_query_def emit_def)
  have "\<exists>t. replay_results E cks ?s = Some t \<and> m_io t = m_io ?s @ map (\<lambda>b. Io_delay b 0) (m_log (m_replayed_trx ?s)) \<and>
    m_checksums (m_trx t) = (done @ [c]) @ cks \<and> m_replayed_trx t = (m_replayed_trx ?s)\<lparr>m_log := []\<rparr> \<and>
    m_interrupted_query t = m_interrupted_query ?s \<and> m_query_queue t = m_query_queue ?s"
    by (rule Cons.IH) (use Cons.prems l f in \<open>simp_all add: add_result_def\<close>)
  then show ?case unfolding f by (simp add: s l del: retry_query_fields)
qed (simp add: trx_replay_next_stmt_def)

lemma replay_results_append:
  "replay_results E (xs @ ys) s = replay_results E xs s \<bind> replay_results E ys"
proof (induction xs arbitrary: s)
  case (Cons x xs)
  then show ?case by (cases "trx_replay_next_stmt E (s\<lparr>m_trx := add_result x (m_trx s)\<rparr>)") simp_all
qed simp

text \<open>
  C4. A transaction that is replayed with the same results is sent again completely, in order and
  once. If a transaction of the statements \<open>b # log\<close> with a result each is replayed and every result
  is the same as before, then exactly these statements are sent again, one after each result, and at
  the end the statement that was interrupted, for which the session then waits.
\<close>

theorem replay_sends_transaction_again:
  assumes "m_state s \<noteq> TRX_REPLAY" "transaction_replay (m_config s)" "can_start_trx_replay s"
    and "m_log (m_trx s) = b # log" "length (m_checksums (m_trx s)) = length (m_log (m_trx s))" "m_size (m_trx s) \<noteq> 0"
    and "stmt_set (m_current_query s)"
  shows "\<exists>t. replay_results E (m_checksums (m_trx s)) (fst (start_trx_replay E s)) = Some t \<and>
    m_io t = m_io s @ Io_delay b 1 # map (\<lambda>q. Io_delay q 0) (log @ [st_buffer (m_current_query s)]) \<and>
    m_state t = TRX_REPLAY_INTERRUPTED"
proof -
  let ?s = "fst (start_trx_replay E s)"
  obtain cks ck where c: "m_checksums (m_trx s) = cks @ [ck]" using assms(4,5) by (cases "m_checksums (m_trx s)" rule: rev_cases) auto
  have f: "m_replayed_trx ?s = (m_trx s)\<lparr>m_log := log\<rparr>" "m_checksums (m_trx ?s) = []" "m_io ?s = m_io s @ [Io_delay b 1]"
    "st_buffer (m_interrupted_query ?s) = st_buffer (m_current_query s)"
    using assms by (simp_all add: start_trx_replay_def Let_def have_stmts_def pop_stmt_def retry_query_def emit_def trx_close_def new_trx_def)
  obtain t where t: "replay_results E cks ?s = Some t" "m_io t = m_io ?s @ map (\<lambda>b. Io_delay b 0) log"
    "m_checksums (m_trx t) = cks" "m_replayed_trx t = (m_trx s)\<lparr>m_log := []\<rparr>" "m_interrupted_query t = m_interrupted_query ?s"
    using replay_results_delays [of ?s "[]" cks ck E] assms(4,5) c f by auto
  have "\<exists>u. trx_replay_next_stmt E (t\<lparr>m_trx := add_result ck (m_trx t)\<rparr>) = Some u \<and>
      m_io u = m_io t @ [Io_delay (st_buffer (m_current_query s)) 0] \<and> m_state u = TRX_REPLAY_INTERRUPTED"
    using t(3-5) c f(4) assms(6,7)
    by (simp add: trx_replay_next_stmt_def have_stmts_def trx_empty_def add_result_def stmt_set_def retry_query_def emit_def Let_def)
  then show ?thesis using t(1,2) by (auto simp: c replay_results_append f)
qed

definition sample_interrupted :: rws where
  "sample_interrupted = sample_writer
     \<lparr>m_config := (m_config sample_writer)\<lparr>transaction_replay := True\<rparr>,
      m_trx := \<lparr>m_checksums = [[1], [2]], m_log = [query_buffer ''BEGIN'', query_buffer ''SELECT 1''], m_size = 2, trx_target = Some 0\<rparr>,
      m_current_query := no_stmt\<lparr>st_buffer := query_buffer ''SELECT 2''\<rparr>\<rparr>"

theorem replay_sends_transaction_again_witness:
  "\<exists>t. replay_results sample_env [[1], [2]] (fst (start_trx_replay sample_env sample_interrupted)) = Some t \<and>
     m_io t = [Io_delay (query_buffer ''BEGIN'') 1, Io_delay (query_buffer ''SELECT 1'') 0, Io_delay (query_buffer ''SELECT 2'') 0] \<and>
     m_state t = TRX_REPLAY_INTERRUPTED"
proof -
  have "m_state sample_interrupted \<noteq> TRX_REPLAY" "transaction_replay (m_config sample_interrupted)" "can_start_trx_replay sample_interrupted"
    by code_simp+
  moreover have "m_io sample_interrupted = []" by code_simp
  ultimately show ?thesis
    using replay_sends_transaction_again [of sample_interrupted "query_buffer ''BEGIN''" "[query_buffer ''SELECT 1'']" sample_env]
    by (simp add: sample_interrupted_def stmt_set_def)
qed

section \<open>A result that was interrupted\<close>

text \<open>
  The parts of the result of the statement that was interrupted, as they come in after the replay,
  each with the state of the reply after it: what the client gets of them.
\<close>

fun resumed_result :: "env \<Rightarrow> (bytes \<times> reply) list \<Rightarrow> rws \<Rightarrow> (bytes \<times> rws) option" where
  "resumed_result E [] s = Some ([], s)"
| "resumed_result E ((part, r) # parts) s =
     do {
       (discard, buffer, s) \<leftarrow>
         (if m_state s = TRX_REPLAY_INTERRUPTED then discard_partial_result E part r s else Some (False, part, s));
       (out, s) \<leftarrow> resumed_result E parts s;
       Some ((if discard then [] else buffer) @ out, s)
     }"

lemma include_in_checksum_frame [simp]:
  "include_in_checksum r (s\<lparr>m_current_query := q\<rparr>) = include_in_checksum r s"
  "include_in_checksum r (s\<lparr>m_state := st\<rparr>) = include_in_checksum r s"
  by (simp_all add: include_in_checksum_def split: trx_checksum_type.splits)

lemma resumed_routing:
  "m_state s \<noteq> TRX_REPLAY_INTERRUPTED \<Longrightarrow> resumed_result E parts s = Some (concat (map fst parts), s)"
  by (induction parts) auto

text \<open>A part that does not go beyond what the client has got is not the last one of a longer result.\<close>

lemma resumed_from:
  assumes "m_state s = TRX_REPLAY_INTERRUPTED" "list_all (\<lambda>(_, r). \<not> is_complete r) (butlast parts)"
    and "st_bytes (m_interrupted_query s) = length old" "ck_sum (st_checksum (m_interrupted_query s)) = env_digest E old"
    and "st_bytes (m_current_query s) = length seen" "ck_data (st_checksum (m_current_query s)) = seen"
    and "seen @ concat (map fst parts) = old @ rest" "length seen \<le> length old" "rest \<noteq> []"
  shows "\<exists>t. resumed_result E parts s = Some (rest, t) \<and> m_state t = ROUTING \<and> m_io t = m_io s"
  using assms
proof (induction parts arbitrary: s seen)
  case (Cons p parts)
  obtain part r where p: "p = (part, r)" by (cases p)
  have all: "seen @ part @ concat (map fst parts) = old @ rest" using Cons.prems(7) p by simp
  have cut: "take (length old - length seen) (part @ concat (map fst parts)) = drop (length seen) old"
    using arg_cong [OF all, of "\<lambda>xs. take (length old - length seen) (drop (length seen) xs)"] Cons.prems(8) by simp
  have pre: "seen @ drop (length seen) old = old"
    using arg_cong [OF all, of "take (length seen)"] Cons.prems(8) append_take_drop_id [of "length seen" old] by simp
  show ?case
  proof (cases "length seen + length part \<le> length old")
    case True
    let ?s = "s\<lparr>m_current_query := (m_current_query s)\<lparr>st_bytes := length seen + length part,
      st_checksum := ck_update part (st_checksum (m_current_query s))\<rparr>\<rparr>"
    have "parts \<noteq> []" using arg_cong [OF all, of length] True Cons.prems(9) by auto
    then have more: "\<not> is_complete r" "list_all (\<lambda>(_, r). \<not> is_complete r) (butlast parts)"
      using Cons.prems(2) p by simp_all
    then have "discard_partial_result E part r s = Some (True, part, ?s)"
      using Cons.prems(3,5) True by (simp add: discard_partial_result_def Let_def)
    moreover have "\<exists>t. resumed_result E parts ?s = Some (rest, t) \<and> m_state t = ROUTING \<and> m_io t = m_io ?s"
      by (rule Cons.IH [of _ "seen @ part"]) (use Cons.prems more(2) all True in \<open>simp_all add: ck_update_def\<close>)
    ultimately show ?thesis using Cons.prems(1) p by auto
  next
    case False
    then have "seen @ take (length old - length seen) part = old" using cut pre by simp
    moreover have "drop (length old - length seen) part @ concat (map fst parts) = rest"
      using arg_cong [OF all, of "drop (length old)"] False Cons.prems(8) by simp
    ultimately show ?thesis
      using False Cons.prems(1,3-6,8) p
      by (simp add: discard_partial_result_def Let_def ck_update_def ck_finalize_def resumed_routing)
  qed
qed simp

text \<open>
  C5. A result that was interrupted is continued where it broke off. The client has got the bytes
  \<open>old\<close> of it. If the statement has the same result again, the bytes \<open>old @ rest\<close>, in whatever parts it
  arrives and with the reply complete at the earliest with the last of them, then the client gets
  exactly \<open>rest\<close>, the session is back to normal, and it was neither closed nor replayed again.
\<close>

theorem interrupted_result_continued:
  assumes "m_state s = TRX_REPLAY_INTERRUPTED" "list_all (\<lambda>(_, r). \<not> is_complete r) (butlast parts)"
    and "st_bytes (m_interrupted_query s) = length old" "ck_sum (st_checksum (m_interrupted_query s)) = env_digest E old"
    and "st_bytes (m_current_query s) = 0" "ck_data (st_checksum (m_current_query s)) = []"
    and "concat (map fst parts) = old @ rest" "rest \<noteq> []"
  shows "\<exists>t. resumed_result E parts s = Some (rest, t) \<and> m_state t = ROUTING \<and> m_io t = m_io s"
  by (rule resumed_from [of _ _ _ _ "[]"]) (use assms in simp_all)

definition sample_rows :: reply where
  "sample_rows = \<lparr>re_command = MXS_COM_QUERY, re_state = RSET_ROWS, re_error = \<lparr>er_code = 0, er_sql_state = [], er_message = []\<rparr>,
     re_is_ok = False, re_multiresult = False, re_field_counts = [1], re_generated_id = 0, re_param_count = 0,
     re_server_status = 0, re_variables = [], re_row_data = []\<rparr>"

definition sample_resuming :: rws where
  "sample_resuming = sample_interrupted
     \<lparr>m_config := (m_config sample_interrupted)\<lparr>trx_retry_on_mismatch := True, trx_checksum := CK_FULL\<rparr>,
      m_state := TRX_REPLAY_INTERRUPTED, m_current_query := no_stmt,
      m_orig_trx := m_trx sample_interrupted, m_orig_stmt := m_current_query sample_interrupted,
      m_interrupted_query := no_stmt\<lparr>st_bytes := 2, st_checksum := new_checksum\<lparr>ck_sum := env_digest sample_env [7, 8]\<rparr>\<rparr>\<rparr>"

theorem interrupted_result_continued_witness:
  "is_complete (sample_rows\<lparr>re_state := DONE\<rparr>) \<and>
   (\<exists>t. resumed_result sample_env [([7], sample_rows), ([8, 9], sample_rows), ([10], sample_rows\<lparr>re_state := DONE\<rparr>)] sample_resuming =
      Some ([9, 10], t) \<and> m_state t = ROUTING \<and> m_io t = m_io sample_resuming) \<and>
   (\<exists>t. resumed_result sample_env [([7, 8, 9], sample_rows\<lparr>re_state := DONE\<rparr>)] sample_resuming =
      Some ([9], t) \<and> m_state t = ROUTING \<and> m_io t = m_io sample_resuming)"
  by (intro conjI interrupted_result_continued [of _ _ "[7, 8]"])
    (simp_all add: sample_resuming_def is_complete_def sample_rows_def no_stmt_def new_checksum_def)



section \<open>The sequence numbers of a causal read\<close>

text \<open>A packet with its sequence number and payload.\<close>

definition numbered :: "u32 \<Rightarrow> bytes \<Rightarrow> bytes" where
  "numbered n payload = set_byte3 (of_nat (length payload)) @ [ucast n] @ payload"

fun number_packets :: "u32 \<Rightarrow> bytes list \<Rightarrow> bytes" where
  "number_packets n [] = []"
| "number_packets n (p # ps) = numbered n p @ number_packets (n + 1) ps"

lemma number_packets_append:
  "number_packets n (ps @ qs) = number_packets n ps @ number_packets (n + of_nat (length ps)) qs"
  by (induction ps arbitrary: n) (simp_all add: add.assoc)

lemma renumber_packet:
  assumes "length p < 2 ^ 24"
  shows "renumber (numbered old p @ rest) n = map_option (\<lambda>(r, m). (numbered n p @ r, m)) (renumber rest (n + 1))"
proof -
  have "renumber (numbered old p @ rest) n =
      renumber rest (n + 1) \<bind> (\<lambda>(r, m). Some (take 3 (numbered old p @ rest) @ [ucast n] @ p @ r, m))"
    by (subst renumber.simps) (simp add: numbered_def get_set_byte3 unat_of_nat_u32 [OF assms])
  then show ?thesis by (auto simp: numbered_def split: bind_splits option.splits)
qed

abbreviation packets_of :: "(u32 \<times> bytes) list \<Rightarrow> bytes" where
  "packets_of ps \<equiv> concat (map (\<lambda>(old, p). numbered old p) ps)"

lemma renumber_packets:
  assumes "list_all (\<lambda>(_, p). length p < 2 ^ 24) ps"
  shows "renumber (packets_of ps) n = Some (number_packets n (map snd ps), n + of_nat (length ps))"
  using assms
proof (induction ps arbitrary: n)
  case Nil
  show ?case by (simp add: renumber.simps)
next
  case (Cons p ps)
  then show ?case by (cases p) (simp add: renumber_packet add.assoc)
qed

text \<open>The buffers of a result, as they are corrected one after the other.\<close>

fun correct_buffers :: "bytes list \<Rightarrow> rws \<Rightarrow> (bytes \<times> rws) option" where
  "correct_buffers [] s = Some ([], s)"
| "correct_buffers (b # bs) s =
     do { (c, s) \<leftarrow> correct_packet_sequence b s; (cs, s) \<leftarrow> correct_buffers bs s; Some (c @ cs, s) }"

text \<open>
  C9. The result of a causal read looks as if it were that of the client's own statement. The
  packets that come after the result of the wait carry on its sequence numbers. They are renumbered
  consecutively, across all buffers in which they arrive, and their payloads are not changed.
\<close>

theorem causal_read_renumbers:
  assumes "list_all (list_all (\<lambda>(_, p). length p < 2 ^ 24)) bs"
  shows "\<exists>t. correct_buffers (map packets_of bs) s = Some (number_packets (m_next_seq s) (map snd (concat bs)), t) \<and>
    m_next_seq t = m_next_seq s + of_nat (length (concat bs))"
  using assms
proof (induction bs arbitrary: s)
  case (Cons b bs)
  let ?s = "s\<lparr>m_next_seq := m_next_seq s + of_nat (length b)\<rparr>"
  have "correct_packet_sequence (packets_of b) s = Some (number_packets (m_next_seq s) (map snd b), ?s)"
    using Cons.prems renumber_packets [of b "m_next_seq s"] by (simp add: correct_packet_sequence_def)
  moreover obtain t where "correct_buffers (map packets_of bs) ?s = Some (number_packets (m_next_seq ?s) (map snd (concat bs)), t)"
    "m_next_seq t = m_next_seq ?s + of_nat (length (concat bs))"
    using Cons.IH [of ?s] Cons.prems by auto
  ultimately show ?case by (simp add: number_packets_append add.assoc)
qed simp

theorem causal_read_renumbers_witness:
  "\<exists>t. correct_buffers [[1, 0, 0, 2, 9], [2, 0, 0, 3, 8, 7, 0, 0, 0, 4]] (sample_writer\<lparr>m_next_seq := 1\<rparr>) =
     Some ([1, 0, 0, 1, 9, 2, 0, 0, 2, 8, 7, 0, 0, 0, 3], t)"
proof -
  have "map packets_of [[(2, [9])], [(3, [8, 7]), (4, [])]] = [[1, 0, 0, 2, 9], [2, 0, 0, 3, 8, 7, 0, 0, 0, 4]]"
    "number_packets 1 [[9], [8, 7], []] = [1, 0, 0, 1, 9, 2, 0, 0, 2, 8, 7, 0, 0, 0, 3]" by code_simp+
  then show ?thesis
    using causal_read_renumbers [of "[[(2, [9])], [(3, [8, 7]), (4, [])]]" "sample_writer\<lparr>m_next_seq := 1\<rparr>"] by auto
qed

end
