(* ===== verification/Cache_Storage.thy ===== *)
theory Cache_Storage
  imports Mariadb_Packet
begin

text \<open>
  The storages of the cache filter. The keys, results and configuration are those of
  \<open>server/modules/filter/cache/cache_storage_api.hh\<close>. A storage is used through its virtual methods,
  a record of functions on the state of the storage; \<open>InMemoryStorage\<close> of
  \<open>storage/storage_inmemory/inmemorystorage.cc\<close> is the one that keeps the values in the process. The
  time in milliseconds is an argument, and allocating memory succeeds.
\<close>

section \<open>The interface\<close>

definition CACHE_RESULT_OK :: u32 where [flag_defs]: "CACHE_RESULT_OK = push_bit 0 1"
definition CACHE_RESULT_NOT_FOUND :: u32 where [flag_defs]: "CACHE_RESULT_NOT_FOUND = push_bit 1 1"
definition CACHE_RESULT_PENDING :: u32 where [flag_defs]: "CACHE_RESULT_PENDING = push_bit 2 1"
definition CACHE_RESULT_ERROR :: u32 where [flag_defs]: "CACHE_RESULT_ERROR = push_bit 3 1"
definition CACHE_RESULT_OUT_OF_RESOURCES :: u32 where "CACHE_RESULT_OUT_OF_RESOURCES = 0x18"
definition CACHE_RESULT_STALE :: u32 where [flag_defs]: "CACHE_RESULT_STALE = push_bit 16 1"
definition CACHE_RESULT_DISCARDED :: u32 where [flag_defs]: "CACHE_RESULT_DISCARDED = push_bit 17 1"

definition CACHE_FLAGS_INCLUDE_STALE :: u32 where "CACHE_FLAGS_INCLUDE_STALE = 1"
definition CACHE_USE_CONFIG_TTL :: u32 where "CACHE_USE_CONFIG_TTL = - 1"

abbreviation result_ok :: "u32 \<Rightarrow> bool" where "result_ok r \<equiv> any_bit r CACHE_RESULT_OK"
abbreviation result_not_found :: "u32 \<Rightarrow> bool" where "result_not_found r \<equiv> any_bit r CACHE_RESULT_NOT_FOUND"
abbreviation result_stale :: "u32 \<Rightarrow> bool" where "result_stale r \<equiv> any_bit r CACHE_RESULT_STALE"

lemma results_classified [simp]:
  "result_ok CACHE_RESULT_OK" "\<not> result_not_found CACHE_RESULT_OK"
  "\<not> result_ok CACHE_RESULT_NOT_FOUND" "result_not_found CACHE_RESULT_NOT_FOUND" "\<not> result_stale CACHE_RESULT_NOT_FOUND"
  "\<not> result_ok CACHE_RESULT_OUT_OF_RESOURCES" "\<not> result_ok CACHE_RESULT_ERROR" "\<not> result_not_found CACHE_RESULT_OUT_OF_RESOURCES"
  by (simp_all add: any_bit_def CACHE_RESULT_OK_def CACHE_RESULT_NOT_FOUND_def CACHE_RESULT_OUT_OF_RESOURCES_def
      CACHE_RESULT_ERROR_def CACHE_RESULT_STALE_def)

datatype cache_invalidate = CACHE_INVALIDATE_NEVER | CACHE_INVALIDATE_CURRENT

record cache_key =
  ck_user :: string
  ck_host :: string
  data_hash :: u64
  full_hash :: u64

definition key_eq :: "cache_key \<Rightarrow> cache_key \<Rightarrow> bool" where
  "key_eq this that \<longleftrightarrow>
     full_hash this = full_hash that \<and> data_hash this = data_hash that \<and> ck_user this = ck_user that \<and>
     ck_host this = ck_host that"

lemma key_eq_iff [simp]: "key_eq a b \<longleftrightarrow> a = b"
  by (cases a, cases b) (auto simp: key_eq_def)

record storage_config =
  hard_ttl :: u32
  soft_ttl :: u32
  max_count :: u32
  max_size :: u64
  invalidate :: cache_invalidate

text \<open>The methods of a storage that another one calls. The value is a result of its own if there is one.\<close>

record 'st raw_storage =
  rs_get_value :: "cache_key \<Rightarrow> u32 \<Rightarrow> u32 \<Rightarrow> u32 \<Rightarrow> 'st \<Rightarrow> u32 \<times> bytes option \<times> 'st"
  rs_put_value :: "cache_key \<Rightarrow> string list \<Rightarrow> bytes \<Rightarrow> 'st \<Rightarrow> u32 \<times> 'st"
  rs_del_value :: "cache_key \<Rightarrow> 'st \<Rightarrow> u32 \<times> 'st"
  rs_invalidate :: "string list \<Rightarrow> 'st \<Rightarrow> u32 \<times> 'st"
  rs_clear :: "'st \<Rightarrow> u32 \<times> 'st"
  rs_get_config :: "'st \<Rightarrow> storage_config"

section \<open>The storage in memory\<close>

record entry =
  e_time :: int
  e_value :: bytes

record inmemory =
  im_config :: storage_config
  m_entries :: "cache_key \<rightharpoonup> entry"
  im_size :: u64
  im_items :: u64
  im_hits :: u64
  im_misses :: u64
  im_updates :: u64
  im_deletes :: u64

definition new_inmemory :: "storage_config \<Rightarrow> inmemory" where
  "new_inmemory config =
     \<lparr>im_config = config, m_entries = Map.empty, im_size = 0, im_items = 0, im_hits = 0, im_misses = 0, im_updates = 0,
      im_deletes = 0\<rparr>"

definition im_get_value ::
  "int \<Rightarrow> cache_key \<Rightarrow> u32 \<Rightarrow> u32 \<Rightarrow> u32 \<Rightarrow> inmemory \<Rightarrow> u32 \<times> bytes option \<times> inmemory" where
  "im_get_value now key flags soft hard s =
     (case m_entries s key of
        Some entry \<Rightarrow>
          (let s = s\<lparr>im_hits := im_hits s + 1\<rparr>;
               soft = (if soft = CACHE_USE_CONFIG_TTL then soft_ttl (im_config s) else soft);
               hard = (if hard = CACHE_USE_CONFIG_TTL then hard_ttl (im_config s) else hard);
               soft = (if soft > hard then hard else soft);
               is_hard_stale = (hard \<noteq> 0 \<and> now - e_time entry > uint hard);
               is_soft_stale = (soft \<noteq> 0 \<and> now - e_time entry > uint soft);
               include_stale = any_bit flags CACHE_FLAGS_INCLUDE_STALE in
           if is_hard_stale then
             (CACHE_RESULT_NOT_FOUND OR CACHE_RESULT_DISCARDED, None, s\<lparr>m_entries := (m_entries s)(key := None)\<rparr>)
           else if \<not> is_soft_stale \<or> include_stale then
             (if is_soft_stale then CACHE_RESULT_OK OR CACHE_RESULT_STALE else CACHE_RESULT_OK, Some (e_value entry), s)
           else (CACHE_RESULT_NOT_FOUND OR CACHE_RESULT_STALE, None, s))
      | None \<Rightarrow> (CACHE_RESULT_NOT_FOUND, None, s\<lparr>im_misses := im_misses s + 1\<rparr>))"

definition im_put_value :: "int \<Rightarrow> cache_key \<Rightarrow> string list \<Rightarrow> bytes \<Rightarrow> inmemory \<Rightarrow> u32 \<times> inmemory" where
  "im_put_value now key invalidation_words value s =
     (if invalidation_words \<noteq> [] then (CACHE_RESULT_OUT_OF_RESOURCES, s)
      else
        (let s = (case m_entries s key of
                    None \<Rightarrow> s\<lparr>im_items := im_items s + 1\<rparr>
                  | Some entry \<Rightarrow>
                      s\<lparr>im_updates := im_updates s + 1, im_size := im_size s - of_nat (length (e_value entry))\<rparr>);
             s = s\<lparr>im_size := im_size s + of_nat (length value)\<rparr>
         in (CACHE_RESULT_OK, s\<lparr>m_entries := (m_entries s)(key \<mapsto> \<lparr>e_time = now, e_value = value\<rparr>)\<rparr>)))"

text \<open>
  After the entry has been erased the iterator to it is compared with the end of the container,
  from which it differs.
\<close>

definition im_del_value :: "cache_key \<Rightarrow> inmemory \<Rightarrow> u32 \<times> inmemory" where
  "im_del_value key s =
     (case m_entries s key of
        Some entry \<Rightarrow>
          (CACHE_RESULT_OK,
           s\<lparr>im_size := im_size s - of_nat (length (e_value entry)), im_items := im_items s - 1,
             im_deletes := im_deletes s + 1, m_entries := (m_entries s)(key := None)\<rparr>)
      | None \<Rightarrow> (CACHE_RESULT_NOT_FOUND, s))"

definition im_invalidate :: "string list \<Rightarrow> inmemory \<Rightarrow> u32 \<times> inmemory" where
  "im_invalidate words s = (CACHE_RESULT_OUT_OF_RESOURCES, s)"

definition im_clear :: "inmemory \<Rightarrow> u32 \<times> inmemory" where
  "im_clear s =
     (CACHE_RESULT_OK,
      s\<lparr>im_deletes := im_deletes s + of_nat (card (dom (m_entries s))), im_size := 0, im_items := 0,
        m_entries := Map.empty\<rparr>)"

definition inmemory_storage :: "int \<Rightarrow> inmemory raw_storage" where
  "inmemory_storage now =
     \<lparr>rs_get_value = im_get_value now, rs_put_value = im_put_value now, rs_del_value = im_del_value,
      rs_invalidate = im_invalidate, rs_clear = im_clear, rs_get_config = im_config\<rparr>"

end
