(* ===== verification/Lru_Storage.thy ===== *)
theory Lru_Storage
  imports Cache_Storage "HOL-Library.Monad_Syntax"
begin

text \<open>
  The cache with a bound on the number and the size of its values, \<open>LRUStorage\<close> of
  \<open>server/modules/filter/cache/lrustorage.cc\<close> and \<open>lrustorage.hh\<close>. The values are in another storage; this one
  keeps a node for each of them in a doubly linked list, the most recently used one first, together
  with an index by key and, for invalidation, an index by word.

  Nodes are objects on the heap that the list and both indexes point to. The heap is a map from
  addresses to nodes and a result of \<^const>\<open>None\<close> means that the program follows a null pointer, a pointer
  to a node that has been deleted or an iterator to an entry that has been erased. Sizes are integers:
  the values of a process do not add up to \<open>2 ^ 64\<close> bytes.
\<close>

section \<open>Nodes\<close>

record node =
  n_key :: "cache_key option"
  n_size :: int
  n_next :: "nat option"
  n_prev :: "nat option"
  invalidation_words :: "string list"

type_synonym heap = "nat \<rightharpoonup> node"

definition new_node :: node where
  "new_node = \<lparr>n_key = None, n_size = 0, n_next = None, n_prev = None, invalidation_words = []\<rparr>"

definition upd_node :: "nat \<Rightarrow> (node \<Rightarrow> node) \<Rightarrow> heap \<Rightarrow> heap option" where
  "upd_node p f h = map_option (\<lambda>n. h(p \<mapsto> f n)) (h p)"

definition unlink_node :: "nat \<Rightarrow> heap \<Rightarrow> heap option" where
  "unlink_node this h =
     do {
       n \<leftarrow> h this;
       h \<leftarrow> (case n_prev n of Some p \<Rightarrow> upd_node p (n_next_update (\<lambda>_. n_next n)) h | None \<Rightarrow> Some h);
       n \<leftarrow> h this;
       case n_next n of Some q \<Rightarrow> upd_node q (n_prev_update (\<lambda>_. n_prev n)) h | None \<Rightarrow> Some h
     }"

definition node_prepend :: "nat \<Rightarrow> nat option \<Rightarrow> heap \<Rightarrow> heap option" where
  "node_prepend this node h =
     (case node of
        None \<Rightarrow> Some h
      | Some other \<Rightarrow>
          if other = this then Some h
          else
            do {
              h \<leftarrow> unlink_node this h;
              m \<leftarrow> h other;
              h \<leftarrow> (case n_prev m of Some p \<Rightarrow> upd_node p (n_next_update (\<lambda>_. Some this)) h | None \<Rightarrow> Some h);
              m \<leftarrow> h other;
              h \<leftarrow> upd_node this (\<lambda>n. n\<lparr>n_prev := n_prev m, n_next := Some other\<rparr>) h;
              upd_node other (n_prev_update (\<lambda>_. Some this)) h
            })"

definition node_remove :: "nat \<Rightarrow> heap \<Rightarrow> heap option" where
  "node_remove this h =
     do {
       h \<leftarrow> unlink_node this h;
       upd_node this (\<lambda>n. n\<lparr>n_prev := None, n_next := None\<rparr>) h
     }"

definition node_reset :: "cache_key \<Rightarrow> int \<Rightarrow> string list \<Rightarrow> node \<Rightarrow> node" where
  "node_reset key value_size words n = n\<lparr>n_key := Some key, n_size := value_size, invalidation_words := words\<rparr>"

definition node_clear :: "node \<Rightarrow> node" where
  "node_clear n = n\<lparr>n_key := None, n_size := 0, invalidation_words := []\<rparr>"

section \<open>The storage\<close>

datatype invalidator = NullInvalidator | FullInvalidator | StorageInvalidator

datatype lru_context = EVICTION | INVALIDATION | LRU_INVALIDATION

datatype invalidator_action = INV_IGNORE | INV_REMOVE

datatype access_approach = APPROACH_GET | APPROACH_PEEK

record lru_stats =
  ls_size :: int
  ls_items :: int
  ls_hits :: nat
  ls_misses :: nat
  ls_updates :: nat
  ls_deletes :: nat
  ls_evictions :: nat
  ls_invalidations :: nat
  ls_cleared :: nat

record 'st lru =
  lru_config :: storage_config
  m_pStorage :: 'st
  m_max_count :: int
  m_max_size :: int
  m_stats :: lru_stats
  m_nodes_by_key :: "cache_key \<rightharpoonup> nat"
  m_pHead :: "nat option"
  m_pTail :: "nat option"
  m_sInvalidator :: invalidator
  m_nodes_by_word :: "string \<Rightarrow> nat set"
  l_heap :: heap
  l_next_address :: nat

definition no_stats :: lru_stats where
  "no_stats = \<lparr>ls_size = 0, ls_items = 0, ls_hits = 0, ls_misses = 0, ls_updates = 0, ls_deletes = 0, ls_evictions = 0,
     ls_invalidations = 0, ls_cleared = 0\<rparr>"

definition new_lru :: "'st raw_storage \<Rightarrow> storage_config \<Rightarrow> 'st \<Rightarrow> 'st lru" where
  "new_lru R config storage =
     \<lparr>lru_config = config, m_pStorage = storage,
      m_max_count = (if max_count config \<noteq> 0 then uint (max_count config) else 2 ^ 64 - 1),
      m_max_size = (if max_size config \<noteq> 0 then uint (max_size config) else 2 ^ 64 - 1),
      m_stats = no_stats, m_nodes_by_key = Map.empty, m_pHead = None, m_pTail = None,
      m_sInvalidator =
        (if invalidate config = CACHE_INVALIDATE_NEVER then NullInvalidator
         else case invalidate (rs_get_config R storage) of
                CACHE_INVALIDATE_NEVER \<Rightarrow> FullInvalidator
              | CACHE_INVALIDATE_CURRENT \<Rightarrow> StorageInvalidator),
      m_nodes_by_word = (\<lambda>_. {}), l_heap = Map.empty, l_next_address = 0\<rparr>"

abbreviation upd_stats :: "(lru_stats \<Rightarrow> lru_stats) \<Rightarrow> 'st lru \<Rightarrow> 'st lru" where
  "upd_stats f s \<equiv> s\<lparr>m_stats := f (m_stats s)\<rparr>"

subsection \<open>Invalidators\<close>

definition storage_words :: "invalidator \<Rightarrow> string list \<Rightarrow> string list" where
  "storage_words invalidator words = (case invalidator of StorageInvalidator \<Rightarrow> words | _ \<Rightarrow> [])"

definition node_words :: "invalidator \<Rightarrow> string list \<Rightarrow> string list" where
  "node_words invalidator words = (case invalidator of NullInvalidator \<Rightarrow> [] | _ \<Rightarrow> words)"

definition make_note :: "nat \<Rightarrow> 'st lru \<Rightarrow> 'st lru option" where
  "make_note p s =
     (case m_sInvalidator s of
        NullInvalidator \<Rightarrow> Some s
      | _ \<Rightarrow>
          do {
            n \<leftarrow> l_heap s p;
            Some (s\<lparr>m_nodes_by_word := (\<lambda>w. if w \<in> set (invalidation_words n) then insert p (m_nodes_by_word s w)
                                            else m_nodes_by_word s w)\<rparr>)
          })"

text \<open>The iterator that \<open>find\<close> returns is erased, which must be to an element.\<close>

fun remove_note_words :: "nat \<Rightarrow> string list \<Rightarrow> (string \<Rightarrow> nat set) \<Rightarrow> (string \<Rightarrow> nat set) option" where
  "remove_note_words p [] notes = Some notes"
| "remove_note_words p (w # ws) notes =
     (if p \<in> notes w then remove_note_words p ws (notes(w := notes w - {p})) else None)"

definition remove_note :: "nat \<Rightarrow> 'st lru \<Rightarrow> 'st lru option" where
  "remove_note p s =
     (case m_sInvalidator s of
        NullInvalidator \<Rightarrow> Some s
      | _ \<Rightarrow>
          do {
            n \<leftarrow> l_heap s p;
            notes \<leftarrow> remove_note_words p (invalidation_words n) (m_nodes_by_word s);
            Some (s\<lparr>m_nodes_by_word := notes\<rparr>)
          })"

subsection \<open>The list\<close>

definition remove_node :: "nat \<Rightarrow> 'st lru \<Rightarrow> 'st lru option" where
  "remove_node p s =
     do {
       head \<leftarrow> (if m_pHead s = Some p then map_option n_next (l_heap s p) else Some (m_pHead s));
       tail \<leftarrow> (if m_pTail s = Some p then map_option n_prev (l_heap s p) else Some (m_pTail s));
       h \<leftarrow> node_remove p (l_heap s);
       Some (s\<lparr>m_pHead := head, m_pTail := tail, l_heap := h\<rparr>)
     }"

definition move_to_head :: "nat \<Rightarrow> 'st lru \<Rightarrow> 'st lru option" where
  "move_to_head p s =
     do {
       tail \<leftarrow> (if m_pTail s = Some p then map_option n_prev (l_heap s p) else Some (m_pTail s));
       h \<leftarrow> node_prepend p (m_pHead s) (l_heap s);
       Some (s\<lparr>m_pHead := Some p, m_pTail := (if tail = None then Some p else tail), l_heap := h\<rparr>)
     }"

text \<open>The destructor of a node takes it out of the list once more.\<close>

definition delete_node :: "nat \<Rightarrow> 'st lru \<Rightarrow> 'st lru option" where
  "delete_node p s = map_option (\<lambda>h. s\<lparr>l_heap := h(p := None)\<rparr>) (node_remove p (l_heap s))"

definition free_node :: "nat \<Rightarrow> invalidator_action \<Rightarrow> 'st lru \<Rightarrow> 'st lru option" where
  "free_node p action s =
     do {
       s \<leftarrow> (if action = INV_REMOVE then remove_note p s else Some s);
       s \<leftarrow> remove_node p s;
       delete_node p s
     }"

text \<open>The same for the node that an iterator, which is given by its key, refers to.\<close>

definition free_node_at :: "cache_key \<Rightarrow> invalidator_action \<Rightarrow> 'st lru \<Rightarrow> 'st lru option" where
  "free_node_at i action s =
     do {
       p \<leftarrow> m_nodes_by_key s i;
       s \<leftarrow> free_node p action s;
       Some (s\<lparr>m_nodes_by_key := (m_nodes_by_key s)(i := None)\<rparr>)
     }"

text \<open>
  The result of deleting the value is not looked at, so that the data of a node can always be
  freed.
\<close>

definition free_node_data :: "'st raw_storage \<Rightarrow> nat \<Rightarrow> lru_context \<Rightarrow> 'st lru \<Rightarrow> 'st lru option" where
  "free_node_data R p reason s =
     do {
       n \<leftarrow> l_heap s p;
       key \<leftarrow> n_key n;
       let s = (if reason \<noteq> LRU_INVALIDATION then s\<lparr>m_pStorage := snd (rs_del_value R key (m_pStorage s))\<rparr> else s);
       let s = s\<lparr>m_nodes_by_key := (m_nodes_by_key s)(key := None)\<rparr>;
       let s = upd_stats (\<lambda>t. t\<lparr>ls_size := ls_size t - n_size n, ls_items := ls_items t - 1\<rparr>) s;
       if reason = EVICTION then remove_note p (upd_stats (\<lambda>t. t\<lparr>ls_evictions := ls_evictions t + 1\<rparr>) s)
       else Some (upd_stats (\<lambda>t. t\<lparr>ls_invalidations := ls_invalidations t + 1\<rparr>) s)
     }"

definition vacate_lru :: "'st raw_storage \<Rightarrow> 'st lru \<Rightarrow> (nat \<times> 'st lru) option" where
  "vacate_lru R s =
     do {
       p \<leftarrow> m_pTail s;
       s \<leftarrow> free_node_data R p EVICTION s;
       s \<leftarrow> remove_node p s;
       Some (p, s)
     }"

text \<open>
  The loop runs while there are nodes, of which each round takes one away; the bound is the number
  of nodes that have ever been allocated.
\<close>

fun vacate_loop :: "nat \<Rightarrow> 'st raw_storage \<Rightarrow> int \<Rightarrow> int \<Rightarrow> 'st lru \<Rightarrow> (nat option \<times> 'st lru) option" where
  "vacate_loop fuel R needed_space freed_space s =
     (case m_pTail s of
        None \<Rightarrow> Some (None, s)
      | Some p \<Rightarrow>
          if freed_space < needed_space then
            (case fuel of
               0 \<Rightarrow> None
             | Suc fuel \<Rightarrow>
                 do {
                   n \<leftarrow> l_heap s p;
                   s \<leftarrow> free_node_data R p EVICTION s;
                   s \<leftarrow> remove_node p s;
                   let freed_space = freed_space + n_size n;
                   if freed_space < needed_space then
                     do { s \<leftarrow> delete_node p s; vacate_loop fuel R needed_space freed_space s }
                   else Some (Some p, s)
                 })
          else Some (None, s))"

definition vacate_lru_space :: "'st raw_storage \<Rightarrow> int \<Rightarrow> 'st lru \<Rightarrow> (nat option \<times> 'st lru) option" where
  "vacate_lru_space R needed_space s =
     do {
       (node, s) \<leftarrow> vacate_loop (l_next_address s) R needed_space 0 s;
       case node of
         None \<Rightarrow> Some (None, s)
       | Some p \<Rightarrow> do { h \<leftarrow> upd_node p node_clear (l_heap s); Some (Some p, s\<lparr>l_heap := h\<rparr>) }
     }"

subsection \<open>Operations\<close>

definition do_del_value :: "'st raw_storage \<Rightarrow> cache_key \<Rightarrow> 'st lru \<Rightarrow> (u32 \<times> 'st lru) option" where
  "do_del_value R key s =
     (case m_nodes_by_key s key of
        None \<Rightarrow> Some (CACHE_RESULT_NOT_FOUND, s)
      | Some p \<Rightarrow>
          (let (result, storage) = rs_del_value R key (m_pStorage s);
               s = s\<lparr>m_pStorage := storage\<rparr> in
           if result_ok result \<or> result_not_found result then
             do {
               n \<leftarrow> l_heap s p;
               s \<leftarrow> free_node_at key INV_REMOVE
                      (upd_stats (\<lambda>t. t\<lparr>ls_deletes := ls_deletes t + 1, ls_size := ls_size t - n_size n,
                                        ls_items := ls_items t - 1\<rparr>) s);
               Some (result, s)
             }
           else Some (result, s)))"

definition access_value ::
  "'st raw_storage \<Rightarrow> access_approach \<Rightarrow> cache_key \<Rightarrow> u32 \<Rightarrow> u32 \<Rightarrow> u32 \<Rightarrow> 'st lru \<Rightarrow>
   (u32 \<times> bytes option \<times> 'st lru) option" where
  "access_value R approach key flags soft hard s =
     (case m_nodes_by_key s key of
        None \<Rightarrow> Some (CACHE_RESULT_NOT_FOUND, None, upd_stats (\<lambda>t. t\<lparr>ls_misses := ls_misses t + 1\<rparr>) s)
      | Some p \<Rightarrow>
          (let (result, value, storage) = rs_get_value R key flags soft hard (m_pStorage s);
               s = s\<lparr>m_pStorage := storage\<rparr> in
           if result_ok result then
             (let s = upd_stats (\<lambda>t. t\<lparr>ls_hits := ls_hits t + 1\<rparr>) s
              in do {
                   s \<leftarrow> (if approach = APPROACH_GET then move_to_head p s else Some s);
                   Some (result, value, s)
                 })
           else if result_not_found result then
             (let s = upd_stats (\<lambda>t. t\<lparr>ls_misses := ls_misses t + 1\<rparr>) s
              in do {
                   s \<leftarrow> (if \<not> result_stale result then free_node_at key INV_REMOVE s else Some s);
                   Some (result, value, s)
                 })
           else Some (result, value, s)))"

definition do_get_value ::
  "'st raw_storage \<Rightarrow> cache_key \<Rightarrow> u32 \<Rightarrow> u32 \<Rightarrow> u32 \<Rightarrow> 'st lru \<Rightarrow> (u32 \<times> bytes option \<times> 'st lru) option" where
  "do_get_value R key flags soft hard s = access_value R APPROACH_GET key flags soft hard s"

definition peek_value ::
  "'st raw_storage \<Rightarrow> cache_key \<Rightarrow> u32 \<Rightarrow> 'st lru \<Rightarrow> (u32 \<times> bytes option \<times> 'st lru) option" where
  "peek_value R key flags s = access_value R APPROACH_PEEK key flags CACHE_USE_CONFIG_TTL CACHE_USE_CONFIG_TTL s"

text \<open>The space that is vacated is that by which the value grows.\<close>

definition get_existing_node ::
  "'st raw_storage \<Rightarrow> cache_key \<Rightarrow> bytes \<Rightarrow> 'st lru \<Rightarrow> (u32 \<times> nat option \<times> 'st lru) option" where
  "get_existing_node R i value s =
     (let value_size = int (length value) in
      if value_size > m_max_size s then
        do {
          p \<leftarrow> m_nodes_by_key s i;
          n \<leftarrow> l_heap s p;
          key \<leftarrow> n_key n;
          (result, s) \<leftarrow> do_del_value R key s;
          Some (CACHE_RESULT_OUT_OF_RESOURCES, None, s)
        }
      else
        do {
          p \<leftarrow> m_nodes_by_key s i;
          n \<leftarrow> l_heap s p;
          let new_size = ls_size (m_stats s) - n_size n + value_size;
          if new_size > m_max_size s then
            do {
              s \<leftarrow> move_to_head p s;
              (vacant, s) \<leftarrow> vacate_lru_space R (value_size - n_size n) s;
              case vacant of
                Some v \<Rightarrow> do { s \<leftarrow> free_node v INV_IGNORE s; Some (CACHE_RESULT_OK, Some p, s) }
              | None \<Rightarrow> Some (CACHE_RESULT_OUT_OF_RESOURCES, None, s)
            }
          else Some (CACHE_RESULT_OK, Some p, s)
        })"

definition get_new_node ::
  "'st raw_storage \<Rightarrow> cache_key \<Rightarrow> bytes \<Rightarrow> 'st lru \<Rightarrow> (u32 \<times> nat option \<times> 'st lru) option" where
  "get_new_node R key value s =
     (let value_size = int (length value);
          new_size = ls_size (m_stats s) + value_size in
      do {
        (node, s) \<leftarrow>
          (if new_size > m_max_size s then vacate_lru_space R value_size s
           else if ls_items (m_stats s) = m_max_count s then map_option (apfst Some) (vacate_lru R s)
           else
             (let p = l_next_address s
              in Some (Some p, s\<lparr>l_heap := (l_heap s)(p \<mapsto> new_node), l_next_address := p + 1\<rparr>)));
        case node of
          Some p \<Rightarrow> Some (CACHE_RESULT_OK, Some p, s\<lparr>m_nodes_by_key := (m_nodes_by_key s)(key \<mapsto> p)\<rparr>)
        | None \<Rightarrow> Some (CACHE_RESULT_OUT_OF_RESOURCES, None, s)
      })"

text \<open>What \<open>do_put_value\<close> does once the storage has the value.\<close>

definition value_stored :: "cache_key \<Rightarrow> string list \<Rightarrow> int \<Rightarrow> bool \<Rightarrow> nat \<Rightarrow> 'st lru \<Rightarrow> 'st lru option" where
  "value_stored key words value_size existed p s =
     do {
       n \<leftarrow> l_heap s p;
       let s = (if existed then upd_stats (\<lambda>t. t\<lparr>ls_updates := ls_updates t + 1, ls_size := ls_size t - n_size n\<rparr>) s
                else upd_stats (\<lambda>t. t\<lparr>ls_items := ls_items t + 1\<rparr>) s);
       _ \<leftarrow> m_nodes_by_key s key;
       h \<leftarrow> upd_node p (node_reset key value_size (node_words (m_sInvalidator s) words)) (l_heap s);
       s \<leftarrow> make_note p (s\<lparr>l_heap := h\<rparr>);
       move_to_head p (upd_stats (\<lambda>t. t\<lparr>ls_size := ls_size t + value_size\<rparr>) s)
     }"

definition do_put_value ::
  "'st raw_storage \<Rightarrow> cache_key \<Rightarrow> string list \<Rightarrow> bytes \<Rightarrow> 'st lru \<Rightarrow> (u32 \<times> 'st lru) option" where
  "do_put_value R key words value s =
     (let existed = (m_nodes_by_key s key \<noteq> None) in
      do {
        (result, node, s) \<leftarrow> (if existed then get_existing_node R key value s else get_new_node R key value s);
        if result_ok result then
          do {
            p \<leftarrow> node;
            let (result, storage) = rs_put_value R key (storage_words (m_sInvalidator s) words) value (m_pStorage s);
            let s = s\<lparr>m_pStorage := storage\<rparr>;
            if result_ok result then
              do { s \<leftarrow> value_stored key words (int (length value)) existed p s; Some (result, s) }
            else if \<not> existed then do { s \<leftarrow> free_node_at key INV_IGNORE s; Some (result, s) }
            else Some (result, s)
          }
        else Some (result, s)
      })"

fun clear_loop :: "nat \<Rightarrow> 'st lru \<Rightarrow> 'st lru option" where
  "clear_loop fuel s =
     (case m_pHead s of
        None \<Rightarrow> Some s
      | Some p \<Rightarrow>
          (case fuel of
             0 \<Rightarrow> None
           | Suc fuel \<Rightarrow> do { s \<leftarrow> free_node p INV_REMOVE s; clear_loop fuel s }))"

definition do_clear :: "'st raw_storage \<Rightarrow> 'st lru \<Rightarrow> (u32 \<times> 'st lru) option" where
  "do_clear R s =
     do {
       s \<leftarrow> clear_loop (l_next_address s) s;
       let s = upd_stats (\<lambda>t. t\<lparr>ls_size := 0, ls_items := 0, ls_cleared := ls_cleared t + 1\<rparr>)
                 (s\<lparr>m_nodes_by_key := Map.empty\<rparr>);
       let (result, storage) = rs_clear R (m_pStorage s);
       Some (result, s\<lparr>m_pStorage := storage\<rparr>)
     }"

text \<open>
  A value that has expired is removed when it is got, so that the next one is tried; the loops end
  as long as the storage does not report a value as stale although it was asked for stale ones.
\<close>

fun get_head_loop ::
  "nat \<Rightarrow> 'st raw_storage \<Rightarrow> u32 \<Rightarrow> bytes option \<Rightarrow> 'st lru \<Rightarrow> (u32 \<times> bytes option \<times> 'st lru) option" where
  "get_head_loop fuel R result value s =
     (case m_pHead s of
        None \<Rightarrow> Some (result, value, s)
      | Some p \<Rightarrow>
          if result_not_found result then
            (case fuel of
               0 \<Rightarrow> None
             | Suc fuel \<Rightarrow>
                 do {
                   n \<leftarrow> l_heap s p;
                   key \<leftarrow> n_key n;
                   (result, value, s) \<leftarrow>
                     do_get_value R key CACHE_FLAGS_INCLUDE_STALE CACHE_USE_CONFIG_TTL CACHE_USE_CONFIG_TTL s;
                   get_head_loop fuel R result value s
                 })
          else Some (result, value, s))"

definition do_get_head :: "'st raw_storage \<Rightarrow> 'st lru \<Rightarrow> (u32 \<times> cache_key option \<times> bytes option \<times> 'st lru) option" where
  "do_get_head R s =
     do {
       (result, value, s) \<leftarrow> get_head_loop (l_next_address s) R CACHE_RESULT_NOT_FOUND None s;
       key \<leftarrow> (if result_ok result then do { p \<leftarrow> m_pHead s; n \<leftarrow> l_heap s p; map_option Some (n_key n) } else Some None);
       Some (result, key, value, s)
     }"

fun get_tail_loop ::
  "nat \<Rightarrow> 'st raw_storage \<Rightarrow> u32 \<Rightarrow> bytes option \<Rightarrow> 'st lru \<Rightarrow> (u32 \<times> bytes option \<times> 'st lru) option" where
  "get_tail_loop fuel R result value s =
     (case m_pTail s of
        None \<Rightarrow> Some (result, value, s)
      | Some p \<Rightarrow>
          if result_not_found result then
            (case fuel of
               0 \<Rightarrow> None
             | Suc fuel \<Rightarrow>
                 do {
                   n \<leftarrow> l_heap s p;
                   key \<leftarrow> n_key n;
                   (result, value, s) \<leftarrow> peek_value R key CACHE_FLAGS_INCLUDE_STALE s;
                   get_tail_loop fuel R result value s
                 })
          else Some (result, value, s))"

definition do_get_tail :: "'st raw_storage \<Rightarrow> 'st lru \<Rightarrow> (u32 \<times> cache_key option \<times> bytes option \<times> 'st lru) option" where
  "do_get_tail R s =
     do {
       (result, value, s) \<leftarrow> get_tail_loop (l_next_address s) R CACHE_RESULT_NOT_FOUND None s;
       key \<leftarrow> (if result_ok result then do { p \<leftarrow> m_pTail s; n \<leftarrow> l_heap s p; map_option Some (n_key n) } else Some None);
       Some (result, key, value, s)
     }"

definition do_get_size :: "'st lru \<Rightarrow> u32 \<times> int" where
  "do_get_size s = (CACHE_RESULT_OK, ls_size (m_stats s))"

definition do_get_items :: "'st lru \<Rightarrow> u32 \<times> int" where
  "do_get_items s = (CACHE_RESULT_OK, ls_items (m_stats s))"

subsection \<open>Invalidation\<close>

definition invalidate_node :: "'st raw_storage \<Rightarrow> nat \<Rightarrow> 'st lru \<Rightarrow> 'st lru option" where
  "invalidate_node R p s =
     do {
       s \<leftarrow> free_node_data R p (if m_sInvalidator s = StorageInvalidator then LRU_INVALIDATION else INVALIDATION) s;
       free_node p INV_IGNORE s
     }"

text \<open>
  The nodes of a word are visited in the order of a hash table, which is an argument. If a word
  occurred twice among the words of a node, the node would be erased from the set that is being
  visited.
\<close>

fun invalidate_nodes :: "'st raw_storage \<Rightarrow> string \<Rightarrow> nat list \<Rightarrow> nat set \<Rightarrow> 'st lru \<Rightarrow> (nat set \<times> 'st lru) option" where
  "invalidate_nodes R word [] invalidated s = Some (invalidated, s)"
| "invalidate_nodes R word (p # ps) invalidated s =
     (if p \<in> invalidated then invalidate_nodes R word ps invalidated s
      else
        do {
          n \<leftarrow> l_heap s p;
          let words = invalidation_words n;
          s \<leftarrow> invalidate_node R p s;
          s \<leftarrow> (if 1 < length words then
                  (if word \<notin> set words \<or> word \<in> set (remove1 word words) then None
                   else map_option (\<lambda>notes. s\<lparr>m_nodes_by_word := notes\<rparr>)
                          (remove_note_words p (remove1 word words) (m_nodes_by_word s)))
                else Some s);
          invalidate_nodes R word ps (insert p invalidated) s
        })"

fun invalidate_words :: "'st raw_storage \<Rightarrow> (nat set \<Rightarrow> nat list) \<Rightarrow> string list \<Rightarrow> nat set \<Rightarrow> 'st lru \<Rightarrow> 'st lru option" where
  "invalidate_words R order [] invalidated s = Some s"
| "invalidate_words R order (word # words) invalidated s =
     do {
       (invalidated, s) \<leftarrow> invalidate_nodes R word (order (m_nodes_by_word s word)) invalidated s;
       invalidate_words R order words invalidated (s\<lparr>m_nodes_by_word := (m_nodes_by_word s)(word := {})\<rparr>)
     }"

definition do_invalidate ::
  "'st raw_storage \<Rightarrow> (nat set \<Rightarrow> nat list) \<Rightarrow> string list \<Rightarrow> 'st lru \<Rightarrow> (u32 \<times> 'st lru) option" where
  "do_invalidate R order words s =
     do {
       (s, ok) \<leftarrow>
         (case m_sInvalidator s of
            NullInvalidator \<Rightarrow> Some (s, True)
          | FullInvalidator \<Rightarrow> do { s \<leftarrow> invalidate_words R order words {} s; Some (s, True) }
          | StorageInvalidator \<Rightarrow>
              do {
                s \<leftarrow> invalidate_words R order words {} s;
                let (result, storage) = rs_invalidate R words (m_pStorage s);
                Some (s\<lparr>m_pStorage := storage\<rparr>, result = CACHE_RESULT_OK)
              });
       if ok then Some (CACHE_RESULT_OK, s) else do_clear R s
     }"

declare vacate_loop.simps [simp del] clear_loop.simps [simp del] get_head_loop.simps [simp del] get_tail_loop.simps [simp del]

end
