(* ===== verification/Lru_List.thy ===== *)
theory Lru_List
  imports Lru_Storage
begin

text \<open>
  The list of nodes of \<open>LRUStorage\<close> on its heap, and the two indexes into it. The predicate \<open>listed\<close> says that the
  pointers of the storage form a doubly linked list of the given nodes; taking a node out of it and
  putting one in front of it, as \<open>remove_node\<close> and \<open>move_to_head\<close> do, keep this.
\<close>

section \<open>Chains of nodes\<close>

text \<open>
  A chain is a part of the list: nodes with their addresses and contents, with the neighbours of
  the part on both sides.
\<close>

type_synonym content = "cache_key \<times> int \<times> string list"

abbreviation addrs :: "(nat \<times> content) list \<Rightarrow> nat set" where
  "addrs ns \<equiv> fst ` set ns"

definition first_or :: "(nat \<times> content) list \<Rightarrow> nat option \<Rightarrow> nat option" where
  "first_or ns q = (case ns of [] \<Rightarrow> q | n # _ \<Rightarrow> Some (fst n))"

definition last_or :: "nat option \<Rightarrow> (nat \<times> content) list \<Rightarrow> nat option" where
  "last_or p ns = (if ns = [] then p else Some (fst (last ns)))"

lemma first_or_simps [simp]:
  "first_or [] q = q" "first_or (n # ns) q = Some (fst n)" "first_or (xs @ ys) q = first_or xs (first_or ys q)"
  by (simp_all add: first_or_def split: list.splits)

lemma last_or_simps [simp]:
  "last_or p [] = p" "last_or p (ns @ [n]) = Some (fst n)" "last_or p (n # ns) = last_or (Some (fst n)) ns"
  "last_or p (xs @ ys) = last_or (last_or p xs) ys"
  by (simp_all add: last_or_def)

fun node_of :: "content \<Rightarrow> nat option \<Rightarrow> nat option \<Rightarrow> node" where
  "node_of (k, sz, ws) p q = \<lparr>n_key = Some k, n_size = sz, n_next = q, n_prev = p, invalidation_words = ws\<rparr>"

lemma node_of_simps [simp]:
  "n_prev (node_of c p q) = p" "n_next (node_of c p q) = q" "(node_of c p q)\<lparr>n_prev := p'\<rparr> = node_of c p' q"
  "(node_of c p q)\<lparr>n_next := q'\<rparr> = node_of c p q'" "n_key (node_of c p q) = Some (fst c)"
  "n_size (node_of c p q) = fst (snd c)" "invalidation_words (node_of c p q) = snd (snd c)"
  by (cases c; simp)+


declare node_of.simps [simp del]

fun chain :: "heap \<Rightarrow> nat option \<Rightarrow> (nat \<times> content) list \<Rightarrow> nat option \<Rightarrow> bool" where
  "chain h p [] q = True"
| "chain h p ((x, c) # ns) q = (h x = Some (node_of c p (first_or ns q)) \<and> chain h (Some x) ns q)"

lemma chain_append:
  "chain h p (xs @ ys) q \<longleftrightarrow> chain h p xs (first_or ys q) \<and> chain h (last_or p xs) ys q"
proof (induction xs arbitrary: p)
  case (Cons n xs)
  then show ?case by (cases n) simp
qed simp

lemma chain_cong: "(\<And>x. x \<in> addrs ns \<Longrightarrow> h' x = h x) \<Longrightarrow> chain h' p ns q = chain h p ns q"
proof (induction ns arbitrary: p)
  case (Cons n ns)
  then show ?case by (cases n) simp
qed simp

lemma chain_upd_other [simp]: "x \<notin> addrs ns \<Longrightarrow> chain (h(x := v)) p ns q = chain h p ns q"
  by (rule chain_cong) auto

lemma chain_upd_others [simp]: "x \<notin> addrs ns \<Longrightarrow> y \<notin> addrs ns \<Longrightarrow> chain (h(x := v, y := w)) p ns q = chain h p ns q"
  by (rule chain_cong) auto

lemma unlink_chain:
  assumes "distinct (map fst (as @ (x, c) # bs))" "chain h None (as @ (x, c) # bs) None"
  shows "\<exists>h'. unlink_node x h = Some h' \<and> chain h' None (as @ bs) None \<and> h' x = h x \<and> (\<forall>y. y \<notin> addrs (as @ bs) \<longrightarrow> h' y = h y)"
proof -
  have x: "h x = Some (node_of c (last_or None as) (first_or bs None))" using assms(2) by (simp add: chain_append)
  show ?thesis
  proof (cases as rule: rev_cases)
    case Nil
    show ?thesis
    proof (cases bs)
      case (Cons b bs')
      then show ?thesis using assms x Nil
        by (cases b) (auto simp: unlink_node_def upd_node_def)
    qed (use assms x Nil in \<open>auto simp: unlink_node_def\<close>)
  next
    case (snoc as' a)
    show ?thesis
    proof (cases bs)
      case Nil
      then show ?thesis using assms x snoc
        by (cases a) (auto simp: unlink_node_def upd_node_def chain_append)
    next
      case (Cons b bs')
      then show ?thesis using assms x snoc
        by (cases a, cases b) (auto simp: unlink_node_def upd_node_def chain_append)
    qed
  qed
qed

section \<open>The list of the storage\<close>

definition listed :: "'st lru \<Rightarrow> (nat \<times> content) list \<Rightarrow> bool" where
  "listed s ns \<longleftrightarrow>
     distinct (map fst ns) \<and> chain (l_heap s) None ns None \<and> m_pHead s = first_or ns None \<and>
     m_pTail s = last_or None ns \<and> (\<forall>x \<ge> l_next_address s. l_heap s x = None)"

text \<open>A node that is on the heap and in no list.\<close>

definition detached :: "nat \<Rightarrow> content \<Rightarrow> heap \<Rightarrow> bool" where
  "detached x c h \<longleftrightarrow> h x = Some (node_of c None None)"

definition relink :: "(nat \<times> content) list \<Rightarrow> heap \<Rightarrow> 'st lru \<Rightarrow> 'st lru" where
  "relink ns h s = s\<lparr>m_pHead := first_or ns None, m_pTail := last_or None ns, l_heap := h\<rparr>"

lemma relink_simps [simp]:
  "m_pHead (relink ns h s) = first_or ns None" "m_pTail (relink ns h s) = last_or None ns" "l_heap (relink ns h s) = h"
  "l_next_address (relink ns h s) = l_next_address s" "m_nodes_by_key (relink ns h s) = m_nodes_by_key s"
  "m_nodes_by_word (relink ns h s) = m_nodes_by_word s" "m_stats (relink ns h s) = m_stats s"
  "m_sInvalidator (relink ns h s) = m_sInvalidator s" "m_pStorage (relink ns h s) = m_pStorage s"
  "lru_config (relink ns h s) = lru_config s" "m_max_size (relink ns h s) = m_max_size s" "m_max_count (relink ns h s) = m_max_count s"
  "relink ns h (relink ms h' s) = relink ns h s"
  by (simp_all add: relink_def)

lemma first_or_None [simp]: "first_or ns None = None \<longleftrightarrow> ns = []"
  by (cases ns) simp_all

lemma last_or_None [simp]: "last_or None ns = None \<longleftrightarrow> ns = []"
  by (simp add: last_or_def)

lemma chain_lookup: "chain h p (as @ (x, c) # bs) q \<Longrightarrow> h x = Some (node_of c (last_or p as) (first_or bs q))"
  by (simp add: chain_append)

lemma remove_node_listed:
  assumes "listed s (as @ (x, c) # bs)"
  shows "\<exists>h. remove_node x s = Some (relink (as @ bs) h s) \<and> listed (relink (as @ bs) h s) (as @ bs) \<and> detached x c h \<and>
    (\<forall>y. y \<notin> addrs (as @ (x, c) # bs) \<longrightarrow> h y = l_heap s y)"
proof -
  have d: "distinct (map fst (as @ (x, c) # bs))" and ch: "chain (l_heap s) None (as @ (x, c) # bs) None"
    and ht: "m_pHead s = first_or (as @ (x, c) # bs) None" "m_pTail s = last_or None (as @ (x, c) # bs)"
    and fresh: "\<forall>x \<ge> l_next_address s. l_heap s x = None"
    using assms by (simp_all add: listed_def)
  obtain h where h: "unlink_node x (l_heap s) = Some h" "chain h None (as @ bs) None" "h x = l_heap s x"
    "\<forall>y. y \<notin> addrs (as @ bs) \<longrightarrow> h y = l_heap s y"
    using unlink_chain [OF d ch] by blast
  have x: "l_heap s x = Some (node_of c (last_or None as) (first_or bs None))" by (rule chain_lookup [OF ch])
  let ?h = "h(x \<mapsto> node_of c None None)"
  have r: "node_remove x (l_heap s) = Some ?h" using h(1,3) x by (simp add: node_remove_def upd_node_def)
  have xn: "x \<notin> addrs (as @ bs)" using d by auto
  have head: "m_pHead s = Some x \<Longrightarrow> as = []" using ht(1) d by (cases as) (auto simp: first_or_def)
  have tail: "m_pTail s = Some x \<Longrightarrow> bs = []" using ht(2) d by (cases bs rule: rev_cases) auto
  have "remove_node x s = Some (relink (as @ bs) ?h s)"
    using head tail ht by (cases as; cases bs rule: rev_cases) (auto simp: remove_node_def r x relink_def)
  moreover have "\<forall>y \<ge> l_next_address s. ?h y = None"
  proof (intro allI impI)
    fix y assume y: "l_next_address s \<le> y"
    then have "y \<notin> addrs (as @ bs)" "y \<noteq> x"
      using fresh x ch split_list [of _ "as @ bs"] by (auto simp: chain_append dest!: split_list)
    then show "?h y = None" using h(4) fresh y by simp
  qed
  ultimately show ?thesis
    using d h xn by (auto simp: listed_def detached_def)
qed

lemma listed_allocated: "listed s ns \<Longrightarrow> (x, c) \<in> set ns \<Longrightarrow> \<exists>p q. l_heap s x = Some (node_of c p q)"
  unfolding listed_def using chain_lookup [of "l_heap s" None _ x c] split_list by metis

lemma listed_below: "listed s ns \<Longrightarrow> x \<in> addrs ns \<Longrightarrow> x < l_next_address s"
  using listed_allocated [of s ns] by (fastforce simp: listed_def not_le [symmetric])

lemma detached_unlink: "detached x c h \<Longrightarrow> unlink_node x h = Some h"
  by (simp add: detached_def unlink_node_def)

lemma delete_node_detached:
  assumes "detached x c (l_heap s)"
  shows "delete_node x s = Some (s\<lparr>l_heap := (l_heap s)(x := None)\<rparr>)"
  using assms detached_unlink [OF assms] by (simp add: delete_node_def node_remove_def upd_node_def detached_def)

lemma listed_delete:
  "listed s ns \<Longrightarrow> x \<notin> addrs ns \<Longrightarrow> listed (s\<lparr>l_heap := (l_heap s)(x := None)\<rparr>) ns"
  by (auto simp: listed_def)

text \<open>Putting a node in front of the list, once it is no longer linked from elsewhere.\<close>

lemma prepend_unlinked:
  assumes "unlink_node x h = Some h1" "h1 x = Some (node_of c p q)" "chain h1 None ns None" "distinct (x # map fst ns)" "ns \<noteq> []"
  shows "\<exists>h'. node_prepend x (first_or ns None) h = Some h' \<and> chain h' None ((x, c) # ns) None \<and>
    (\<forall>y. y \<notin> addrs ((x, c) # ns) \<longrightarrow> h' y = h1 y)"
proof -
  obtain y d ms where ns: "ns = (y, d) # ms" using assms(5) by (cases ns) auto
  have "node_prepend x (Some y) h = Some (h1(x \<mapsto> node_of c None (Some y), y \<mapsto> node_of d (Some x) (first_or ms None)))"
    using assms(1-4) ns by (simp add: node_prepend_def upd_node_def)
  then show ?thesis using assms(3,4) ns by simp
qed

lemma move_detached_to_head:
  assumes "listed s ns" "detached x c (l_heap s)" "x \<notin> addrs ns"
  shows "\<exists>h. move_to_head x s = Some (relink ((x, c) # ns) h s) \<and> listed (relink ((x, c) # ns) h s) ((x, c) # ns) \<and>
    (\<forall>y. y \<notin> addrs ((x, c) # ns) \<longrightarrow> h y = l_heap s y)"
proof -
  have l: "distinct (map fst ns)" "chain (l_heap s) None ns None" "m_pHead s = first_or ns None" "m_pTail s = last_or None ns"
    "\<forall>x \<ge> l_next_address s. l_heap s x = None" using assms(1) by (simp_all add: listed_def)
  have t: "m_pTail s \<noteq> Some x" using l(4) assms(3) by (cases ns rule: rev_cases) auto
  have xa: "x < l_next_address s" using l(5) assms(2) by (metis detached_def not_le option.distinct(1))
  show ?thesis
  proof (cases "ns = []")
    case True
    then have "move_to_head x s = Some (relink [(x, c)] (l_heap s) s)"
      using l by (simp add: move_to_head_def node_prepend_def relink_def)
    then show ?thesis using True assms(2) l(5) by (auto simp: listed_def detached_def)
  next
    case False
    obtain h where h: "node_prepend x (first_or ns None) (l_heap s) = Some h" "chain h None ((x, c) # ns) None"
      "\<forall>y. y \<notin> addrs ((x, c) # ns) \<longrightarrow> h y = l_heap s y"
      using prepend_unlinked [OF detached_unlink [OF assms(2)], of c None None ns] assms(2,3) l False
      by (auto simp: detached_def)
    have "move_to_head x s = Some (relink ((x, c) # ns) h s)"
      using t l False h(1) by (cases ns rule: rev_cases) (auto simp: move_to_head_def relink_def)
    moreover have "y \<ge> l_next_address s \<Longrightarrow> h y = None" for y
      using h(3) l(5) xa listed_below [OF assms(1), of y] by (cases "y \<in> addrs ((x, c) # ns)") auto
    ultimately show ?thesis using h l assms(3) by (auto simp: listed_def simp del: chain.simps)
  qed
qed

lemma move_listed_to_head:
  assumes "listed s (as @ (x, c) # bs)"
  shows "\<exists>h. move_to_head x s = Some (relink ((x, c) # as @ bs) h s) \<and>
    listed (relink ((x, c) # as @ bs) h s) ((x, c) # as @ bs) \<and>
    (\<forall>y. y \<notin> addrs (as @ (x, c) # bs) \<longrightarrow> h y = l_heap s y)"
proof (cases as)
  case Nil
  then have "move_to_head x s = Some (relink ((x, c) # bs) (l_heap s) s)"
    using assms by (cases bs rule: rev_cases) (auto simp: move_to_head_def node_prepend_def listed_def relink_def)
  then show ?thesis using assms Nil by (auto simp: listed_def)
next
  case (Cons a as')
  have d: "distinct (map fst (as @ (x, c) # bs))" and ch: "chain (l_heap s) None (as @ (x, c) # bs) None"
    and ht: "m_pHead s = first_or (as @ (x, c) # bs) None" "m_pTail s = last_or None (as @ (x, c) # bs)"
    and fresh: "\<forall>x \<ge> l_next_address s. l_heap s x = None"
    using assms by (simp_all add: listed_def)
  obtain h1 where h1: "unlink_node x (l_heap s) = Some h1" "chain h1 None (as @ bs) None" "h1 x = l_heap s x"
    "\<forall>y. y \<notin> addrs (as @ bs) \<longrightarrow> h1 y = l_heap s y"
    using unlink_chain [OF d ch] by blast
  have x: "l_heap s x = Some (node_of c (last_or None as) (first_or bs None))" by (rule chain_lookup [OF ch])
  obtain h where h: "node_prepend x (first_or (as @ bs) None) (l_heap s) = Some h" "chain h None ((x, c) # as @ bs) None"
    "\<forall>y. y \<notin> addrs ((x, c) # as @ bs) \<longrightarrow> h y = h1 y"
    using prepend_unlinked [OF h1(1) h1(3) [unfolded x] h1(2)] d Cons by auto
  have hd: "m_pHead s = first_or (as @ bs) None" using ht(1) Cons by simp
  have tl: "m_pTail s = Some x \<longleftrightarrow> bs = []" using ht(2) d by (cases bs rule: rev_cases) auto
  have "move_to_head x s = Some (relink ((x, c) # as @ bs) h s)"
    using h(1) ht(2) x Cons tl unfolding move_to_head_def hd
    by (cases bs rule: rev_cases) (auto simp: relink_def last_or_def)
  moreover have "y \<ge> l_next_address s \<Longrightarrow> h y = None" for y
    using h(3) h1(4) fresh listed_below [OF assms, of y] by (cases "y \<in> addrs ((x, c) # as @ bs)") auto
  ultimately show ?thesis using h(2,3) h1(4) d by (auto simp: listed_def simp del: chain.simps)
qed

section \<open>The indexes\<close>

definition keys_of :: "(nat \<times> content) list \<Rightarrow> cache_key \<rightharpoonup> nat" where
  "keys_of ns = map_of (map (\<lambda>n. (fst (snd n), fst n)) ns)"

definition notes_of :: "(nat \<times> content) list \<Rightarrow> string \<Rightarrow> nat set" where
  "notes_of ns w = {x. \<exists>c. (x, c) \<in> set ns \<and> w \<in> set (snd (snd c))}"

abbreviation keys :: "(nat \<times> content) list \<Rightarrow> cache_key list" where
  "keys ns \<equiv> map (\<lambda>n. fst (snd n)) ns"

definition words_ok :: "invalidator \<Rightarrow> (nat \<times> content) list \<Rightarrow> bool" where
  "words_ok i ns \<longleftrightarrow> (\<forall>(x, c) \<in> set ns. 0 \<le> fst (snd c) \<and> distinct (snd (snd c)) \<and> (i = NullInvalidator \<longrightarrow> snd (snd c) = []))"

definition indexed :: "'st lru \<Rightarrow> (nat \<times> content) list \<Rightarrow> bool" where
  "indexed s ns \<longleftrightarrow>
     distinct (keys ns) \<and> words_ok (m_sInvalidator s) ns \<and> m_nodes_by_key s = keys_of ns \<and> m_nodes_by_word s = notes_of ns"

definition counted :: "'st lru \<Rightarrow> (nat \<times> content) list \<Rightarrow> bool" where
  "counted s ns \<longleftrightarrow> ls_items (m_stats s) = int (length ns) \<and> ls_size (m_stats s) = (\<Sum>(x, c) \<leftarrow> ns. fst (snd c))"

lemma keys_of_simps [simp]:
  "keys_of [] = Map.empty" "keys_of ((x, c) # ns) = (keys_of ns)(fst c \<mapsto> x)"
  by (simp_all add: keys_of_def)

lemma keys_of_append [simp]: "keys_of (as @ bs) = keys_of bs ++ keys_of as"
  by (simp add: keys_of_def)

lemma dom_keys_of: "dom (keys_of ns) = set (keys ns)"
  by (simp add: keys_of_def dom_map_of_conv_image_fst image_image)

lemma keys_of_None: "keys_of ns k = None \<longleftrightarrow> k \<notin> set (keys ns)"
  using dom_keys_of [of ns] by (metis domIff)

lemma keys_of_Some: "keys_of ns k = Some x \<Longrightarrow> \<exists>as c bs. ns = as @ (x, c) # bs \<and> fst c = k"
proof -
  assume "keys_of ns k = Some x"
  then obtain c where "(x, c) \<in> set ns" "fst c = k" by (force simp: keys_of_def dest!: map_of_SomeD)
  then show ?thesis using split_list [of "(x, c)" ns] by blast
qed

lemma keys_of_middle:
  "distinct (keys (as @ (x, c) # bs)) \<Longrightarrow> keys_of (as @ (x, c) # bs) (fst c) = Some x"
  by (auto simp: map_add_Some_iff keys_of_None)

lemma keys_of_remove:
  assumes "distinct (keys (as @ (x, c) # bs))"
  shows "(keys_of (as @ (x, c) # bs))(fst c := None) = keys_of (as @ bs)"
proof
  fix k
  show "((keys_of (as @ (x, c) # bs))(fst c := None)) k = keys_of (as @ bs) k"
    using assms keys_of_None [of as "fst c"] keys_of_None [of bs "fst c"]
    by (cases "k = fst c") (auto simp: map_add_def split: option.splits)
qed

lemma keys_of_front:
  assumes "distinct (keys (as @ (x, c) # bs))"
  shows "keys_of ((x, c) # as @ bs) = keys_of (as @ (x, c) # bs)"
proof
  fix k
  show "keys_of ((x, c) # as @ bs) k = keys_of (as @ (x, c) # bs) k"
    using assms keys_of_None [of as "fst c"] by (cases "k = fst c") (auto simp: map_add_def split: option.splits)
qed

lemma notes_of_set: "set ms = set ns \<Longrightarrow> notes_of ms = notes_of ns"
  by (simp add: notes_of_def fun_eq_iff)

lemma remove_note_words_all:
  "distinct ws \<Longrightarrow> (\<forall>w \<in> set ws. x \<in> nt w) \<Longrightarrow>
   remove_note_words x ws nt = Some (\<lambda>w. if w \<in> set ws then nt w - {x} else nt w)"
proof (induction ws arbitrary: nt)
  case (Cons v ws)
  have "remove_note_words x ws (nt(v := nt v - {x})) = Some (\<lambda>w. if w \<in> set ws then (nt(v := nt v - {x})) w - {x} else (nt(v := nt v - {x})) w)"
    by (rule Cons.IH) (use Cons.prems in auto)
  then show ?case using Cons.prems by (auto simp: fun_eq_iff)
qed simp

lemma notes_of_remove:
  assumes "distinct (map fst (as @ (x, c) # bs))"
  shows "(\<lambda>w. if w \<in> set (snd (snd c)) then notes_of (as @ (x, c) # bs) w - {x} else notes_of (as @ (x, c) # bs) w) = notes_of (as @ bs)"
  using assms by (auto simp: notes_of_def fun_eq_iff image_iff)

lemma remove_note_indexed:
  assumes "listed s (as @ (x, c) # bs)" "words_ok (m_sInvalidator s) (as @ (x, c) # bs)"
    and "m_nodes_by_word s = notes_of (as @ (x, c) # bs)"
  shows "remove_note x s = Some (s\<lparr>m_nodes_by_word := notes_of (as @ bs)\<rparr>)"
proof -
  have d: "distinct (map fst (as @ (x, c) # bs))" using assms(1) by (simp add: listed_def)
  obtain p q where x: "l_heap s x = Some (node_of c p q)" using listed_allocated [OF assms(1), of x c] by auto
  have w: "distinct (snd (snd c))" "m_sInvalidator s = NullInvalidator \<Longrightarrow> snd (snd c) = []"
    using assms(2) by (auto simp: words_ok_def)
  have "\<forall>w \<in> set (snd (snd c)). x \<in> notes_of (as @ (x, c) # bs) w" unfolding notes_of_def by (cases c) auto
  then have "remove_note_words x (snd (snd c)) (m_nodes_by_word s) = Some (notes_of (as @ bs))"
    using remove_note_words_all [OF w(1)] notes_of_remove [OF d] by (simp add: assms(3))
  moreover have "m_sInvalidator s = NullInvalidator \<Longrightarrow> notes_of (as @ bs) = m_nodes_by_word s"
    using w(2) notes_of_remove [OF d] assms(3) by simp
  ultimately show ?thesis using x by (cases "m_sInvalidator s") (simp_all add: remove_note_def)
qed

end
