(* ===== verification/Lru_Evict.thy ===== *)
theory Lru_Evict
  imports Lru_List
begin

text \<open>
  Nodes that are freed, evicted and stored. The predicate \<open>shape\<close> is the invariant of \<open>LRUStorage\<close>: the
  list and the indexes by key and by word agree. Evicting takes exactly the least recently used nodes
  that are needed, and all loops end within the number of nodes.
\<close>

section \<open>Freeing nodes\<close>

definition shape :: "'st lru \<Rightarrow> (nat \<times> content) list \<Rightarrow> bool" where
  "shape s ns \<longleftrightarrow> listed s ns \<and> indexed s ns"

abbreviation sizes :: "(nat \<times> content) list \<Rightarrow> int" where
  "sizes ns \<equiv> \<Sum>n \<leftarrow> ns. fst (snd (snd n))"

text \<open>What stays the same when nodes come and go.\<close>

definition same_limits :: "'st lru \<Rightarrow> 'st lru \<Rightarrow> bool" where
  "same_limits s s' \<longleftrightarrow>
     lru_config s' = lru_config s \<and> m_max_count s' = m_max_count s \<and> m_max_size s' = m_max_size s \<and>
     m_sInvalidator s' = m_sInvalidator s"

lemma same_limits_refl [simp]: "same_limits s s"
  by (simp add: same_limits_def)

lemma same_limits_trans: "same_limits s t \<Longrightarrow> same_limits t u \<Longrightarrow> same_limits s u"
  by (simp add: same_limits_def)

lemma same_limits_simps [simp]:
  "same_limits s (relink ns h t) = same_limits s t" "same_limits s (t\<lparr>m_nodes_by_key := k\<rparr>) = same_limits s t"
  "same_limits s (t\<lparr>m_nodes_by_word := w\<rparr>) = same_limits s t" "same_limits s (t\<lparr>m_stats := st\<rparr>) = same_limits s t"
  "same_limits s (t\<lparr>m_pStorage := r\<rparr>) = same_limits s t" "same_limits s (t\<lparr>l_heap := h\<rparr>) = same_limits s t"
  "same_limits s (t\<lparr>l_next_address := a\<rparr>) = same_limits s t"
  by (simp_all add: same_limits_def relink_def)

lemma listed_frame [simp]:
  "listed (s\<lparr>m_nodes_by_key := k\<rparr>) ns = listed s ns" "listed (s\<lparr>m_nodes_by_word := w\<rparr>) ns = listed s ns"
  "listed (s\<lparr>m_stats := st\<rparr>) ns = listed s ns" "listed (s\<lparr>m_pStorage := r\<rparr>) ns = listed s ns"
  by (simp_all add: listed_def)

lemma indexed_frame [simp]:
  "indexed (relink ms h s) ns = indexed s ns" "indexed (s\<lparr>l_heap := h\<rparr>) ns = indexed s ns"
  "indexed (s\<lparr>m_stats := st\<rparr>) ns = indexed s ns" "indexed (s\<lparr>m_pStorage := r\<rparr>) ns = indexed s ns"
  by (simp_all add: indexed_def)

lemma shape_frame [simp]:
  "shape (s\<lparr>m_stats := st\<rparr>) ns = shape s ns" "shape (s\<lparr>m_pStorage := r\<rparr>) ns = shape s ns"
  by (simp_all add: shape_def)

lemma words_ok_subset: "words_ok i ns \<Longrightarrow> set ms \<subseteq> set ns \<Longrightarrow> words_ok i ms"
  by (auto simp: words_ok_def)

lemma words_ok_sizes: "words_ok i ns \<Longrightarrow> 0 \<le> sizes ns"
proof (induction ns)
  case (Cons n ns)
  then show ?case by (cases n) (auto simp: words_ok_def)
qed simp

lemma shape_sizes: "shape s ns \<Longrightarrow> set ms \<subseteq> set ns \<Longrightarrow> 0 \<le> sizes ms"
  by (rule words_ok_sizes, rule words_ok_subset [of "m_sInvalidator s" ns]) (simp_all add: shape_def indexed_def)

lemma free_node_listed:
  assumes "listed s (as @ (x, c) # bs)"
  shows "\<exists>h. free_node x INV_IGNORE s = Some (relink (as @ bs) h s) \<and> listed (relink (as @ bs) h s) (as @ bs) \<and> h x = None"
proof -
  obtain h where h: "remove_node x s = Some (relink (as @ bs) h s)" "listed (relink (as @ bs) h s) (as @ bs)" "detached x c h"
    using remove_node_listed [OF assms] by blast
  have x: "x \<notin> addrs (as @ bs)" using assms by (auto simp: listed_def)
  have "free_node x INV_IGNORE s = Some ((relink (as @ bs) h s)\<lparr>l_heap := h(x := None)\<rparr>)"
    using h(1,3) delete_node_detached [of x c "relink (as @ bs) h s"] by (simp add: free_node_def)
  moreover have eq: "(relink (as @ bs) h s)\<lparr>l_heap := h(x := None)\<rparr> = relink (as @ bs) (h(x := None)) s" by (simp add: relink_def)
  moreover have "listed (relink (as @ bs) (h(x := None)) s) (as @ bs)" using listed_delete [OF h(2) x] eq by simp
  ultimately show ?thesis by (intro exI [of _ "h(x := None)"]) simp
qed

lemma free_node_remove_listed:
  assumes "listed s (as @ (x, c) # bs)" "words_ok (m_sInvalidator s) (as @ (x, c) # bs)" "m_nodes_by_word s = notes_of (as @ (x, c) # bs)"
  shows "\<exists>h. free_node x INV_REMOVE s = Some (relink (as @ bs) h (s\<lparr>m_nodes_by_word := notes_of (as @ bs)\<rparr>)) \<and>
    listed (relink (as @ bs) h s) (as @ bs)"
proof -
  let ?s = "s\<lparr>m_nodes_by_word := notes_of (as @ bs)\<rparr>"
  have "remove_note x s = Some ?s" by (rule remove_note_indexed [OF assms])
  then have "free_node x INV_REMOVE s = free_node x INV_IGNORE ?s" by (simp add: free_node_def)
  moreover obtain h where "free_node x INV_IGNORE ?s = Some (relink (as @ bs) h ?s)" "listed (relink (as @ bs) h ?s) (as @ bs)"
    using free_node_listed [of ?s as x c bs] assms(1) by auto
  ultimately show ?thesis by (auto simp: listed_def)
qed

lemma free_node_at_shape:
  assumes "shape s (as @ (x, c) # bs)"
  shows "\<exists>s'. free_node_at (fst c) INV_REMOVE s = Some s' \<and> shape s' (as @ bs) \<and> same_limits s s' \<and>
    m_stats s' = m_stats s \<and> m_pStorage s' = m_pStorage s"
proof -
  have i: "indexed s (as @ (x, c) # bs)" using assms by (simp add: shape_def)
  then have k: "m_nodes_by_key s (fst c) = Some x" "(m_nodes_by_key s)(fst c := None) = keys_of (as @ bs)"
    using keys_of_middle [of as x c bs] keys_of_remove [of as x c bs] by (auto simp: indexed_def)
  obtain h where h: "free_node x INV_REMOVE s = Some (relink (as @ bs) h (s\<lparr>m_nodes_by_word := notes_of (as @ bs)\<rparr>))"
    "listed (relink (as @ bs) h s) (as @ bs)"
    using free_node_remove_listed [of s as x c bs] assms by (auto simp: shape_def indexed_def)
  let ?s = "(relink (as @ bs) h (s\<lparr>m_nodes_by_word := notes_of (as @ bs)\<rparr>))\<lparr>m_nodes_by_key := keys_of (as @ bs)\<rparr>"
  have "free_node_at (fst c) INV_REMOVE s = Some ?s" using h(1) k by (simp add: free_node_at_def)
  moreover have "shape ?s (as @ bs)"
    using h(2) i words_ok_subset [of "m_sInvalidator s" "as @ (x, c) # bs" "as @ bs"] by (auto simp: shape_def indexed_def listed_def)
  ultimately show ?thesis by auto
qed

subsection \<open>Evicting the least recently used nodes\<close>

lemma evict_tail:
  assumes "shape s (ns @ [(x, c)])"
  shows "\<exists>s'. free_node_data R x EVICTION s \<bind> remove_node x = Some s' \<and> shape s' ns \<and> detached x c (l_heap s') \<and>
    same_limits s s' \<and> ls_size (m_stats s') = ls_size (m_stats s) - fst (snd c) \<and> ls_items (m_stats s') = ls_items (m_stats s) - 1 \<and>
    m_pStorage s' = snd (rs_del_value R (fst c) (m_pStorage s))"
proof -
  have l: "listed s (ns @ [(x, c)])" and i: "indexed s (ns @ [(x, c)])" using assms by (simp_all add: shape_def)
  obtain p q where x: "l_heap s x = Some (node_of c p q)" using listed_allocated [OF l, of x c] by auto
  let ?st = "\<lambda>t. t\<lparr>ls_size := ls_size t - fst (snd c), ls_items := ls_items t - 1, ls_evictions := ls_evictions t + 1\<rparr>"
  let ?u = "upd_stats ?st (s\<lparr>m_pStorage := snd (rs_del_value R (fst c) (m_pStorage s)), m_nodes_by_key := keys_of ns\<rparr>)"
  have k: "(m_nodes_by_key s)(fst c := None) = keys_of ns"
    using i keys_of_remove [of ns x c "[]"] by (auto simp: indexed_def)
  have "remove_note x ?u = Some (?u\<lparr>m_nodes_by_word := notes_of ns\<rparr>)"
    using remove_note_indexed [of ?u ns x c "[]"] l i by (auto simp: indexed_def)
  then have f: "free_node_data R x EVICTION s = Some (?u\<lparr>m_nodes_by_word := notes_of ns\<rparr>)"
    by (simp add: free_node_data_def x k)
  obtain h where h: "remove_node x (?u\<lparr>m_nodes_by_word := notes_of ns\<rparr>) = Some (relink ns h (?u\<lparr>m_nodes_by_word := notes_of ns\<rparr>))"
    "listed (relink ns h (?u\<lparr>m_nodes_by_word := notes_of ns\<rparr>)) ns" "detached x c h"
    using remove_node_listed [of "?u\<lparr>m_nodes_by_word := notes_of ns\<rparr>" ns x c "[]"] l by auto
  moreover have "indexed (relink ns h (?u\<lparr>m_nodes_by_word := notes_of ns\<rparr>)) ns"
    using i words_ok_subset [of "m_sInvalidator s" "ns @ [(x, c)]" ns] by (auto simp: indexed_def)
  ultimately show ?thesis using f by (simp add: shape_def)
qed

text \<open>The storage after the values of some nodes have been deleted, the last one first.\<close>

definition del_values :: "'st raw_storage \<Rightarrow> (nat \<times> content) list \<Rightarrow> 'st \<Rightarrow> 'st" where
  "del_values R ns st = foldr (\<lambda>n st. snd (rs_del_value R (fst (snd n)) st)) ns st"

lemma del_values_simps [simp]:
  "del_values R [] st = st" "del_values R (n # ns) st = snd (rs_del_value R (fst (snd n)) (del_values R ns st))"
  "del_values R (as @ bs) st = del_values R as (del_values R bs st)"
  by (simp_all add: del_values_def)

definition evicted :: "'st raw_storage \<Rightarrow> (nat \<times> content) list \<Rightarrow> 'st lru \<Rightarrow> 'st lru \<Rightarrow> bool" where
  "evicted R gone s s' \<longleftrightarrow>
     same_limits s s' \<and> ls_size (m_stats s') = ls_size (m_stats s) - sizes gone \<and>
     ls_items (m_stats s') = ls_items (m_stats s) - int (length gone) \<and> m_pStorage s' = del_values R gone (m_pStorage s)"

lemma evicted_trans: "evicted R ns s t \<Longrightarrow> evicted R ms t u \<Longrightarrow> evicted R (ms @ ns) s u"
  by (auto simp: evicted_def intro: same_limits_trans)

lemma evicted_heap [simp]: "evicted R ns s (t\<lparr>l_heap := h\<rparr>) = evicted R ns s t"
  by (simp add: evicted_def)

lemma evict_tail_step:
  assumes "shape s (ns @ [(x, c)])"
  shows "\<exists>s'. free_node_data R x EVICTION s \<bind> remove_node x = Some s' \<and> shape s' ns \<and> detached x c (l_heap s') \<and>
    evicted R [(x, c)] s s'"
  using evict_tail [OF assms, of R] by (auto simp: evicted_def)

lemma shape_distinct: "shape s ns \<Longrightarrow> distinct (map fst ns)"
  by (simp add: shape_def listed_def)

lemma shape_tail: "shape s (ns @ [(x, c)]) \<Longrightarrow> m_pTail s = Some x"
  by (simp add: shape_def listed_def)

lemma shape_delete:
  assumes "shape s ns" "detached x c (l_heap s)" "x \<notin> addrs ns"
  shows "delete_node x s = Some (s\<lparr>l_heap := (l_heap s)(x := None)\<rparr>) \<and> shape (s\<lparr>l_heap := (l_heap s)(x := None)\<rparr>) ns"
  using assms delete_node_detached [OF assms(2)] listed_delete [of s ns x] by (simp add: shape_def)

lemma length_listed: "listed s ns \<Longrightarrow> length ns \<le> l_next_address s"
proof -
  assume l: "listed s ns"
  then have "card (addrs ns) = length ns" using distinct_card [of "map fst ns"] by (simp add: listed_def)
  moreover have "addrs ns \<subseteq> {..<l_next_address s}" using listed_below [OF l] by auto
  ultimately show ?thesis using card_mono [of "{..<l_next_address s}" "addrs ns"] by simp
qed

lemma evict_loop:
  assumes "shape s (ns @ [(x, c)])" "free_node_data R x EVICTION s \<bind> remove_node x = Some s1" "freed < needed" "fuel = Suc f"
  shows "vacate_loop fuel R needed freed s =
      (if freed + fst (snd c) < needed then delete_node x s1 \<bind> vacate_loop f R needed (freed + fst (snd c)) else Some (Some x, s1))"
proof -
  obtain p q where x: "l_heap s x = Some (node_of c p q)" using listed_allocated [of s "ns @ [(x, c)]" x c] assms(1) by (auto simp: shape_def)
  show ?thesis
    using assms(2-4) shape_tail [OF assms(1)] x by (subst vacate_loop.simps) (simp add: bind_assoc [symmetric] Let_def)
qed

text \<open>Enough nodes from the end of the list are evicted, and no more than that.\<close>

lemma vacate_loop_evicts:
  assumes "shape s ns" "freed < needed" "needed - freed \<le> sizes ns" "length ns \<le> fuel"
  shows "\<exists>keep x c gone s'. ns = keep @ (x, c) # gone \<and> sizes gone < needed - freed \<and> needed - freed \<le> sizes ((x, c) # gone) \<and>
    vacate_loop fuel R needed freed s = Some (Some x, s') \<and> shape s' keep \<and> detached x c (l_heap s') \<and> evicted R ((x, c) # gone) s s'"
  using assms
proof (induction ns arbitrary: s freed fuel rule: rev_induct)
  case (snoc n ns)
  obtain x c where n: "n = (x, c)" by (cases n)
  have sh: "shape s (ns @ [(x, c)])" using snoc.prems(1) n by simp
  obtain s1 where s1: "free_node_data R x EVICTION s \<bind> remove_node x = Some s1" "shape s1 ns" "detached x c (l_heap s1)"
    "evicted R [(x, c)] s s1" using evict_tail_step [OF sh, of R] by blast
  obtain f where f: "fuel = Suc f" "length ns \<le> f" using snoc.prems(4) by (cases fuel) auto
  have xn: "x \<notin> addrs ns" using shape_distinct [OF sh] by auto
  have loop: "vacate_loop fuel R needed freed s =
      (if freed + fst (snd c) < needed then delete_node x s1 \<bind> vacate_loop f R needed (freed + fst (snd c)) else Some (Some x, s1))"
    by (rule evict_loop [OF sh s1(1) snoc.prems(2) f(1)])
  show ?case
  proof (cases "freed + fst (snd c) < needed")
    case False
    then show ?thesis using loop s1 snoc.prems(2) n by (intro exI [of _ ns] exI [of _ x] exI [of _ c] exI [of _ "[]"]) auto
  next
    case True
    let ?s = "s1\<lparr>l_heap := (l_heap s1)(x := None)\<rparr>"
    have d: "delete_node x s1 = Some ?s" "shape ?s ns" using shape_delete [OF s1(2,3) xn] by auto
    obtain keep y d gone s' where r: "ns = keep @ (y, d) # gone" "sizes gone < needed - (freed + fst (snd c))"
      "needed - (freed + fst (snd c)) \<le> sizes ((y, d) # gone)"
      "vacate_loop f R needed (freed + fst (snd c)) ?s = Some (Some y, s')" "shape s' keep" "detached y d (l_heap s')"
      "evicted R ((y, d) # gone) ?s s'"
      using snoc.IH [OF d(2) True _ f(2)] snoc.prems(3) n by auto
    have "evicted R ((y, d) # gone @ [(x, c)]) s s'" using evicted_trans [of R "[(x, c)]" s ?s "(y, d) # gone" s'] s1(4) r(7) by simp
    then show ?thesis
      using r loop True d(1) n by (intro exI [of _ keep] exI [of _ y] exI [of _ d] exI [of _ "gone @ [(x, c)]"]) auto
  qed
qed simp

text \<open>A node of whatever content that is in no list.\<close>

definition loose :: "nat \<Rightarrow> heap \<Rightarrow> bool" where
  "loose x h \<longleftrightarrow> (\<exists>n. h x = Some n \<and> n_prev n = None \<and> n_next n = None)"

lemma detached_loose: "detached x c h \<Longrightarrow> loose x h"
  by (simp add: detached_def loose_def)

lemma vacate_loop_all:
  assumes "shape s ns" "freed < needed" "sizes ns < needed - freed" "length ns \<le> fuel"
  shows "\<exists>s'. vacate_loop fuel R needed freed s = Some (None, s') \<and> shape s' [] \<and> evicted R ns s s'"
  using assms
proof (induction ns arbitrary: s freed fuel rule: rev_induct)
  case Nil
  then have "m_pTail s = None" by (simp add: shape_def listed_def)
  then have "vacate_loop fuel R needed freed s = Some (None, s)" by (subst vacate_loop.simps) simp
  then show ?case using Nil.prems(1) by (simp add: evicted_def)
next
  case (snoc n ns)
  obtain x c where n: "n = (x, c)" by (cases n)
  have sh: "shape s (ns @ [(x, c)])" using snoc.prems(1) n by simp
  obtain s1 where s1: "free_node_data R x EVICTION s \<bind> remove_node x = Some s1" "shape s1 ns" "detached x c (l_heap s1)"
    "evicted R [(x, c)] s s1" using evict_tail_step [OF sh, of R] by blast
  obtain f where f: "fuel = Suc f" "length ns \<le> f" using snoc.prems(4) by (cases fuel) auto
  let ?s = "s1\<lparr>l_heap := (l_heap s1)(x := None)\<rparr>"
  have "x \<notin> addrs ns" using shape_distinct [OF sh] by auto
  then have d: "delete_node x s1 = Some ?s" "shape ?s ns" using shape_delete [OF s1(2,3)] by auto
  show ?case
  proof (cases "freed + fst (snd c) < needed")
    case True
    have "vacate_loop fuel R needed freed s = vacate_loop f R needed (freed + fst (snd c)) ?s"
      using evict_loop [OF sh s1(1) snoc.prems(2) f(1)] True d(1) by simp
    moreover obtain s' where "vacate_loop f R needed (freed + fst (snd c)) ?s = Some (None, s')" "shape s' []" "evicted R ns ?s s'"
      using snoc.IH [OF d(2) True _ f(2)] snoc.prems(3) n by auto
    ultimately show ?thesis using evicted_trans [of R "[(x, c)]" s ?s ns s'] s1(4) n by auto
  next
    case False
    moreover have "0 \<le> sizes ns" using shape_sizes [OF sh, of ns] by auto
    ultimately show ?thesis using snoc.prems(3) n by simp
  qed
qed

lemma shape_fresh: "shape s ns \<Longrightarrow> length ns \<le> l_next_address s"
  by (simp add: shape_def length_listed)

lemma shape_heap_other:
  assumes "shape s ns" "x \<notin> addrs ns" "x < l_next_address s"
  shows "shape (s\<lparr>l_heap := (l_heap s)(x := v)\<rparr>) ns"
  using assms by (auto simp: shape_def listed_def)

lemma loose_below: "shape s ns \<Longrightarrow> loose x (l_heap s) \<Longrightarrow> x < l_next_address s"
  by (auto simp: shape_def listed_def loose_def not_le [symmetric])

text \<open>A node that has been made free for reuse: it is on the heap and not in the list.\<close>

definition spare :: "nat \<Rightarrow> 'st lru \<Rightarrow> (nat \<times> content) list \<Rightarrow> bool" where
  "spare x s ns \<longleftrightarrow> shape s ns \<and> loose x (l_heap s) \<and> x \<notin> addrs ns"

lemma spare_clear:
  assumes "shape s keep" "detached x c (l_heap s)" "x \<notin> addrs keep"
  shows "\<exists>h. upd_node x node_clear (l_heap s) = Some h \<and> spare x (s\<lparr>l_heap := h\<rparr>) keep"
proof -
  have "x < l_next_address s" using loose_below [OF assms(1) detached_loose [OF assms(2)]] .
  then show ?thesis
    using assms(2,3) shape_heap_other [OF assms(1,3)]
    by (auto simp: spare_def upd_node_def loose_def node_clear_def detached_def)
qed

lemma vacate_space_enough:
  assumes "shape s ns" "0 < needed" "needed \<le> sizes ns"
  shows "\<exists>keep x c gone s'. ns = keep @ (x, c) # gone \<and> sizes gone < needed \<and> needed \<le> sizes ((x, c) # gone) \<and>
    vacate_lru_space R needed s = Some (Some x, s') \<and> spare x s' keep \<and> evicted R ((x, c) # gone) s s'"
proof -
  obtain keep x c gone t where t: "ns = keep @ (x, c) # gone" "sizes gone < needed" "needed \<le> sizes ((x, c) # gone)"
    "vacate_loop (l_next_address s) R needed 0 s = Some (Some x, t)" "shape t keep" "detached x c (l_heap t)"
    "evicted R ((x, c) # gone) s t"
    using vacate_loop_evicts [OF assms(1) assms(2), of "l_next_address s" R] assms(3) shape_fresh [OF assms(1)] by auto
  have "x \<notin> addrs keep" using shape_distinct [OF assms(1)] t(1) by auto
  then obtain h where h: "upd_node x node_clear (l_heap t) = Some h" "spare x (t\<lparr>l_heap := h\<rparr>) keep"
    using spare_clear [OF t(5,6)] by blast
  then have "vacate_lru_space R needed s = Some (Some x, t\<lparr>l_heap := h\<rparr>)" using t(4) by (simp add: vacate_lru_space_def)
  then show ?thesis using t h(2) by (intro exI [of _ keep] exI [of _ x] exI [of _ c] exI [of _ gone]) auto
qed

lemma vacate_space_all:
  assumes "shape s ns" "0 < needed" "sizes ns < needed"
  shows "\<exists>s'. vacate_lru_space R needed s = Some (None, s') \<and> shape s' [] \<and> evicted R ns s s'"
  using vacate_loop_all [OF assms(1,2), of "l_next_address s" R] assms(3) shape_fresh [OF assms(1)]
  by (auto simp: vacate_lru_space_def)

lemma vacate_lru_last:
  assumes "shape s (keep @ [(x, c)])"
  shows "\<exists>s'. vacate_lru R s = Some (x, s') \<and> spare x s' keep \<and> evicted R [(x, c)] s s'"
proof -
  obtain s' where s': "free_node_data R x EVICTION s \<bind> remove_node x = Some s'" "shape s' keep" "detached x c (l_heap s')"
    "evicted R [(x, c)] s s'"
    using evict_tail_step [OF assms, of R] by blast
  have "x \<notin> addrs keep" using shape_distinct [OF assms] by auto
  moreover have "vacate_lru R s = (free_node_data R x EVICTION s \<bind> remove_node x) \<bind> (\<lambda>s. Some (x, s))"
    using shape_tail [OF assms] by (simp add: vacate_lru_def bind_assoc)
  ultimately show ?thesis using s' detached_loose [OF s'(3)] by (simp add: spare_def)
qed

text \<open>A node that is new.\<close>

definition allocated :: "'st lru \<Rightarrow> 'st lru" where
  "allocated s = s\<lparr>l_heap := (l_heap s)(l_next_address s \<mapsto> new_node), l_next_address := l_next_address s + 1\<rparr>"

lemma spare_allocated:
  assumes "shape s ns"
  shows "spare (l_next_address s) (allocated s) ns"
proof -
  have "l_next_address s \<notin> addrs ns" using listed_below [of s ns "l_next_address s"] assms by (auto simp: shape_def)
  then show ?thesis
    using assms by (auto simp: spare_def allocated_def shape_def listed_def indexed_def loose_def new_node_def)
qed

section \<open>Storing a value\<close>

lemma node_reset_of [simp]: "node_reset k n ws (node_of c p q) = node_of (k, n, ws) p q"
  by (cases c) (simp add: node_reset_def node_of.simps)

lemma make_note_listed:
  assumes "l_heap s x = Some n" "m_sInvalidator s = NullInvalidator \<longrightarrow> invalidation_words n = []"
  shows "make_note x s = Some (s\<lparr>m_nodes_by_word := \<lambda>w. if w \<in> set (invalidation_words n) then insert x (m_nodes_by_word s w)
                                            else m_nodes_by_word s w\<rparr>)"
  using assms by (cases "m_sInvalidator s") (simp_all add: make_note_def)

lemma notes_of_Cons: "notes_of ((x, c) # ns) = (\<lambda>w. if w \<in> set (snd (snd c)) then insert x (notes_of ns w) else notes_of ns w)"
  by (cases c) (auto simp: notes_of_def fun_eq_iff)

lemma node_words_Null [simp]: "node_words NullInvalidator ws = []"
  by (simp add: node_words_def)

lemma node_reset_loose:
  "n_prev n = None \<Longrightarrow> n_next n = None \<Longrightarrow> node_reset k sz ws n = node_of (k, sz, ws) None None"
  by (simp add: node_reset_def node_of.simps)

lemma value_stored_new:
  assumes "spare x s ns" "key \<notin> set (keys ns)" "0 \<le> n" "distinct (node_words (m_sInvalidator s) words)"
  defines "c \<equiv> (key, n, node_words (m_sInvalidator s) words)"
  shows "\<exists>t. value_stored key words n False x (s\<lparr>m_nodes_by_key := (m_nodes_by_key s)(key \<mapsto> x)\<rparr>) = Some t \<and>
    shape t ((x, c) # ns) \<and> same_limits s t \<and> m_pStorage t = m_pStorage s \<and>
    ls_items (m_stats t) = ls_items (m_stats s) + 1 \<and> ls_size (m_stats t) = ls_size (m_stats s) + n"
proof -
  have sh: "shape s ns" "x \<notin> addrs ns" "loose x (l_heap s)" using assms(1) by (simp_all add: spare_def)
  then obtain m where m: "l_heap s x = Some m" "n_prev m = None" "n_next m = None" by (auto simp: loose_def)
  have xa: "x < l_next_address s" using loose_below [OF sh(1,3)] .
  let ?ws = "node_words (m_sInvalidator s) words"
  let ?h = "(l_heap s)(x \<mapsto> node_of c None None)"
  let ?st = "\<lambda>t. t\<lparr>ls_items := ls_items t + 1, ls_size := ls_size t + n\<rparr>"
  let ?u = "s\<lparr>m_nodes_by_key := (m_nodes_by_key s)(key \<mapsto> x), l_heap := ?h,
     m_nodes_by_word := notes_of ((x, c) # ns), m_stats := ?st (m_stats s)\<rparr>"
  have w: "m_nodes_by_word s = notes_of ns" "m_nodes_by_key s = keys_of ns" "distinct (keys ns)" "words_ok (m_sInvalidator s) ns"
    using sh(1) by (simp_all add: shape_def indexed_def)
  have l: "listed ?u ns" using shape_heap_other [OF sh(1,2) xa] by (simp add: shape_def listed_def)
  have v: "value_stored key words n False x (s\<lparr>m_nodes_by_key := (m_nodes_by_key s)(key \<mapsto> x)\<rparr>) = move_to_head x ?u"
    using m by (simp add: value_stored_def Let_def upd_node_def node_reset_loose [OF m(2,3)] make_note_listed notes_of_Cons w c_def cong: if_cong)
  obtain h where h: "move_to_head x ?u = Some (relink ((x, c) # ns) h ?u)" "listed (relink ((x, c) # ns) h ?u) ((x, c) # ns)"
    using move_detached_to_head [OF l, of x c] sh(2) by (auto simp: detached_def)
  have "indexed (relink ((x, c) # ns) h ?u) ((x, c) # ns)"
    using assms(2-4) w by (auto simp: indexed_def words_ok_def c_def)
  then show ?thesis using v h by (auto simp: shape_def)
qed

lemma chain_replace:
  assumes "distinct (map fst (as @ (x, c) # bs))" "chain h None (as @ (x, c) # bs) None"
  shows "chain (h(x \<mapsto> node_of d (last_or None as) (first_or bs None))) None (as @ (x, d) # bs) None"
  using assms by (auto simp: chain_append)

lemma value_stored_existing:
  assumes "shape s (as @ (x, c) # bs)" "0 \<le> n" "node_words (m_sInvalidator s) words = snd (snd c)"
  defines "d \<equiv> (fst c, n, snd (snd c))"
  shows "\<exists>t. value_stored (fst c) words n True x s = Some t \<and>
    shape t ((x, d) # as @ bs) \<and> same_limits s t \<and> m_pStorage t = m_pStorage s \<and>
    ls_items (m_stats t) = ls_items (m_stats s) \<and> ls_size (m_stats t) = ls_size (m_stats s) - fst (snd c) + n"
proof -
  let ?ns = "as @ (x, c) # bs"
  let ?p = "last_or None as" and ?q = "first_or bs None"
  have l: "listed s ?ns" and i: "indexed s ?ns" using assms(1) by (simp_all add: shape_def)
  have x: "l_heap s x = Some (node_of c ?p ?q)" using l chain_lookup [of "l_heap s" None as x c bs] by (simp add: listed_def)
  have w: "m_nodes_by_word s = notes_of ?ns" "m_nodes_by_key s = keys_of ?ns" "distinct (keys ?ns)" "words_ok (m_sInvalidator s) ?ns"
    using i by (simp_all add: indexed_def)
  have k: "keys_of ?ns (fst c) = Some x" by (rule keys_of_middle [OF w(3)])
  let ?st = "\<lambda>t. t\<lparr>ls_updates := ls_updates t + 1, ls_size := ls_size t - fst (snd c) + n\<rparr>"
  let ?u = "s\<lparr>l_heap := (l_heap s)(x \<mapsto> node_of d ?p ?q), m_nodes_by_word := notes_of ?ns, m_stats := ?st (m_stats s)\<rparr>"
  have same: "(\<lambda>w. if w \<in> set (snd (snd c)) then insert x (notes_of ?ns w) else notes_of ?ns w) = notes_of ?ns"
    by (cases c) (auto simp: notes_of_def fun_eq_iff)
  have null: "m_sInvalidator s = NullInvalidator \<longrightarrow> snd (snd c) = []" using w(4) by (auto simp: words_ok_def)
  have v: "value_stored (fst c) words n True x s = move_to_head x ?u"
    using x k null by (simp add: value_stored_def Let_def upd_node_def make_note_listed w same assms(3) d_def cong: if_cong)
  have "listed ?u (as @ (x, d) # bs)"
    using l chain_replace [of as x c bs "l_heap s" d] listed_below [OF l, of x] by (auto simp: listed_def)
  then obtain h where h: "move_to_head x ?u = Some (relink ((x, d) # as @ bs) h ?u)"
    "listed (relink ((x, d) # as @ bs) h ?u) ((x, d) # as @ bs)"
    using move_listed_to_head by blast
  have "notes_of ((x, d) # as @ bs) = notes_of ?ns" by (cases c) (auto simp: notes_of_def d_def fun_eq_iff)
  moreover have "keys_of ((x, d) # as @ bs) = keys_of ?ns" using keys_of_front [OF w(3)] by (simp add: d_def)
  ultimately have "indexed (relink ((x, d) # as @ bs) h ?u) ((x, d) # as @ bs)"
    using w assms(2) by (auto simp: indexed_def words_ok_def d_def)
  then show ?thesis using v h by (auto simp: shape_def)
qed

subsection \<open>Finding a node\<close>

lemma evicted_none [simp]: "evicted R [] s s"
  by (simp add: evicted_def)

lemma evicted_allocated [simp]: "evicted R [] s (allocated s)"
  by (simp add: evicted_def allocated_def)

lemma get_new_node_shed:
  assumes "shape s ns" "m_max_size s < ls_size (m_stats s) + int (length value)" "0 < length value" "int (length value) \<le> sizes ns"
  shows "\<exists>keep x c gone s'. ns = keep @ (x, c) # gone \<and> sizes gone < int (length value) \<and> int (length value) \<le> sizes ((x, c) # gone) \<and>
    spare x s' keep \<and> evicted R ((x, c) # gone) s s' \<and>
    get_new_node R key value s = Some (CACHE_RESULT_OK, Some x, s'\<lparr>m_nodes_by_key := (m_nodes_by_key s')(key \<mapsto> x)\<rparr>)"
proof -
  obtain keep x c gone s' where s': "ns = keep @ (x, c) # gone" "sizes gone < int (length value)" "int (length value) \<le> sizes ((x, c) # gone)"
    "vacate_lru_space R (int (length value)) s = Some (Some x, s')" "spare x s' keep" "evicted R ((x, c) # gone) s s'"
    using vacate_space_enough [OF assms(1), of "int (length value)" R] assms(3,4) by auto
  have "get_new_node R key value s = Some (CACHE_RESULT_OK, Some x, s'\<lparr>m_nodes_by_key := (m_nodes_by_key s')(key \<mapsto> x)\<rparr>)"
    using assms(2) s'(4) by (simp add: get_new_node_def Let_def)
  then show ?thesis using s' by blast
qed

lemma get_new_node_flush:
  assumes "shape s ns" "m_max_size s < ls_size (m_stats s) + int (length value)" "0 < length value" "sizes ns < int (length value)"
  shows "\<exists>s'. get_new_node R key value s = Some (CACHE_RESULT_OUT_OF_RESOURCES, None, s') \<and> shape s' [] \<and> evicted R ns s s'"
  using vacate_space_all [OF assms(1), of "int (length value)" R] assms by (auto simp: get_new_node_def Let_def)

lemma get_new_node_full:
  assumes "shape s (keep @ [(x, c)])" "ls_size (m_stats s) + int (length value) \<le> m_max_size s" "ls_items (m_stats s) = m_max_count s"
  shows "\<exists>s'. spare x s' keep \<and> evicted R [(x, c)] s s' \<and>
    get_new_node R key value s = Some (CACHE_RESULT_OK, Some x, s'\<lparr>m_nodes_by_key := (m_nodes_by_key s')(key \<mapsto> x)\<rparr>)"
  using vacate_lru_last [OF assms(1), of R] assms(2,3) by (auto simp: get_new_node_def Let_def)

lemma get_new_node_room:
  assumes "shape s ns" "ls_size (m_stats s) + int (length value) \<le> m_max_size s" "ls_items (m_stats s) \<noteq> m_max_count s"
  shows "get_new_node R key value s =
      Some (CACHE_RESULT_OK, Some (l_next_address s), (allocated s)\<lparr>m_nodes_by_key := (m_nodes_by_key (allocated s))(key \<mapsto> l_next_address s)\<rparr>)"
  using assms by (simp add: get_new_node_def Let_def allocated_def)

end
