(* ===== verification/Lru_Refine.thy ===== *)
theory Lru_Refine
  imports Lru_Evict
begin

text \<open>
  What \<open>LRUStorage\<close> promises to its user, as operations on a list of entries, and that the operations on
  nodes and pointers refine them. The storage of the values is an interface, the locale \<open>raw_store\<close>.
\<close>

section \<open>What the storage promises\<close>

text \<open>
  For the user of the storage it is a list of entries, the most recently used one first: the key, the
  value and the words that invalidate it.
\<close>

type_synonym cached = "cache_key \<times> bytes \<times> string list"

abbreviation volume :: "cached list \<Rightarrow> int" where
  "volume es \<equiv> \<Sum>e \<leftarrow> es. int (length (fst (snd e)))"

definition without :: "cache_key \<Rightarrow> cached list \<Rightarrow> cached list" where
  "without key es = filter (\<lambda>e. fst e \<noteq> key) es"

text \<open>The entries that are kept when the last ones have to make room.\<close>

fun shed :: "int \<Rightarrow> cached list \<Rightarrow> cached list" where
  "shed n [] = []"
| "shed n (e # es) = (if n \<le> volume es then e # shed n es else [])"

definition spec_get :: "cache_key \<Rightarrow> cached list \<Rightarrow> (u32 \<times> bytes option) \<times> cached list" where
  "spec_get key es =
     (case map_of es key of
        Some (value, words) \<Rightarrow> ((CACHE_RESULT_OK, Some value), (key, value, words) # without key es)
      | None \<Rightarrow> ((CACHE_RESULT_NOT_FOUND, None), es))"

definition spec_put :: "int \<Rightarrow> int \<Rightarrow> cache_key \<Rightarrow> bytes \<Rightarrow> string list \<Rightarrow> cached list \<Rightarrow> u32 \<times> cached list" where
  "spec_put ms mc key value words es =
     (let size = int (length value); others = without key es in
      if key \<in> fst ` set es then
        (if size > ms then (CACHE_RESULT_OUT_OF_RESOURCES, others)
         else if volume others + size > ms then
           (CACHE_RESULT_OK, (key, value, words) # shed (size - (volume es - volume others)) others)
         else (CACHE_RESULT_OK, (key, value, words) # others))
      else if volume es + size > ms then
        (if volume es < size then (CACHE_RESULT_OUT_OF_RESOURCES, [])
         else (CACHE_RESULT_OK, (key, value, words) # shed size es))
      else if int (length es) = mc then (CACHE_RESULT_OK, (key, value, words) # butlast es)
      else (CACHE_RESULT_OK, (key, value, words) # es))"

definition spec_del :: "cache_key \<Rightarrow> cached list \<Rightarrow> u32 \<times> cached list" where
  "spec_del key es = (if key \<in> fst ` set es then CACHE_RESULT_OK else CACHE_RESULT_NOT_FOUND, without key es)"

definition spec_invalidate :: "string list \<Rightarrow> cached list \<Rightarrow> cached list" where
  "spec_invalidate words es = filter (\<lambda>e. set (snd (snd e)) \<inter> set words = {}) es"

text \<open>
  An entry is replaced by one with the same words, and if it has to grow beyond what is left, by no
  more than what the others occupy.
\<close>

definition put_safe :: "int \<Rightarrow> cache_key \<Rightarrow> bytes \<Rightarrow> string list \<Rightarrow> cached list \<Rightarrow> bool" where
  "put_safe ms key value words es \<longleftrightarrow>
     distinct words \<and>
     (case map_of es key of
        None \<Rightarrow> True
      | Some (old, old_words) \<Rightarrow>
          words = old_words \<and>
          (int (length value) \<le> ms \<longrightarrow> ms < volume (without key es) + int (length value) \<longrightarrow>
           int (length value) - int (length old) \<le> volume (without key es)))"

subsection \<open>Entries and nodes\<close>

definition content_of :: "cached \<Rightarrow> content" where
  "content_of e = (fst e, int (length (fst (snd e))), snd (snd e))"

definition models :: "(nat \<times> content) list \<Rightarrow> cached list \<Rightarrow> bool" where
  "models ns es \<longleftrightarrow> map snd ns = map content_of es"

lemma models_simps [simp]:
  "models [] es \<longleftrightarrow> es = []" "models ns [] \<longleftrightarrow> ns = []" "models (n # ns) (e # es) \<longleftrightarrow> snd n = content_of e \<and> models ns es"
  by (auto simp: models_def)

lemma models_append: "models (as @ bs) es \<longleftrightarrow> (\<exists>xs ys. es = xs @ ys \<and> models as xs \<and> models bs ys)"
  by (auto simp: models_def append_eq_map_conv)

lemma models_appendI [intro]: "models as xs \<Longrightarrow> models bs ys \<Longrightarrow> models (as @ bs) (xs @ ys)"
  by (auto simp: models_append)

lemma models_Cons: "models (n # ns) es \<longleftrightarrow> (\<exists>x xs. es = x # xs \<and> snd n = content_of x \<and> models ns xs)"
  by (auto simp: models_def)

lemma models_length: "models ns es \<Longrightarrow> length ns = length es"
  unfolding models_def by (metis length_map)

lemma models_sizes: "models ns es \<Longrightarrow> sizes ns = volume es"
proof (induction ns arbitrary: es)
  case (Cons n ns)
  then obtain x xs where "es = x # xs" "snd n = content_of x" "models ns xs" by (auto simp: models_Cons)
  then show ?case using Cons.IH by (simp add: content_of_def)
qed simp

lemma models_keys: "models ns es \<Longrightarrow> keys ns = map fst es"
proof (induction ns arbitrary: es)
  case (Cons n ns)
  then obtain x xs where "es = x # xs" "snd n = content_of x" "models ns xs" by (auto simp: models_Cons)
  then show ?case using Cons.IH by (simp add: content_of_def)
qed simp

lemma volume_nonneg: "0 \<le> volume es"
  by (induction es) simp_all

lemma shed_split:
  "volume gone < n \<Longrightarrow> n \<le> volume (e # gone) \<Longrightarrow> shed n (keep @ e # gone) = keep"
proof (induction keep)
  case (Cons k keep)
  moreover have "n \<le> volume (keep @ e # gone)" using Cons.prems volume_nonneg [of keep] by simp
  ultimately show ?case by simp
qed simp

definition value_of :: "cached list \<Rightarrow> cache_key \<rightharpoonup> bytes" where
  "value_of es = map_option fst \<circ> map_of es"

text \<open>The statistics and the storage agree with the entries, whose order does not matter here.\<close>

definition accounts :: "('st \<Rightarrow> bool) \<Rightarrow> ('st \<Rightarrow> cache_key \<rightharpoonup> bytes) \<Rightarrow> 'st lru \<Rightarrow> cached list \<Rightarrow> bool" where
  "accounts fine held s es \<longleftrightarrow>
     ls_items (m_stats s) = int (length es) \<and> ls_size (m_stats s) = volume es \<and> fine (m_pStorage s) \<and>
     held (m_pStorage s) = value_of es"

definition stores :: "('st \<Rightarrow> bool) \<Rightarrow> ('st \<Rightarrow> cache_key \<rightharpoonup> bytes) \<Rightarrow> 'st lru \<Rightarrow> cached list \<Rightarrow> bool" where
  "stores fine held s es \<longleftrightarrow>
     (\<exists>ns. shape s ns \<and> models ns es) \<and> accounts fine held s es"

definition fits :: "'st lru \<Rightarrow> cached list \<Rightarrow> bool" where
  "fits s es \<longleftrightarrow> volume es \<le> m_max_size s \<and> int (length es) \<le> m_max_count s \<and> 0 < m_max_count s \<and> m_sInvalidator s \<noteq> StorageInvalidator"

lemma value_of_simps [simp]: "value_of [] = Map.empty" "value_of ((k, v, ws) # es) = (value_of es)(k \<mapsto> v)"
  by (auto simp: value_of_def fun_eq_iff)

lemma value_of_keep:
  assumes "distinct (map fst (keep @ gone))"
  shows "value_of (keep @ gone) |` (- fst ` set gone) = value_of keep"
proof
  fix k
  have "k \<in> fst ` set gone \<Longrightarrow> map_of keep k = None" using assms by (auto simp: map_of_eq_None_iff)
  moreover have "k \<notin> fst ` set gone \<Longrightarrow> map_of gone k = None" by (simp add: map_of_eq_None_iff)
  ultimately show "(value_of (keep @ gone) |` (- fst ` set gone)) k = value_of keep k"
    by (cases "k \<in> fst ` set gone") (simp_all add: value_of_def map_add_def restrict_map_def split: option.splits)
qed

text \<open>
  The laws that the storage of the values has to satisfy: a state of it that is fine holds values by
  key, and its methods read, replace and remove them, whatever the time is.
\<close>

locale raw_store =
  fixes R :: "int \<Rightarrow> 'st raw_storage" and fine :: "'st \<Rightarrow> bool" and held :: "'st \<Rightarrow> cache_key \<rightharpoonup> bytes"
  assumes put_law: "fine st \<Longrightarrow> \<exists>st'. rs_put_value (R now) key [] value st = (CACHE_RESULT_OK, st') \<and> fine st' \<and>
      held st' = (held st)(key \<mapsto> value)"
    and del_law: "fine st \<Longrightarrow>
      \<exists>st'. rs_del_value (R now) key st = (if held st key = None then CACHE_RESULT_NOT_FOUND else CACHE_RESULT_OK, st') \<and> fine st' \<and>
      held st' = (held st)(key := None)"
    and get_law: "fine st \<Longrightarrow> held st key = Some value \<Longrightarrow>
      \<exists>st'. rs_get_value (R now) key flags CACHE_USE_CONFIG_TTL CACHE_USE_CONFIG_TTL st = (CACHE_RESULT_OK, Some value, st') \<and>
      fine st' \<and> held st' = held st"
    and clear_law: "fine st \<Longrightarrow> \<exists>st'. rs_clear (R now) st = (CACHE_RESULT_OK, st') \<and> fine st' \<and> held st' = Map.empty"
begin

lemma del_values_fine:
  assumes "fine st"
  shows "fine (del_values (R now) ns st) \<and> held (del_values (R now) ns st) = held st |` (- set (keys ns))"
proof (induction ns)
  case (Cons n ns)
  obtain st' where st': "snd (rs_del_value (R now) (fst (snd n)) (del_values (R now) ns st)) = st'" "fine st'"
    "held st' = (held (del_values (R now) ns st))(fst (snd n) := None)"
    using del_law [of "del_values (R now) ns st" now "fst (snd n)"] Cons.IH by auto
  then show ?case using Cons.IH by (auto simp: fun_eq_iff restrict_map_def)
qed (use assms in simp)

lemma evicted_accounts:
  assumes "accounts fine held s (ek @ eg)" "evicted (R now) gone s s'" "models gone eg" "distinct (map fst (ek @ eg))"
  shows "accounts fine held s' ek"
proof -
  have "m_pStorage s' = del_values (R now) gone (m_pStorage s)" "ls_items (m_stats s') = ls_items (m_stats s) - int (length gone)"
    "ls_size (m_stats s') = ls_size (m_stats s) - sizes gone"
    using assms(2) by (simp_all add: evicted_def)
  moreover have "set (keys gone) = fst ` set eg" using models_keys [OF assms(3)] by simp
  ultimately show ?thesis
    using del_values_fine [of "m_pStorage s" now gone] value_of_keep [OF assms(4)] assms(1) models_length [OF assms(3)]
      models_sizes [OF assms(3)]
    by (auto simp: accounts_def)
qed

lemma evicted_stores:
  assumes "stores fine held s (ek @ eg)" "evicted (R now) gone s s'" "shape s' keep" "models keep ek" "models gone eg"
    "distinct (map fst (ek @ eg))"
  shows "stores fine held s' ek"
  using evicted_accounts [OF _ assms(2,5,6)] assms(1,3,4) by (auto simp: stores_def accounts_def)

lemma put_into_node:
  assumes "spare x s' keep" "models keep ek" "stores fine held s' ek" "key \<notin> set (keys ns)" "set (keys keep) \<subseteq> set (keys ns)"
    "m_nodes_by_key s = keys_of ns" "same_limits s s'" "m_sInvalidator s \<noteq> StorageInvalidator" "distinct words"
    "get_new_node (R now) key value s = Some (CACHE_RESULT_OK, Some x, s'\<lparr>m_nodes_by_key := (m_nodes_by_key s')(key \<mapsto> x)\<rparr>)"
  shows "\<exists>t. do_put_value (R now) key words value s = Some (CACHE_RESULT_OK, t) \<and> same_limits s t \<and>
    stores fine held t ((key, value, node_words (m_sInvalidator s) words) # ek)"
proof -
  have st: "fine (m_pStorage s')" "held (m_pStorage s') = value_of ek" "ls_items (m_stats s') = int (length ek)" "ls_size (m_stats s') = volume ek"
    using assms(3) by (simp_all add: stores_def accounts_def)
  obtain r where r: "rs_put_value (R now) key [] value (m_pStorage s') = (CACHE_RESULT_OK, r)" "fine r"
    "held r = (held (m_pStorage s'))(key \<mapsto> value)"
    using put_law [OF st(1), of now key "value"] by blast
  have i: "m_sInvalidator s' = m_sInvalidator s" using assms(7) by (simp add: same_limits_def)
  let ?c = "(key, int (length value), node_words (m_sInvalidator s) words)"
  have sp: "spare x (s'\<lparr>m_pStorage := r\<rparr>) keep" using assms(1) by (simp add: spare_def)
  have side: "key \<notin> set (keys keep)" "distinct (node_words (m_sInvalidator s) words)"
    using assms(4,5,9) by (auto simp: node_words_def split: invalidator.splits)
  have swap: "s'\<lparr>m_nodes_by_key := (m_nodes_by_key s')(key \<mapsto> x), m_pStorage := r\<rparr> =
      s'\<lparr>m_pStorage := r, m_nodes_by_key := (m_nodes_by_key s')(key \<mapsto> x)\<rparr>" by simp
  obtain t where t: "value_stored key words (int (length value)) False x
        (s'\<lparr>m_nodes_by_key := (m_nodes_by_key s')(key \<mapsto> x), m_pStorage := r\<rparr>) = Some t"
    "shape t ((x, ?c) # keep)" "same_limits (s'\<lparr>m_pStorage := r\<rparr>) t" "m_pStorage t = r"
    "ls_items (m_stats t) = ls_items (m_stats s') + 1" "ls_size (m_stats t) = ls_size (m_stats s') + int (length value)"
    using value_stored_new [OF sp side(1), of "int (length value)" words] side(2) i unfolding swap by auto
  have "m_nodes_by_key s key = None" using assms(4,6) by (simp add: keys_of_None)
  moreover have "storage_words (m_sInvalidator s) words = []" using assms(8) by (cases "m_sInvalidator s") (simp_all add: storage_words_def)
  ultimately have "do_put_value (R now) key words value s = Some (CACHE_RESULT_OK, t)"
    using assms(10) r(1) t(1) i by (simp add: do_put_value_def Let_def)
  moreover have "same_limits s t" using assms(7) t(3) by (simp add: same_limits_def)
  moreover have "models ((x, ?c) # keep) ((key, value, node_words (m_sInvalidator s) words) # ek)"
    using assms(2) by (simp add: content_of_def)
  ultimately show ?thesis using t r st by (auto simp: stores_def accounts_def)
qed

end

abbreviation put_result :: "'st lru \<Rightarrow> cache_key \<Rightarrow> bytes \<Rightarrow> string list \<Rightarrow> cached list \<Rightarrow> u32 \<times> cached list" where
  "put_result s key v words es \<equiv> spec_put (m_max_size s) (m_max_count s) key v (node_words (m_sInvalidator s) words) es"

lemma shape_keys: "shape s ns \<Longrightarrow> distinct (keys ns) \<and> m_nodes_by_key s = keys_of ns"
  by (simp add: shape_def indexed_def)

lemma stores_distinct: "stores fine held s es \<Longrightarrow> distinct (map fst es)"
  using models_keys shape_keys by (fastforce simp: stores_def accounts_def)

context raw_store
begin

lemma put_into:
  assumes "shape s ns" "models ns es" "fits s es" "key \<notin> fst ` set es" "distinct words"
    and "spare x s' keep" "models keep ek" "set ek \<subseteq> set es" "same_limits s s'" "stores fine held s' ek"
    and "get_new_node (R now) key v s = Some (CACHE_RESULT_OK, Some x, s'\<lparr>m_nodes_by_key := (m_nodes_by_key s')(key \<mapsto> x)\<rparr>)"
  shows "\<exists>t. do_put_value (R now) key words v s = Some (CACHE_RESULT_OK, t) \<and> same_limits s t \<and>
    stores fine held t ((key, v, node_words (m_sInvalidator s) words) # ek)"
proof -
  have ks: "set (keys ns) = fst ` set es" "set (keys keep) = fst ` set ek" using models_keys [OF assms(2)] models_keys [OF assms(7)] by simp_all
  show ?thesis
    by (rule put_into_node [OF assms(6,7,10) _ _ _ assms(9) _ assms(5,11), of ns])
      (use ks assms(3,4,8) shape_keys [OF assms(1)] in \<open>simp_all add: fits_def image_mono\<close>)
qed

lemma put_new_shed:
  assumes "stores fine held s es" "fits s es" "key \<notin> fst ` set es" "distinct words"
    "m_max_size s < volume es + int (length v)" "int (length v) \<le> volume es"
  shows "\<exists>t. do_put_value (R now) key words v s = Some (CACHE_RESULT_OK, t) \<and> same_limits s t \<and>
    stores fine held t ((key, v, node_words (m_sInvalidator s) words) # shed (int (length v)) es)"
proof -
  obtain ns where ns: "shape s ns" "models ns es" using assms(1) by (auto simp: stores_def accounts_def)
  have sz: "ls_size (m_stats s) = volume es" "sizes ns = volume es" using assms(1) models_sizes [OF ns(2)] by (simp_all add: stores_def accounts_def)
  have pos: "0 < length v" using assms(2,5) by (auto simp: fits_def)
  obtain keep x c gone s' where g: "ns = keep @ (x, c) # gone" "sizes gone < int (length v)" "int (length v) \<le> sizes ((x, c) # gone)"
    "spare x s' keep" "evicted (R now) ((x, c) # gone) s s'"
    "get_new_node (R now) key v s = Some (CACHE_RESULT_OK, Some x, s'\<lparr>m_nodes_by_key := (m_nodes_by_key s')(key \<mapsto> x)\<rparr>)"
    using get_new_node_shed [OF ns(1), of v "R now" key] assms(5,6) sz pos by auto
  obtain ek e eg where e: "es = ek @ e # eg" "models keep ek" "models ((x, c) # gone) (e # eg)"
    using ns(2) g(1) by (auto simp: models_append models_Cons)
  have "shed (int (length v)) es = ek"
    unfolding e(1) by (rule shed_split) (use g(2,3) models_sizes [OF e(3)] models_sizes [of gone eg] e(3) in auto)
  moreover have "stores fine held s' ek"
    using evicted_stores [OF _ g(5), of ek "e # eg" keep] assms(1) e g(4) stores_distinct [OF assms(1)] by (auto simp: spare_def)
  moreover have "set ek \<subseteq> set es" "same_limits s s'" using e(1) g(5) by (auto simp: evicted_def)
  ultimately show ?thesis using put_into [OF ns assms(2-4) g(4) e(2) _ _ _ g(6)] by simp
qed

lemma put_new_flush:
  assumes "stores fine held s es" "fits s es" "key \<notin> fst ` set es"
    "m_max_size s < volume es + int (length v)" "volume es < int (length v)"
  shows "\<exists>t. do_put_value (R now) key words v s = Some (CACHE_RESULT_OUT_OF_RESOURCES, t) \<and> same_limits s t \<and> stores fine held t []"
proof -
  obtain ns where ns: "shape s ns" "models ns es" using assms(1) by (auto simp: stores_def accounts_def)
  have sz: "ls_size (m_stats s) = volume es" "sizes ns = volume es" using assms(1) models_sizes [OF ns(2)] by (simp_all add: stores_def accounts_def)
  have pos: "0 < length v" using assms(5) volume_nonneg [of es] by linarith
  have k: "m_nodes_by_key s key = None" using assms(3) shape_keys [OF ns(1)] models_keys [OF ns(2)] by (simp add: keys_of_None)
  obtain t where t: "get_new_node (R now) key v s = Some (CACHE_RESULT_OUT_OF_RESOURCES, None, t)" "shape t []" "evicted (R now) ns s t"
    using get_new_node_flush [OF ns(1), of v "R now" key] assms(4,5) sz pos by auto
  have "do_put_value (R now) key words v s = Some (CACHE_RESULT_OUT_OF_RESOURCES, t)"
    using k t(1) by (simp add: do_put_value_def)
  moreover have "stores fine held t []"
    using evicted_stores [of s "[]" es now ns t "[]"] assms(1) t ns(2) stores_distinct [OF assms(1)] by simp
  ultimately show ?thesis using t(3) by (auto simp: evicted_def)
qed

lemma put_new_full:
  assumes "stores fine held s es" "fits s es" "key \<notin> fst ` set es" "distinct words"
    "volume es + int (length v) \<le> m_max_size s" "int (length es) = m_max_count s"
  shows "\<exists>t. do_put_value (R now) key words v s = Some (CACHE_RESULT_OK, t) \<and> same_limits s t \<and>
    stores fine held t ((key, v, node_words (m_sInvalidator s) words) # butlast es)"
proof -
  obtain ns where ns: "shape s ns" "models ns es" using assms(1) by (auto simp: stores_def accounts_def)
  have "es \<noteq> []" using assms(2,6) by (auto simp: fits_def)
  then obtain ek e where e: "es = ek @ [e]" by (cases es rule: rev_cases) auto
  then obtain keep x c where n: "ns = keep @ [(x, c)]" "models keep ek" "models [(x, c)] [e]"
    using ns(2) by (cases ns rule: rev_cases) (auto simp: models_append models_Cons)
  have sz: "ls_size (m_stats s) = volume es" "ls_items (m_stats s) = int (length es)" using assms(1) by (simp_all add: stores_def accounts_def)
  obtain s' where g: "spare x s' keep" "evicted (R now) [(x, c)] s s'"
    "get_new_node (R now) key v s = Some (CACHE_RESULT_OK, Some x, s'\<lparr>m_nodes_by_key := (m_nodes_by_key s')(key \<mapsto> x)\<rparr>)"
    using get_new_node_full [OF ns(1) [unfolded n(1)], of v "R now" key] assms(5,6) sz by auto
  have "stores fine held s' ek"
    using evicted_stores [OF _ g(2), of ek "[e]" keep] assms(1) e n g(1) stores_distinct [OF assms(1)] by (auto simp: spare_def)
  moreover have "set ek \<subseteq> set es" "same_limits s s'" "butlast es = ek" using e g(2) by (auto simp: evicted_def)
  ultimately show ?thesis using put_into [OF ns assms(2-4) g(1) n(2) _ _ _ g(3)] by simp
qed

lemma put_new_room:
  assumes "stores fine held s es" "fits s es" "key \<notin> fst ` set es" "distinct words"
    "volume es + int (length v) \<le> m_max_size s" "int (length es) \<noteq> m_max_count s"
  shows "\<exists>t. do_put_value (R now) key words v s = Some (CACHE_RESULT_OK, t) \<and> same_limits s t \<and>
    stores fine held t ((key, v, node_words (m_sInvalidator s) words) # es)"
proof -
  obtain ns where ns: "shape s ns" "models ns es" using assms(1) by (auto simp: stores_def accounts_def)
  have sz: "ls_size (m_stats s) = volume es" "ls_items (m_stats s) = int (length es)" using assms(1) by (simp_all add: stores_def accounts_def)
  have sp: "spare (l_next_address s) (allocated s) ns" by (rule spare_allocated [OF ns(1)])
  moreover have "stores fine held (allocated s) es" using assms(1) sp ns(2) by (auto simp: stores_def accounts_def spare_def allocated_def)
  moreover have "same_limits s (allocated s)" by (simp add: allocated_def)
  ultimately show ?thesis
    using put_into [OF ns assms(2-4) sp ns(2) _ _ _ get_new_node_room [OF ns(1)]] assms(5,6) sz by simp
qed

lemma put_new:
  assumes "stores fine held s es" "fits s es" "key \<notin> fst ` set es" "distinct words"
  shows "\<exists>t. do_put_value (R now) key words v s = Some (fst (put_result s key v words es), t) \<and> same_limits s t \<and>
    stores fine held t (snd (put_result s key v words es))"
  using put_new_shed [OF assms, of v now] put_new_flush [OF assms(1-3), of v now words] put_new_full [OF assms, of v now]
    put_new_room [OF assms, of v now] assms(3)
  by (simp add: spec_put_def Let_def)

end

lemma shape_node:
  "shape s (as @ (x, c) # bs) \<Longrightarrow> l_heap s x = Some (node_of c (last_or None as) (first_or bs None))"
  using chain_lookup by (simp add: shape_def listed_def)

lemma shape_key: "shape s (as @ (x, c) # bs) \<Longrightarrow> m_nodes_by_key s (fst c) = Some x"
  using shape_keys [of s "as @ (x, c) # bs"] keys_of_middle [of as x c bs] by simp

lemma without_middle:
  assumes "distinct (map fst (ea @ e # eb))"
  shows "without (fst e) (ea @ e # eb) = ea @ eb"
proof -
  have "\<forall>e' \<in> set (ea @ eb). fst e' \<noteq> fst e" using assms by (auto simp: image_iff)
  then show ?thesis by (simp add: without_def filter_id_conv)
qed

lemma value_of_without: "value_of (without key es) = (value_of es)(key := None)"
proof -
  have "map_of (without key es) = (map_of es)(key := None)" unfolding without_def by (induction es) auto
  then show ?thesis by (simp add: value_of_def fun_eq_iff)
qed

lemma loose_unlink:
  assumes "loose x h"
  shows "node_remove x h = Some h"
proof -
  obtain n where n: "h x = Some n" "n_prev n = None" "n_next n = None" using assms by (auto simp: loose_def)
  then have "n\<lparr>n_prev := None, n_next := None\<rparr> = n" by (cases n) simp
  then show ?thesis using n by (simp add: node_remove_def unlink_node_def upd_node_def fun_upd_idem)
qed

lemma free_spare:
  assumes "spare x s ns"
  shows "free_node x INV_IGNORE s = Some (s\<lparr>l_heap := (l_heap s)(x := None)\<rparr>) \<and> shape (s\<lparr>l_heap := (l_heap s)(x := None)\<rparr>) ns"
proof -
  have sp: "shape s ns" "loose x (l_heap s)" "x \<notin> addrs ns" using assms by (simp_all add: spare_def)
  have "m_pHead s = first_or ns None" "m_pTail s = last_or None ns" using sp(1) by (simp_all add: shape_def listed_def)
  moreover have "first_or ns None \<noteq> Some x" using sp(3) by (cases ns) auto
  moreover have "last_or None ns \<noteq> Some x" using sp(3) by (cases ns rule: rev_cases) auto
  ultimately have "m_pHead s \<noteq> Some x" "m_pTail s \<noteq> Some x" by simp_all
  then have "remove_node x s = Some s" using loose_unlink [OF sp(2)] by (simp add: remove_node_def)
  then show ?thesis
    using loose_unlink [OF sp(2)] shape_heap_other [OF sp(1,3) loose_below [OF sp(1,2)]] by (simp add: free_node_def delete_node_def)
qed

lemma move_shape_to_head:
  assumes "shape s (as @ (x, c) # bs)"
  shows "\<exists>t. move_to_head x s = Some t \<and> shape t ((x, c) # as @ bs) \<and> same_limits s t \<and> m_stats t = m_stats s \<and> m_pStorage t = m_pStorage s"
proof -
  have l: "listed s (as @ (x, c) # bs)" and i: "indexed s (as @ (x, c) # bs)" using assms by (simp_all add: shape_def)
  obtain h where h: "move_to_head x s = Some (relink ((x, c) # as @ bs) h s)" "listed (relink ((x, c) # as @ bs) h s) ((x, c) # as @ bs)"
    using move_listed_to_head [OF l] by blast
  have "indexed s ((x, c) # as @ bs)"
    using i keys_of_front [of as x c bs] notes_of_set [of "(x, c) # as @ bs" "as @ (x, c) # bs"]
      words_ok_subset [of "m_sInvalidator s" "as @ (x, c) # bs" "(x, c) # as @ bs"]
    by (auto simp: indexed_def)
  then show ?thesis using h by (simp add: shape_def)
qed

lemma existing_node_grows:
  assumes "shape s (as @ (x, c) # bs)" "int (length v) \<le> m_max_size s" "m_max_size s < ls_size (m_stats s) - fst (snd c) + int (length v)"
    "fst (snd c) < int (length v)" "int (length v) - fst (snd c) \<le> sizes (as @ bs)"
  shows "\<exists>keep y d gone t. as @ bs = keep @ (y, d) # gone \<and> sizes gone < int (length v) - fst (snd c) \<and>
    int (length v) - fst (snd c) \<le> sizes ((y, d) # gone) \<and> shape t ((x, c) # keep) \<and> evicted R ((y, d) # gone) s t \<and>
    get_existing_node R (fst c) v s = Some (CACHE_RESULT_OK, Some x, t)"
proof -
  let ?extra = "int (length v) - fst (snd c)"
  note k = shape_key [OF assms(1)] and x = shape_node [OF assms(1)]
  obtain s1 where s1: "move_to_head x s = Some s1" "shape s1 ((x, c) # as @ bs)" "same_limits s s1" "m_stats s1 = m_stats s"
    "m_pStorage s1 = m_pStorage s" using move_shape_to_head [OF assms(1)] by blast
  have nonneg: "0 \<le> fst (snd c)" using assms(1) by (auto simp: shape_def indexed_def words_ok_def)
  obtain keep y d gone s2 where s2: "(x, c) # as @ bs = keep @ (y, d) # gone" "sizes gone < ?extra" "?extra \<le> sizes ((y, d) # gone)"
    "vacate_lru_space R ?extra s1 = Some (Some y, s2)" "spare y s2 keep" "evicted R ((y, d) # gone) s1 s2"
    using vacate_space_enough [OF s1(2), of ?extra R] assms(4,5) nonneg by auto
  have "keep \<noteq> []" using s2(1,2) assms(5) by auto
  then obtain keep' where keep: "keep = (x, c) # keep'" "as @ bs = keep' @ (y, d) # gone" using s2(1) by (cases keep) auto
  let ?t = "s2\<lparr>l_heap := (l_heap s2)(y := None)\<rparr>"
  have t: "free_node y INV_IGNORE s2 = Some ?t" "shape ?t ((x, c) # keep')" using free_spare [OF s2(5)] keep(1) by auto
  have "get_existing_node R (fst c) v s = Some (CACHE_RESULT_OK, Some x, ?t)"
    using k x assms(2,3) s1(1) s2(4) t(1) by (simp add: get_existing_node_def Let_def)
  moreover have "evicted R ((y, d) # gone) s ?t" using s1 s2(6) by (auto simp: evicted_def intro: same_limits_trans)
  ultimately show ?thesis using keep(2) s2(2,3) t(2) by blast
qed

lemma stores_split:
  assumes "stores fine held s es" "key \<in> fst ` set es"
  obtains as x bs ea e eb where "shape s (as @ (x, content_of e) # bs)" "es = ea @ e # eb" "models as ea" "models bs eb" "key = fst e"
    "without key es = ea @ eb"
proof -
  obtain ns where ns: "shape s ns" "models ns es" using assms(1) by (auto simp: stores_def accounts_def)
  obtain ea e eb where e: "es = ea @ e # eb" "key = fst e" using assms(2) by (auto dest!: split_list)
  obtain as rest where r: "ns = as @ rest" "models as ea" "models rest (e # eb)"
    using ns(2) e(1) by (auto simp: models_def map_eq_append_conv)
  then obtain x bs where x: "rest = (x, content_of e) # bs" "models bs eb" by (cases rest) auto
  have "without key es = ea @ eb" using without_middle [of ea e eb] stores_distinct [OF assms(1)] e by simp
  then show ?thesis using that ns(1) e r x by simp
qed

lemma content_of_simps [simp]:
  "fst (content_of e) = fst e" "fst (snd (content_of e)) = int (length (fst (snd e)))" "snd (snd (content_of e)) = snd (snd e)"
  by (simp_all add: content_of_def)

lemma value_of_middle: "distinct (map fst (ea @ e # eb)) \<Longrightarrow> value_of (ea @ e # eb) (fst e) = Some (fst (snd e))"
proof -
  assume d: "distinct (map fst (ea @ e # eb))"
  then have "map_of (ea @ e # eb) (fst e) = Some (snd e)" by (intro map_of_is_SomeI) auto
  then show ?thesis by (simp add: value_of_def)
qed

lemma value_of_set: "distinct (map fst xs) \<Longrightarrow> distinct (map fst ys) \<Longrightarrow> set xs = set ys \<Longrightarrow> value_of xs = value_of ys"
  using map_of_inject_set [of xs ys] by (simp add: value_of_def)

lemma value_of_front: "distinct (map fst (ea @ e # eb)) \<Longrightarrow> value_of (e # ea @ eb) = value_of (ea @ e # eb)"
  by (rule value_of_set) auto

lemma value_of_back: "distinct (map fst (ea @ e # eb)) \<Longrightarrow> value_of ((ea @ eb) @ [e]) = value_of (ea @ e # eb)"
  by (rule value_of_set) auto

lemma accounts_move:
  assumes "accounts fine held s (ea @ e # eb)" "distinct (map fst (ea @ e # eb))"
  shows "accounts fine held s (e # ea @ eb)" "accounts fine held s ((ea @ eb) @ [e])"
  using assms(1) value_of_front [OF assms(2)] value_of_back [OF assms(2)] by (simp_all add: accounts_def)

lemma absent_key:
  assumes "stores fine held s es" "key \<notin> fst ` set es"
  shows "m_nodes_by_key s key = None" "held (m_pStorage s) key = None" "without key es = es" "map_of es key = None"
proof -
  obtain ns where ns: "shape s ns" "models ns es" using assms(1) by (auto simp: stores_def accounts_def)
  show "m_nodes_by_key s key = None" using assms(2) shape_keys [OF ns(1)] models_keys [OF ns(2)] by (simp add: keys_of_None)
  show m: "map_of es key = None" using assms(2) by (simp add: map_of_eq_None_iff)
  show "held (m_pStorage s) key = None" using assms(1) m by (simp add: stores_def accounts_def value_of_def)
  show "without key es = es" using assms(2) by (auto simp: without_def filter_id_conv)
qed

context raw_store
begin

lemma del_refines:
  assumes "stores fine held s es"
  shows "\<exists>t. do_del_value (R now) key s = Some (fst (spec_del key es), t) \<and> same_limits s t \<and> stores fine held t (snd (spec_del key es))"
proof (cases "key \<in> fst ` set es")
  case False
  then show ?thesis using assms absent_key [OF assms False] by (simp add: do_del_value_def spec_del_def)
next
  case True
  obtain as x bs ea e eb where e: "shape s (as @ (x, content_of e) # bs)" "es = ea @ e # eb" "models as ea" "models bs eb" "key = fst e"
    "without key es = ea @ eb" using stores_split [OF assms True] .
  have st: "fine (m_pStorage s)" "held (m_pStorage s) = value_of es" "ls_items (m_stats s) = int (length es)" "ls_size (m_stats s) = volume es"
    using assms by (simp_all add: stores_def accounts_def)
  have "held (m_pStorage s) key = Some (fst (snd e))" using value_of_middle [of ea e eb] stores_distinct [OF assms] e(2,5) st(2) by simp
  then obtain r where r: "rs_del_value (R now) key (m_pStorage s) = (CACHE_RESULT_OK, r)" "fine r" "held r = (value_of es)(key := None)"
    using del_law [OF st(1), of now key] st(2) by auto
  let ?u = "upd_stats (\<lambda>t. t\<lparr>ls_deletes := ls_deletes t + 1, ls_size := ls_size t - int (length (fst (snd e))), ls_items := ls_items t - 1\<rparr>)
      (s\<lparr>m_pStorage := r\<rparr>)"
  have u: "shape ?u (as @ (x, content_of e) # bs)" using e(1) by simp
  obtain t where t: "free_node_at key INV_REMOVE ?u = Some t" "shape t (as @ bs)" "same_limits ?u t" "m_stats t = m_stats ?u"
    "m_pStorage t = m_pStorage ?u" using free_node_at_shape [OF u] e(5) by auto
  have "do_del_value (R now) key s = Some (CACHE_RESULT_OK, t)"
    using shape_key [OF e(1)] shape_node [OF e(1)] e(5) r(1) t(1) by (simp add: do_del_value_def)
  moreover have "same_limits s t" using t(3) by (simp add: same_limits_def)
  moreover have "models (as @ bs) (ea @ eb)" using e(3,4) by blast
  moreover have "held r = value_of (ea @ eb)" using r(3) value_of_without [of key es] e(6) by simp
  ultimately show ?thesis using True t r(2) st(3,4) e(2,6) by (auto simp: spec_del_def stores_def accounts_def)
qed

lemma get_refines:
  assumes "stores fine held s es"
  shows "\<exists>t. do_get_value (R now) key flags CACHE_USE_CONFIG_TTL CACHE_USE_CONFIG_TTL s =
      Some (fst (fst (spec_get key es)), snd (fst (spec_get key es)), t) \<and> same_limits s t \<and> stores fine held t (snd (spec_get key es))"
proof (cases "key \<in> fst ` set es")
  case False
  then show ?thesis
    using assms absent_key [OF assms False] by (simp add: do_get_value_def access_value_def spec_get_def stores_def accounts_def)
next
  case True
  obtain as x bs ea e eb where e: "shape s (as @ (x, content_of e) # bs)" "es = ea @ e # eb" "models as ea" "models bs eb" "key = fst e"
    "without key es = ea @ eb" using stores_split [OF assms True] .
  have st: "fine (m_pStorage s)" "held (m_pStorage s) = value_of es" "ls_items (m_stats s) = int (length es)" "ls_size (m_stats s) = volume es"
    using assms by (simp_all add: stores_def accounts_def)
  have d: "distinct (map fst (ea @ e # eb))" using stores_distinct [OF assms] e(2) by simp
  have "held (m_pStorage s) key = Some (fst (snd e))" using value_of_middle [OF d] e(2,5) st(2) by simp
  then obtain r where r: "rs_get_value (R now) key flags CACHE_USE_CONFIG_TTL CACHE_USE_CONFIG_TTL (m_pStorage s) =
      (CACHE_RESULT_OK, Some (fst (snd e)), r)" "fine r" "held r = value_of es"
    using get_law [OF st(1), of key "fst (snd e)" now flags] st(2) by auto
  let ?u = "upd_stats (\<lambda>t. t\<lparr>ls_hits := ls_hits t + 1\<rparr>) (s\<lparr>m_pStorage := r\<rparr>)"
  have u: "shape ?u (as @ (x, content_of e) # bs)" using e(1) by simp
  obtain t where t: "move_to_head x ?u = Some t" "shape t ((x, content_of e) # as @ bs)" "same_limits ?u t" "m_stats t = m_stats ?u"
    "m_pStorage t = m_pStorage ?u" using move_shape_to_head [OF u] by blast
  have "map_of es key = Some (snd e)" unfolding e(2,5) using d by (intro map_of_is_SomeI) auto
  then have g: "spec_get key es = ((CACHE_RESULT_OK, Some (fst (snd e))), e # ea @ eb)"
    using e(5,6) by (cases e) (simp add: spec_get_def)
  have "do_get_value (R now) key flags CACHE_USE_CONFIG_TTL CACHE_USE_CONFIG_TTL s = Some (CACHE_RESULT_OK, Some (fst (snd e)), t)"
    using shape_key [OF e(1)] e(5) r(1) t(1) by (simp add: do_get_value_def access_value_def)
  moreover have "same_limits s t" using t(3) by (simp add: same_limits_def)
  moreover have "models ((x, content_of e) # as @ bs) (e # ea @ eb)" using e(3,4) by auto
  moreover have "value_of (e # ea @ eb) = value_of es" using value_of_front [OF d] e(2) by simp
  ultimately show ?thesis using t r st(3,4) e(2) g by (auto simp: stores_def accounts_def)
qed

end

context raw_store
begin

lemma put_over:
  assumes "shape t (as @ (x, content_of e) # bs)" "models as ea" "models bs eb" "stores fine held t (ea @ e # eb)"
    and "get_existing_node (R now) (fst e) v s = Some (CACHE_RESULT_OK, Some x, t)" "m_nodes_by_key s (fst e) = Some x"
    and "same_limits s t" "m_sInvalidator s \<noteq> StorageInvalidator" "node_words (m_sInvalidator s) words = snd (snd e)"
  shows "\<exists>u. do_put_value (R now) (fst e) words v s = Some (CACHE_RESULT_OK, u) \<and> same_limits s u \<and>
    stores fine held u ((fst e, v, snd (snd e)) # ea @ eb)"
proof -
  have st: "fine (m_pStorage t)" "held (m_pStorage t) = value_of (ea @ e # eb)" "ls_items (m_stats t) = int (length (ea @ e # eb))"
    "ls_size (m_stats t) = volume (ea @ e # eb)" using assms(4) by (simp_all add: stores_def accounts_def)
  obtain r where r: "rs_put_value (R now) (fst e) [] v (m_pStorage t) = (CACHE_RESULT_OK, r)" "fine r"
    "held r = (held (m_pStorage t))(fst e \<mapsto> v)"
    using put_law [OF st(1), of now "fst e" v] by blast
  have i: "m_sInvalidator t = m_sInvalidator s" using assms(7) by (simp add: same_limits_def)
  have sh: "shape (t\<lparr>m_pStorage := r\<rparr>) (as @ (x, content_of e) # bs)" using assms(1) by simp
  let ?d = "(fst e, int (length v), snd (snd e))"
  obtain u where u: "value_stored (fst e) words (int (length v)) True x (t\<lparr>m_pStorage := r\<rparr>) = Some u" "shape u ((x, ?d) # as @ bs)"
    "same_limits (t\<lparr>m_pStorage := r\<rparr>) u" "m_pStorage u = r" "ls_items (m_stats u) = ls_items (m_stats t)"
    "ls_size (m_stats u) = ls_size (m_stats t) - int (length (fst (snd e))) + int (length v)"
    using value_stored_existing [OF sh, of "int (length v)" words] assms(9) i by auto
  have "storage_words (m_sInvalidator s) words = []" using assms(8) by (cases "m_sInvalidator s") (simp_all add: storage_words_def)
  then have "do_put_value (R now) (fst e) words v s = Some (CACHE_RESULT_OK, u)"
    using assms(5,6) r(1) u(1) i by (simp add: do_put_value_def Let_def)
  moreover have "same_limits s u" using assms(7) u(3) by (simp add: same_limits_def)
  moreover have "models ((x, ?d) # as @ bs) ((fst e, v, snd (snd e)) # ea @ eb)" using assms(2,3) by (auto simp: content_of_def)
  moreover have "held r = value_of ((fst e, v, snd (snd e)) # ea @ eb)"
    using r(3) st(2) value_of_without [of "fst e" "ea @ e # eb"] without_middle [OF stores_distinct [OF assms(4)]]
    by (auto simp: fun_eq_iff)
  ultimately show ?thesis using u r(2) st(3,4) by (auto simp: stores_def accounts_def)
qed

lemma put_too_large:
  assumes "stores fine held s es" "key \<in> fst ` set es" "m_max_size s < int (length v)"
  shows "\<exists>t. do_put_value (R now) key words v s = Some (CACHE_RESULT_OUT_OF_RESOURCES, t) \<and> same_limits s t \<and>
    stores fine held t (without key es)"
proof -
  obtain as x bs ea e eb where e: "shape s (as @ (x, content_of e) # bs)" "key = fst e"
    using stores_split [OF assms(1,2)] by metis
  obtain t where t: "do_del_value (R now) key s = Some (fst (spec_del key es), t)" "same_limits s t" "stores fine held t (snd (spec_del key es))"
    using del_refines [OF assms(1)] by blast
  then have "get_existing_node (R now) key v s = Some (CACHE_RESULT_OUT_OF_RESOURCES, None, t)"
    using shape_key [OF e(1)] shape_node [OF e(1)] e(2) assms(3) by (simp add: get_existing_node_def)
  then have "do_put_value (R now) key words v s = Some (CACHE_RESULT_OUT_OF_RESOURCES, t)"
    using shape_key [OF e(1)] e(2) by (simp add: do_put_value_def)
  then show ?thesis using t by (simp add: spec_del_def)
qed

lemma put_grows:
  assumes "stores fine held s (ea @ e # eb)" "shape s (as @ (x, content_of e) # bs)" "models as ea" "models bs eb"
    and "int (length v) \<le> m_max_size s" "m_max_size s < volume (ea @ eb) + int (length v)" "volume (ea @ e # eb) \<le> m_max_size s"
    and "int (length v) - int (length (fst (snd e))) \<le> volume (ea @ eb)"
    and "m_sInvalidator s \<noteq> StorageInvalidator" "node_words (m_sInvalidator s) words = snd (snd e)"
  shows "\<exists>t. do_put_value (R now) (fst e) words v s = Some (CACHE_RESULT_OK, t) \<and> same_limits s t \<and>
    stores fine held t ((fst e, v, snd (snd e)) # shed (int (length v) - int (length (fst (snd e)))) (ea @ eb))"
proof -
  let ?extra = "int (length v) - int (length (fst (snd e)))"
  have sz: "ls_size (m_stats s) = volume (ea @ e # eb)" using assms(1) by (simp add: stores_def accounts_def)
  obtain keep y d gone t where t: "as @ bs = keep @ (y, d) # gone" "sizes gone < ?extra" "?extra \<le> sizes ((y, d) # gone)"
    "shape t ((x, content_of e) # keep)" "evicted (R now) ((y, d) # gone) s t"
    "get_existing_node (R now) (fst e) v s = Some (CACHE_RESULT_OK, Some x, t)"
    using existing_node_grows [OF assms(2), of v "R now"] assms(5-8) sz models_sizes [OF assms(3)] models_sizes [OF assms(4)] by auto
  have "models (as @ bs) (ea @ eb)" using assms(3,4) by blast
  then obtain ek b eg where b: "ea @ eb = ek @ b # eg" "models keep ek" "models ((y, d) # gone) (b # eg)"
    using t(1) by (auto simp: models_append models_Cons)
  have sh: "shed ?extra (ea @ eb) = ek"
    unfolding b(1) by (rule shed_split) (use t(2,3) models_sizes [OF b(3)] models_sizes [of gone eg] b(3) in auto)
  have "accounts fine held s (e # ea @ eb)"
    by (rule accounts_move) (use assms(1) stores_distinct [OF assms(1)] in \<open>simp_all add: stores_def\<close>)
  moreover have "distinct (map fst (e # ea @ eb))" using stores_distinct [OF assms(1)] by auto
  ultimately have "accounts fine held t (e # ek)" using evicted_accounts [OF _ t(5) b(3), of "e # ek"] b(1) by simp
  then have "stores fine held t ([] @ e # ek)" using t(4) b(2) unfolding stores_def by auto
  then show ?thesis
    using put_over [of t "[]" x e keep "[]" ek now v s words] t(4-6) b(2) assms(9,10) shape_key [OF assms(2)] sh by (simp add: evicted_def)
qed

lemma put_existing:
  assumes "stores fine held s es" "fits s es" "key \<in> fst ` set es" "put_safe (m_max_size s) key v (node_words (m_sInvalidator s) words) es"
  shows "\<exists>t. do_put_value (R now) key words v s = Some (fst (put_result s key v words es), t) \<and> same_limits s t \<and>
    stores fine held t (snd (put_result s key v words es))"
proof (cases "m_max_size s < int (length v)")
  case True
  then show ?thesis using put_too_large [OF assms(1,3) True] assms(3) by (simp add: spec_put_def)
next
  case small: False
  obtain as x bs ea e eb where e: "shape s (as @ (x, content_of e) # bs)" "es = ea @ e # eb" "models as ea" "models bs eb" "key = fst e"
    "without key es = ea @ eb" using stores_split [OF assms(1,3)] .
  have st: "ls_size (m_stats s) = volume es" "m_sInvalidator s \<noteq> StorageInvalidator" "volume es \<le> m_max_size s"
    using assms(1,2) by (simp_all add: stores_def accounts_def fits_def)
  have "map_of es key = Some (snd e)" unfolding e(2,5) using stores_distinct [OF assms(1)] e(2) by (intro map_of_is_SomeI) auto
  then have ps: "node_words (m_sInvalidator s) words = snd (snd e)"
    "m_max_size s < volume (ea @ eb) + int (length v) \<Longrightarrow> int (length v) - int (length (fst (snd e))) \<le> volume (ea @ eb)"
    using assms(4) small e(6) by (cases e; simp add: put_safe_def)+
  show ?thesis
  proof (cases "m_max_size s < volume (ea @ eb) + int (length v)")
    case False
    then have "get_existing_node (R now) key v s = Some (CACHE_RESULT_OK, Some x, s)"
      using shape_key [OF e(1)] shape_node [OF e(1)] e(2,5) st(1) small by (simp add: get_existing_node_def)
    then show ?thesis
      using put_over [OF e(1,3,4), of now v s words] assms(1,3) e(2,5,6) st(2) ps(1) shape_key [OF e(1)] False small
      by (simp add: spec_put_def)
  next
    case True
    then show ?thesis
      using put_grows [OF assms(1) [unfolded e(2)] e(1,3,4) _ _ _ _ st(2) ps(1), of v now] small st(3) ps e(2,5,6) assms(3)
      by (simp add: spec_put_def)
  qed
qed

end

section \<open>Clearing\<close>

lemma clear_loop_all:
  assumes "listed s ns" "words_ok (m_sInvalidator s) ns" "m_nodes_by_word s = notes_of ns" "length ns \<le> fuel"
  shows "\<exists>t. clear_loop fuel s = Some t \<and> listed t [] \<and> m_nodes_by_word t = notes_of [] \<and> same_limits s t \<and>
    m_pStorage t = m_pStorage s \<and> m_stats t = m_stats s"
  using assms
proof (induction ns arbitrary: s fuel)
  case Nil
  then have "clear_loop fuel s = Some s" by (subst clear_loop.simps) (simp add: listed_def)
  then show ?case using Nil.prems by simp
next
  case (Cons n ns)
  obtain x c where n: "n = (x, c)" by (cases n)
  obtain f where f: "fuel = Suc f" "length ns \<le> f" using Cons.prems(4) by (cases fuel) auto
  obtain h where h: "free_node x INV_REMOVE s = Some (relink ns h (s\<lparr>m_nodes_by_word := notes_of ns\<rparr>))" "listed (relink ns h s) ns"
    using free_node_remove_listed [of s "[]" x c ns] Cons.prems n by auto
  let ?t = "relink ns h (s\<lparr>m_nodes_by_word := notes_of ns\<rparr>)"
  have l: "listed ?t ns" using h(2) by (simp add: listed_def)
  have w: "words_ok (m_sInvalidator ?t) ns" using words_ok_subset [OF Cons.prems(2), of ns] by auto
  obtain u where "clear_loop f ?t = Some u" "listed u []" "m_nodes_by_word u = notes_of []" "same_limits ?t u"
    "m_pStorage u = m_pStorage ?t" "m_stats u = m_stats ?t"
    using Cons.IH [OF l w _ f(2)] by auto
  moreover have "m_pHead s = Some x" using Cons.prems(1) n by (simp add: listed_def)
  ultimately show ?case using h(1) f(1) by (subst clear_loop.simps) (auto simp: same_limits_def)
qed

context raw_store
begin

lemma clear_refines:
  assumes "stores fine held s es"
  shows "\<exists>t. do_clear (R now) s = Some (CACHE_RESULT_OK, t) \<and> same_limits s t \<and> stores fine held t []"
proof -
  obtain ns where ns: "shape s ns" using assms by (auto simp: stores_def)
  obtain t where t: "clear_loop (l_next_address s) s = Some t" "listed t []" "m_nodes_by_word t = notes_of []" "same_limits s t"
    "m_pStorage t = m_pStorage s" "m_stats t = m_stats s"
    using clear_loop_all [of s ns "l_next_address s"] ns shape_fresh [OF ns] by (auto simp: shape_def indexed_def)
  obtain r where r: "rs_clear (R now) (m_pStorage s) = (CACHE_RESULT_OK, r)" "fine r" "held r = Map.empty"
    using clear_law [of "m_pStorage s" now] assms by (auto simp: stores_def accounts_def)
  let ?u = "(upd_stats (\<lambda>t. t\<lparr>ls_size := 0, ls_items := 0, ls_cleared := ls_cleared t + 1\<rparr>) (t\<lparr>m_nodes_by_key := Map.empty\<rparr>))\<lparr>m_pStorage := r\<rparr>"
  have "do_clear (R now) s = Some (CACHE_RESULT_OK, ?u)" using t(1,5) r(1) by (simp add: do_clear_def Let_def)
  moreover have "shape ?u []" using t(2,3) by (simp add: shape_def indexed_def words_ok_def)
  ultimately show ?thesis using t(4) r by (auto simp: stores_def accounts_def)
qed

lemma head_refines:
  assumes "stores fine held s (e # es)"
  shows "\<exists>t. do_get_head (R now) s = Some (CACHE_RESULT_OK, Some (fst e), Some (fst (snd e)), t) \<and> same_limits s t \<and>
    stores fine held t (e # es)"
proof -
  have d: "distinct (map fst (e # es))" by (rule stores_distinct [OF assms])
  have head: "\<exists>x p. m_pHead s = Some x \<and> l_heap s x = Some (node_of (content_of e) None p)" if st: "stores fine held s (e # es)" for s
  proof -
    obtain ns where ns: "shape s ns" "models ns (e # es)" using st by (auto simp: stores_def)
    obtain x ms where n: "ns = (x, content_of e) # ms" using ns(2) by (cases ns) auto
    then have "m_pHead s = Some x" using ns(1) by (simp add: shape_def listed_def)
    then show ?thesis using shape_node [of s "[]" x "content_of e" ms] ns(1) n by auto
  qed
  obtain x p where x: "m_pHead s = Some x" "l_heap s x = Some (node_of (content_of e) None p)" using head [OF assms] by blast
  have "spec_get (fst e) (e # es) = ((CACHE_RESULT_OK, Some (fst (snd e))), e # es)"
    using d without_middle [of "[]" e es] by (cases e) (simp add: spec_get_def)
  then obtain t where t: "do_get_value (R now) (fst e) CACHE_FLAGS_INCLUDE_STALE CACHE_USE_CONFIG_TTL CACHE_USE_CONFIG_TTL s =
      Some (CACHE_RESULT_OK, Some (fst (snd e)), t)" "same_limits s t" "stores fine held t (e # es)"
    using get_refines [OF assms, of now "fst e" CACHE_FLAGS_INCLUDE_STALE] by auto
  obtain y q where y: "m_pHead t = Some y" "l_heap t y = Some (node_of (content_of e) None q)" using head [OF t(3)] by blast
  obtain f where f: "l_next_address s = Suc f"
    using assms shape_fresh models_length [of _ "e # es"] by (cases "l_next_address s") (fastforce simp: stores_def)+
  have "get_head_loop (l_next_address s) (R now) CACHE_RESULT_NOT_FOUND None s = get_head_loop f (R now) CACHE_RESULT_OK (Some (fst (snd e))) t"
    using x f t(1) by (subst get_head_loop.simps) simp
  also have "... = Some (CACHE_RESULT_OK, Some (fst (snd e)), t)" using y(1) by (subst get_head_loop.simps) simp
  finally show ?thesis using t(2,3) y by (simp add: do_get_head_def)
qed

end

section \<open>Invalidating\<close>

text \<open>While the nodes of a word are visited, everything but the set of the word is up to date.\<close>

definition pending :: "string \<Rightarrow> 'st lru \<Rightarrow> (nat \<times> content) list \<Rightarrow> bool" where
  "pending word s ns \<longleftrightarrow>
     listed s ns \<and> distinct (keys ns) \<and> words_ok (m_sInvalidator s) ns \<and> m_nodes_by_key s = keys_of ns \<and>
     (\<forall>w. w \<noteq> word \<longrightarrow> m_nodes_by_word s w = notes_of ns w)"

lemma pending_shape:
  "shape s ns \<Longrightarrow> pending word s ns"
  "pending word s ns \<Longrightarrow> notes_of ns word = {} \<Longrightarrow> shape (s\<lparr>m_nodes_by_word := (m_nodes_by_word s)(word := {})\<rparr>) ns"
  by (auto simp: shape_def pending_def indexed_def fun_eq_iff)

lemma notes_of_mem: "(x, c) \<in> set ns \<Longrightarrow> w \<in> set (snd (snd c)) \<Longrightarrow> x \<in> notes_of ns w"
  unfolding notes_of_def by blast

text \<open>The node is freed, and the other words forget it.\<close>

lemma invalidate_node_listed:
  assumes "pending word s (as @ (x, c) # bs)" "m_sInvalidator s \<noteq> StorageInvalidator"
  shows "\<exists>h st. invalidate_node R x s = Some (relink (as @ bs) h (s\<lparr>m_pStorage := snd (rs_del_value R (fst c) (m_pStorage s)),
      m_nodes_by_key := keys_of (as @ bs), m_stats := st\<rparr>)) \<and> listed (relink (as @ bs) h s) (as @ bs) \<and>
    ls_items st = ls_items (m_stats s) - 1 \<and> ls_size st = ls_size (m_stats s) - fst (snd c)"
proof -
  have p: "listed s (as @ (x, c) # bs)" "distinct (keys (as @ (x, c) # bs))" "m_nodes_by_key s = keys_of (as @ (x, c) # bs)"
    using assms(1) by (simp_all add: pending_def)
  have k: "(m_nodes_by_key s)(fst c := None) = keys_of (as @ bs)" using keys_of_remove [OF p(2)] p(3) by simp
  obtain q r where x: "l_heap s x = Some (node_of c q r)" using listed_allocated [OF p(1), of x c] by auto
  let ?st = "(m_stats s)\<lparr>ls_size := ls_size (m_stats s) - fst (snd c), ls_items := ls_items (m_stats s) - 1,
      ls_invalidations := ls_invalidations (m_stats s) + 1\<rparr>"
  let ?u = "s\<lparr>m_pStorage := snd (rs_del_value R (fst c) (m_pStorage s)), m_nodes_by_key := keys_of (as @ bs), m_stats := ?st\<rparr>"
  have d: "free_node_data R x INVALIDATION s = Some ?u" using x k by (simp add: free_node_data_def Let_def)
  obtain h where h: "free_node x INV_IGNORE ?u = Some (relink (as @ bs) h ?u)" "listed (relink (as @ bs) h ?u) (as @ bs)"
    using free_node_listed [of ?u as x c bs] p(1) by auto
  have "invalidate_node R x s = Some (relink (as @ bs) h ?u)" using d h(1) assms(2) by (simp add: invalidate_node_def)
  moreover have "listed (relink (as @ bs) h s) (as @ bs)" using h(2) by (simp add: listed_def)
  ultimately show ?thesis by (intro exI [of _ h] exI [of _ ?st]) simp
qed

lemma forget_others:
  assumes "listed s (as @ (x, c) # bs)" "distinct (snd (snd c))" "word \<in> set (snd (snd c))"
    and "\<forall>w. w \<noteq> word \<longrightarrow> notes w = notes_of (as @ (x, c) # bs) w"
  shows "\<exists>notes'. remove_note_words x (remove1 word (snd (snd c))) notes = Some notes' \<and>
    (\<forall>w. w \<noteq> word \<longrightarrow> notes' w = notes_of (as @ bs) w)"
proof -
  let ?ws = "remove1 word (snd (snd c))"
  have ws: "distinct ?ws" "set ?ws = set (snd (snd c)) - {word}" using assms(2) by auto
  have d: "distinct (map fst (as @ (x, c) # bs))" using assms(1) by (simp add: listed_def)
  have "\<forall>w \<in> set ?ws. x \<in> notes w" using assms(4) notes_of_mem [of x c "as @ (x, c) # bs"] ws(2) by simp
  moreover have "w \<noteq> word \<Longrightarrow> (if w \<in> set ?ws then notes w - {x} else notes w) = notes_of (as @ bs) w" for w
    using fun_cong [OF notes_of_remove [OF d], of w] assms(4) ws(2) by (simp split: if_splits)
  ultimately show ?thesis using remove_note_words_all [OF ws(1)] by auto
qed

lemma invalidate_round:
  assumes "pending word s (as @ (x, c) # bs)" "m_sInvalidator s \<noteq> StorageInvalidator" "word \<in> set (snd (snd c))" "x \<notin> seen"
  shows "\<exists>t. invalidate_nodes R word (x # ps) seen s = invalidate_nodes R word ps (insert x seen) t \<and> pending word t (as @ bs) \<and>
    evicted R [(x, c)] s t"
proof -
  have p: "listed s (as @ (x, c) # bs)" "distinct (keys (as @ bs))" "words_ok (m_sInvalidator s) (as @ bs)" "distinct (snd (snd c))"
    "\<forall>w. w \<noteq> word \<longrightarrow> m_nodes_by_word s w = notes_of (as @ (x, c) # bs) w"
    using assms(1) words_ok_subset [of "m_sInvalidator s" "as @ (x, c) # bs" "as @ bs"] by (auto simp: pending_def words_ok_def)
  obtain q r where x: "l_heap s x = Some (node_of c q r)" using listed_allocated [OF p(1), of x c] by auto
  obtain h st where i: "invalidate_node R x s = Some (relink (as @ bs) h (s\<lparr>m_pStorage := snd (rs_del_value R (fst c) (m_pStorage s)),
      m_nodes_by_key := keys_of (as @ bs), m_stats := st\<rparr>))" "listed (relink (as @ bs) h s) (as @ bs)"
    "ls_items st = ls_items (m_stats s) - 1" "ls_size st = ls_size (m_stats s) - fst (snd c)"
    using invalidate_node_listed [OF assms(1,2), of R] by blast
  let ?u = "relink (as @ bs) h (s\<lparr>m_pStorage := snd (rs_del_value R (fst c) (m_pStorage s)), m_nodes_by_key := keys_of (as @ bs), m_stats := st\<rparr>)"
  obtain notes' where n: "remove_note_words x (remove1 word (snd (snd c))) (m_nodes_by_word s) = Some notes'"
    "\<forall>w. w \<noteq> word \<longrightarrow> notes' w = notes_of (as @ bs) w"
    using forget_others [OF p(1,4) assms(3) p(5)] by blast
  have w: "snd (snd c) = [word]" if "\<not> 1 < length (snd (snd c))" using that assms(3) by (cases "snd (snd c)") auto
  have "invalidate_nodes R word (x # ps) seen s = invalidate_nodes R word ps (insert x seen) (?u\<lparr>m_nodes_by_word := notes'\<rparr>)"
  proof (cases "1 < length (snd (snd c))")
    case True
    then show ?thesis using x i(1) assms(3,4) n(1) p(4) by (simp add: Let_def)
  next
    case False
    then have "notes' = m_nodes_by_word s" using w n(1) by simp
    then have "?u\<lparr>m_nodes_by_word := notes'\<rparr> = ?u" by simp
    then show ?thesis using False x i(1) assms(4) by (simp add: Let_def)
  qed
  moreover have "pending word (?u\<lparr>m_nodes_by_word := notes'\<rparr>) (as @ bs)"
    using p(2,3) i(2) n(2) by (simp add: pending_def listed_def)
  moreover have "evicted R [(x, c)] s (?u\<lparr>m_nodes_by_word := notes'\<rparr>)"
    using i(3,4) by (simp add: evicted_def)
  ultimately show ?thesis by blast
qed

abbreviation unaffected :: "string \<Rightarrow> cached list \<Rightarrow> cached list" where
  "unaffected word es \<equiv> filter (\<lambda>e. word \<notin> set (snd (snd e))) es"

lemma models_middle:
  assumes "models (as @ (x, c) # bs) es"
  obtains ea e eb where "es = ea @ e # eb" "c = content_of e" "models as ea" "models bs eb"
  using assms that by (auto simp: models_append models_Cons)

lemma no_notes: "models ns es \<Longrightarrow> notes_of ns word = {} \<Longrightarrow> unaffected word es = es"
proof (induction ns arbitrary: es)
  case (Cons n ns)
  obtain x c where n: "n = (x, c)" by (cases n)
  obtain e fs where e: "es = e # fs" "c = content_of e" "models ns fs" using Cons.prems(1) n by (auto simp: models_Cons)
  have "word \<notin> set (snd (snd c))" "notes_of ns word = {}"
    using fun_cong [OF notes_of_Cons [of x c ns], of word] Cons.prems(2) n by (auto split: if_splits)
  then show ?case using Cons.IH [OF e(3)] e by simp
qed simp

lemma notes_of_delete:
  "distinct (map fst (as @ (x, c) # bs)) \<Longrightarrow> word \<in> set (snd (snd c)) \<Longrightarrow>
   notes_of (as @ bs) word = notes_of (as @ (x, c) # bs) word - {x}"
  using fun_cong [OF notes_of_remove [of as x c bs], of word] by simp

lemma notes_of_addrs: "notes_of ns w \<subseteq> addrs ns"
  by (force simp: notes_of_def)

context raw_store
begin

lemma invalidate_nodes_all:
  assumes "pending word s ns" "models ns es" "accounts fine held s es" "m_sInvalidator s \<noteq> StorageInvalidator"
    "distinct ps" "set ps = notes_of ns word" "set ps \<inter> seen = {}"
  shows "\<exists>t ns'. invalidate_nodes (R now) word ps seen s = Some (seen \<union> set ps, t) \<and> pending word t ns' \<and> notes_of ns' word = {} \<and>
    models ns' (unaffected word es) \<and> accounts fine held t (unaffected word es) \<and> same_limits s t \<and> addrs ns' \<subseteq> addrs ns - set ps"
  using assms
proof (induction ps arbitrary: s ns es seen)
  case Nil
  then show ?case using no_notes [OF Nil.prems(2), of word] by (intro exI [of _ s] exI [of _ ns]) simp
next
  case (Cons x ps)
  obtain c where "(x, c) \<in> set ns" and w: "word \<in> set (snd (snd c))" using Cons.prems(6) by (force simp: notes_of_def)
  then obtain as bs where ns: "ns = as @ (x, c) # bs" by (auto dest!: split_list)
  obtain ea e eb where e: "es = ea @ e # eb" "c = content_of e" "models as ea" "models bs eb"
    using models_middle [of as x c bs es] Cons.prems(2) ns by blast
  obtain t where t: "invalidate_nodes (R now) word (x # ps) seen s = invalidate_nodes (R now) word ps (insert x seen) t"
    "pending word t (as @ bs)" "evicted (R now) [(x, c)] s t"
    using invalidate_round [of word s as x c bs seen "R now" ps] Cons.prems(1,4,7) w ns by auto
  have d: "distinct (map fst ns)" "distinct (keys ns)" using Cons.prems(1) by (simp_all add: pending_def listed_def)
  have dk: "distinct (map fst (ea @ e # eb))" using d(2) models_keys [OF Cons.prems(2)] e(1) by simp
  have m: "models (as @ bs) (ea @ eb)" using e(3,4) by blast
  have "accounts fine held s ((ea @ eb) @ [e])" using accounts_move(2) [OF _ dk] Cons.prems(3) e(1) by simp
  then have a: "accounts fine held t (ea @ eb)"
    using evicted_accounts [OF _ t(3), of "ea @ eb" "[e]"] e(2) dk by auto
  have i: "m_sInvalidator t \<noteq> StorageInvalidator" using t(3) Cons.prems(4) by (simp add: evicted_def same_limits_def)
  have n: "set ps = notes_of (as @ bs) word"
    using notes_of_delete [of as x c bs word] d(1) w ns Cons.prems(5,6) by auto
  have dis: "distinct ps" "set ps \<inter> insert x seen = {}" using Cons.prems(5,7) by auto
  obtain u ns' where u: "invalidate_nodes (R now) word ps (insert x seen) t = Some (insert x seen \<union> set ps, u)" "pending word u ns'"
    "notes_of ns' word = {}" "models ns' (unaffected word (ea @ eb))" "accounts fine held u (unaffected word (ea @ eb))"
    "same_limits t u" "addrs ns' \<subseteq> addrs (as @ bs) - set ps"
    using Cons.IH [OF t(2) m a i dis(1) n dis(2)] by blast
  have "unaffected word es = unaffected word (ea @ eb)" using w e by simp
  moreover have "addrs ns' \<subseteq> addrs ns - set (x # ps)" using u(7) d(1) ns by auto
  moreover have "same_limits s u" using t(3) u(6) by (auto simp: evicted_def intro: same_limits_trans)
  moreover have "insert x seen \<union> set ps = seen \<union> set (x # ps)" by simp
  ultimately show ?case using t(1) u by (intro exI [of _ u] exI [of _ ns']) simp
qed

end

text \<open>The elements of a set in the order in which a hash table has them.\<close>

definition enumerates :: "(nat set \<Rightarrow> nat list) \<Rightarrow> bool" where
  "enumerates order \<longleftrightarrow> (\<forall>A. finite A \<longrightarrow> set (order A) = A \<and> distinct (order A))"

lemma spec_invalidate_simps [simp]:
  "spec_invalidate [] es = es" "spec_invalidate (w # ws) es = spec_invalidate ws (unaffected w es)"
  by (auto simp: spec_invalidate_def intro: filter_cong)

lemma notes_of_finite: "finite (notes_of ns w)"
  using notes_of_addrs [of ns w] finite_subset by blast

context raw_store
begin

lemma invalidate_words_all:
  assumes "shape s ns" "models ns es" "accounts fine held s es" "m_sInvalidator s \<noteq> StorageInvalidator" "enumerates order"
    "seen \<inter> addrs ns = {}"
  shows "\<exists>t ns'. invalidate_words (R now) order words seen s = Some t \<and> shape t ns' \<and> models ns' (spec_invalidate words es) \<and>
    accounts fine held t (spec_invalidate words es) \<and> same_limits s t"
  using assms
proof (induction words arbitrary: s ns es seen)
  case (Cons w ws)
  have n: "m_nodes_by_word s w = notes_of ns w" using Cons.prems(1) by (simp add: shape_def indexed_def)
  let ?ps = "order (m_nodes_by_word s w)"
  have ps: "set ?ps = notes_of ns w" "distinct ?ps" using Cons.prems(5) notes_of_finite n by (auto simp: enumerates_def)
  then have dis: "set ?ps \<inter> seen = {}" using Cons.prems(6) notes_of_addrs [of ns w] by blast
  obtain t ns' where t: "invalidate_nodes (R now) w ?ps seen s = Some (seen \<union> set ?ps, t)" "pending w t ns'" "notes_of ns' w = {}"
    "models ns' (unaffected w es)" "accounts fine held t (unaffected w es)" "same_limits s t" "addrs ns' \<subseteq> addrs ns - set ?ps"
    using invalidate_nodes_all [OF pending_shape(1) [OF Cons.prems(1)] Cons.prems(2-4) ps(2,1) dis] by blast
  let ?t = "t\<lparr>m_nodes_by_word := (m_nodes_by_word t)(w := {})\<rparr>"
  have sh: "shape ?t ns'" by (rule pending_shape(2) [OF t(2,3)])
  have a: "accounts fine held ?t (unaffected w es)" using t(5) by (simp add: accounts_def)
  have i: "m_sInvalidator ?t \<noteq> StorageInvalidator" using t(6) Cons.prems(4) by (simp add: same_limits_def)
  have d: "(seen \<union> set ?ps) \<inter> addrs ns' = {}" using Cons.prems(6) t(7) by blast
  obtain u ns'' where u: "invalidate_words (R now) order ws (seen \<union> set ?ps) ?t = Some u" "shape u ns''"
    "models ns'' (spec_invalidate ws (unaffected w es))" "accounts fine held u (spec_invalidate ws (unaffected w es))" "same_limits ?t u"
    using Cons.IH [OF sh t(4) a i Cons.prems(5) d] by blast
  have "same_limits s u" using t(6) u(5) by (simp add: same_limits_def)
  then show ?case using t(1) u by (intro exI [of _ u] exI [of _ ns'']) simp
qed auto

lemma invalidate_refines:
  assumes "stores fine held s es" "fits s es" "enumerates order"
  shows "\<exists>t. do_invalidate (R now) order words s = Some (CACHE_RESULT_OK, t) \<and> same_limits s t \<and> stores fine held t (spec_invalidate words es)"
proof -
  obtain ns where ns: "shape s ns" "models ns es" "accounts fine held s es" using assms(1) by (auto simp: stores_def)
  show ?thesis
  proof (cases "m_sInvalidator s")
    case NullInvalidator
    have "words_ok NullInvalidator ns" using ns(1) NullInvalidator by (simp add: shape_def indexed_def)
    then have "\<forall>c \<in> snd ` set ns. snd (snd c) = []" by (auto simp: words_ok_def)
    moreover have "snd ` set ns = content_of ` set es" using arg_cong [OF ns(2) [unfolded models_def], of set] by simp
    ultimately have "\<forall>e \<in> set es. snd (snd e) = []" by simp
    then have "spec_invalidate words es = es" by (simp add: spec_invalidate_def filter_id_conv)
    then show ?thesis using assms(1) NullInvalidator by (simp add: do_invalidate_def)
  next
    case FullInvalidator
    obtain t ns' where "invalidate_words (R now) order words {} s = Some t" "shape t ns'" "models ns' (spec_invalidate words es)"
      "accounts fine held t (spec_invalidate words es)" "same_limits s t"
      using invalidate_words_all [OF ns _ assms(3), of "{}" now words] FullInvalidator by auto
    then show ?thesis using FullInvalidator by (auto simp: do_invalidate_def stores_def)
  qed (use assms(2) in \<open>simp add: fits_def\<close>)
qed

lemma put_refines:
  assumes "stores fine held s es" "fits s es" "put_safe (m_max_size s) key v (node_words (m_sInvalidator s) words) es" "distinct words"
  shows "\<exists>t. do_put_value (R now) key words v s = Some (fst (put_result s key v words es), t) \<and> same_limits s t \<and>
    stores fine held t (snd (put_result s key v words es))"
  using put_new [OF assms(1,2) _ assms(4)] put_existing [OF assms(1,2) _ assms(3)] by (cases "key \<in> fst ` set es") blast+

end

subsection \<open>The limits\<close>

lemma volume_shed: "n \<le> volume es \<Longrightarrow> volume (shed n es) \<le> volume es - n"
  by (induction es) auto

lemma length_shed: "0 < n \<Longrightarrow> es \<noteq> [] \<Longrightarrow> length (shed n es) < length es"
proof (induction es)
  case (Cons e es)
  then show ?case by (cases "es = []") auto
qed simp

lemma length_without: "key \<in> fst ` set es \<Longrightarrow> length (without key es) < length es"
  unfolding without_def using length_filter_less [of _ es] by fastforce

lemma volume_without: "volume (without key es) \<le> volume es"
  unfolding without_def by (induction es) auto

lemma volume_without_old: "map_of es key = Some (old, ws) \<Longrightarrow> volume (without key es) + int (length old) \<le> volume es"
proof (induction es)
  case (Cons e es)
  then show ?case using volume_without [of key es] by (cases e) (auto simp: without_def split: if_splits)
qed simp

lemma volume_butlast: "volume (butlast es) \<le> volume es"
  by (induction es) auto

lemma length_shed_le: "length (shed n es) \<le> length es"
  by (induction es) auto

lemma spec_put_within:
  assumes "volume es \<le> ms" "int (length es) \<le> mc" "0 < mc" "put_safe ms key v words es"
  shows "volume (snd (spec_put ms mc key v words es)) \<le> ms \<and> int (length (snd (spec_put ms mc key v words es))) \<le> mc"
proof (cases "map_of es key")
  case None
  then have "key \<notin> fst ` set es" by (simp add: map_of_eq_None_iff)
  moreover have "ms < volume es + int (length v) \<Longrightarrow> int (length v) \<le> volume es \<Longrightarrow> length (shed (int (length v)) es) < length es"
    using assms(1) by (intro length_shed) auto
  ultimately show ?thesis
    using assms(1-3) volume_shed [of "int (length v)" es] volume_nonneg [of es] volume_butlast [of es]
    by (auto simp: spec_put_def Let_def)
next
  case (Some old)
  let ?others = "without key es"
  let ?extra = "int (length v) - (volume es - volume ?others)"
  have k: "key \<in> fst ` set es" using Some by (metis map_of_eq_None_iff option.distinct(1))
  have "?extra \<le> volume ?others" if "int (length v) \<le> ms" "ms < volume ?others + int (length v)"
    using that assms(4) Some volume_without_old [of es key "fst old" "snd old"] by (cases old) (simp add: put_safe_def)
  then have "int (length v) \<le> ms \<Longrightarrow> ms < volume ?others + int (length v) \<Longrightarrow> volume (shed ?extra ?others) \<le> volume es - int (length v)"
    using volume_shed [of ?extra ?others] by simp
  then show ?thesis
    using k assms(1,2) volume_without [of key es] length_without [OF k] length_shed_le [of ?extra ?others]
    by (auto simp: spec_put_def Let_def)
qed

section \<open>Runs of operations\<close>

datatype lru_op =
  GetValue cache_key u32 | PutValue cache_key "string list" bytes | DelValue cache_key | Invalidate "string list" | Clear

fun lru_exec ::
  "'st raw_storage \<Rightarrow> (nat set \<Rightarrow> nat list) \<Rightarrow> lru_op \<Rightarrow> 'st lru \<Rightarrow> ((u32 \<times> bytes option) \<times> 'st lru) option" where
  "lru_exec R order (GetValue key flags) s =
     map_option (\<lambda>(r, v, s). ((r, v), s)) (do_get_value R key flags CACHE_USE_CONFIG_TTL CACHE_USE_CONFIG_TTL s)"
| "lru_exec R order (PutValue key words v) s = map_option (\<lambda>(r, s). ((r, None), s)) (do_put_value R key words v s)"
| "lru_exec R order (DelValue key) s = map_option (\<lambda>(r, s). ((r, None), s)) (do_del_value R key s)"
| "lru_exec R order (Invalidate words) s = map_option (\<lambda>(r, s). ((r, None), s)) (do_invalidate R order words s)"
| "lru_exec R order Clear s = map_option (\<lambda>(r, s). ((r, None), s)) (do_clear R s)"

text \<open>Each operation takes place at a time of its own.\<close>

fun lru_run ::
  "(int \<Rightarrow> 'st raw_storage) \<Rightarrow> (nat set \<Rightarrow> nat list) \<Rightarrow> (int \<times> lru_op) list \<Rightarrow> 'st lru \<Rightarrow> ((u32 \<times> bytes option) list \<times> 'st lru) option" where
  "lru_run R order [] s = Some ([], s)"
| "lru_run R order ((now, op) # ops) s =
     do {
       (r, s) \<leftarrow> lru_exec (R now) order op s;
       (rs, s) \<leftarrow> lru_run R order ops s;
       Some (r # rs, s)
     }"

fun spec_exec :: "int \<Rightarrow> int \<Rightarrow> invalidator \<Rightarrow> lru_op \<Rightarrow> cached list \<Rightarrow> (u32 \<times> bytes option) \<times> cached list" where
  "spec_exec ms mc i (GetValue key flags) es = spec_get key es"
| "spec_exec ms mc i (PutValue key words v) es = apfst (\<lambda>r. (r, None)) (spec_put ms mc key v (node_words i words) es)"
| "spec_exec ms mc i (DelValue key) es = apfst (\<lambda>r. (r, None)) (spec_del key es)"
| "spec_exec ms mc i (Invalidate words) es = ((CACHE_RESULT_OK, None), spec_invalidate words es)"
| "spec_exec ms mc i Clear es = ((CACHE_RESULT_OK, None), [])"

fun op_safe :: "int \<Rightarrow> invalidator \<Rightarrow> lru_op \<Rightarrow> cached list \<Rightarrow> bool" where
  "op_safe ms i (PutValue key words v) es \<longleftrightarrow> distinct words \<and> put_safe ms key v (node_words i words) es"
| "op_safe ms i _ es \<longleftrightarrow> True"

fun spec_run :: "int \<Rightarrow> int \<Rightarrow> invalidator \<Rightarrow> (int \<times> lru_op) list \<Rightarrow> cached list \<Rightarrow> (u32 \<times> bytes option) list \<times> cached list" where
  "spec_run ms mc i [] es = ([], es)"
| "spec_run ms mc i ((now, op) # ops) es =
     (let (r, es) = spec_exec ms mc i op es; (rs, es) = spec_run ms mc i ops es in (r # rs, es))"

fun run_safe :: "int \<Rightarrow> int \<Rightarrow> invalidator \<Rightarrow> (int \<times> lru_op) list \<Rightarrow> cached list \<Rightarrow> bool" where
  "run_safe ms mc i [] es \<longleftrightarrow> True"
| "run_safe ms mc i ((now, op) # ops) es \<longleftrightarrow> op_safe ms i op es \<and> run_safe ms mc i ops (snd (spec_exec ms mc i op es))"

lemma filter_within:
  assumes "volume es \<le> ms" "int (length es) \<le> mc"
  shows "volume (filter P es) \<le> ms" "int (length (filter P es)) \<le> mc"
proof -
  have "volume (filter P es) \<le> volume es" by (induction es) auto
  then show "volume (filter P es) \<le> ms" using assms(1) by simp
  show "int (length (filter P es)) \<le> mc" using assms(2) length_filter_le [of P es] by linarith
qed

lemma spec_get_within:
  assumes "volume es \<le> ms" "int (length es) \<le> mc"
  shows "volume (snd (spec_get key es)) \<le> ms" "int (length (snd (spec_get key es))) \<le> mc"
proof -
  have "map_of es key = Some (v, ws) \<Longrightarrow> key \<in> fst ` set es" for v ws by (metis map_of_eq_None_iff option.distinct(1))
  then show "volume (snd (spec_get key es)) \<le> ms" "int (length (snd (spec_get key es))) \<le> mc"
    using assms volume_without_old [of es key] length_without [of key es] by (fastforce simp: spec_get_def split: option.split)+
qed

lemma spec_exec_within:
  assumes "volume es \<le> ms" "int (length es) \<le> mc" "0 < mc" "op_safe ms i op es"
  shows "volume (snd (spec_exec ms mc i op es)) \<le> ms \<and> int (length (snd (spec_exec ms mc i op es))) \<le> mc"
proof (cases op)
  case (PutValue key words v)
  then show ?thesis using spec_put_within [OF assms(1-3)] assms(4) by simp
next
  case Clear
  then show ?thesis using assms(1,3) volume_nonneg [of es] by simp
qed (use filter_within [OF assms(1,2)] spec_get_within [OF assms(1,2)] in \<open>simp_all add: spec_del_def without_def spec_invalidate_def\<close>)

context raw_store
begin

lemma exec_refines:
  assumes "stores fine held s es" "fits s es" "enumerates order" "op_safe (m_max_size s) (m_sInvalidator s) op es"
  defines "P \<equiv> spec_exec (m_max_size s) (m_max_count s) (m_sInvalidator s) op es"
  shows "\<exists>t. lru_exec (R now) order op s = Some (fst P, t) \<and> same_limits s t \<and> stores fine held t (snd P) \<and> fits t (snd P)"
proof -
  have w: "same_limits s t \<Longrightarrow> fits t (snd P)" for t
    using spec_exec_within [of es "m_max_size s" "m_max_count s" "m_sInvalidator s" op] assms(2,4)
    unfolding P_def by (simp add: fits_def same_limits_def)
  have "\<exists>t. lru_exec (R now) order op s = Some (fst P, t) \<and> same_limits s t \<and> stores fine held t (snd P)"
  proof (cases op)
    case (GetValue key flags)
    then show ?thesis using get_refines [OF assms(1), of now key flags] unfolding P_def by auto
  next
    case (PutValue key words v)
    then show ?thesis using put_refines [OF assms(1,2), of key v words now] assms(4) unfolding P_def by auto
  next
    case (DelValue key)
    then show ?thesis using del_refines [OF assms(1), of now key] unfolding P_def by auto
  next
    case (Invalidate words)
    then show ?thesis using invalidate_refines [OF assms(1-3), of now words] unfolding P_def by auto
  next
    case Clear
    then show ?thesis using clear_refines [OF assms(1), of now] unfolding P_def by auto
  qed
  then show ?thesis using w by blast
qed

lemma run_refines:
  assumes "stores fine held s es" "fits s es" "enumerates order" "run_safe (m_max_size s) (m_max_count s) (m_sInvalidator s) ops es"
  shows "\<exists>t. lru_run R order ops s = Some (fst (spec_run (m_max_size s) (m_max_count s) (m_sInvalidator s) ops es), t) \<and>
    same_limits s t \<and> stores fine held t (snd (spec_run (m_max_size s) (m_max_count s) (m_sInvalidator s) ops es)) \<and>
    fits t (snd (spec_run (m_max_size s) (m_max_count s) (m_sInvalidator s) ops es))"
  using assms
proof (induction ops arbitrary: s es)
  case (Cons nop ops)
  obtain now op where n: "nop = (now, op)" by (cases nop)
  let ?P = "spec_exec (m_max_size s) (m_max_count s) (m_sInvalidator s) op es"
  have safe: "op_safe (m_max_size s) (m_sInvalidator s) op es" "run_safe (m_max_size s) (m_max_count s) (m_sInvalidator s) ops (snd ?P)"
    using Cons.prems(4) n by simp_all
  obtain t where t: "lru_exec (R now) order op s = Some (fst ?P, t)" "same_limits s t" "stores fine held t (snd ?P)" "fits t (snd ?P)"
    using exec_refines [OF Cons.prems(1-3) safe(1)] by blast
  have c: "m_max_size t = m_max_size s" "m_max_count t = m_max_count s" "m_sInvalidator t = m_sInvalidator s"
    using t(2) by (simp_all add: same_limits_def)
  note IH = Cons.IH [OF t(3,4) Cons.prems(3), unfolded c, OF safe(2)]
  then show ?case using t(1) same_limits_trans [OF t(2)] n by (auto simp: split_beta Let_def)
qed simp

end

end
