(* ===== verification/Lru_Correct.thy ===== *)
theory Lru_Correct
  imports Lru_Refine
begin

text \<open>
  The storage with the values in memory, which satisfies the interface as long as values do not expire,
  and the properties of the two together.
\<close>

section \<open>The storage in memory behind it\<close>

definition im_fine :: "inmemory \<Rightarrow> bool" where
  "im_fine st \<longleftrightarrow> hard_ttl (im_config st) = 0"

definition im_held :: "inmemory \<Rightarrow> cache_key \<rightharpoonup> bytes" where
  "im_held st = map_option e_value \<circ> m_entries st"

lemmas im_defs = im_fine_def im_held_def inmemory_storage_def

interpretation im: raw_store inmemory_storage im_fine im_held
proof unfold_locales
  fix st now key and v :: bytes
  assume "im_fine st"
  then show "\<exists>st'. rs_put_value (inmemory_storage now) key [] v st = (CACHE_RESULT_OK, st') \<and> im_fine st' \<and>
      im_held st' = (im_held st)(key \<mapsto> v)"
    by (auto simp: im_defs im_put_value_def fun_eq_iff Let_def split: option.splits)
next
  fix st now key
  assume "im_fine st"
  then show "\<exists>st'. rs_del_value (inmemory_storage now) key st =
        (if im_held st key = None then CACHE_RESULT_NOT_FOUND else CACHE_RESULT_OK, st') \<and>
      im_fine st' \<and> im_held st' = (im_held st)(key := None)"
    by (auto simp: im_defs im_del_value_def fun_eq_iff split: option.splits)
next
  fix st now key flags v
  assume "im_fine st" "im_held st key = Some v"
  then show "\<exists>st'. rs_get_value (inmemory_storage now) key flags CACHE_USE_CONFIG_TTL CACHE_USE_CONFIG_TTL st =
        (CACHE_RESULT_OK, Some v, st') \<and> im_fine st' \<and> im_held st' = im_held st"
    by (auto simp: im_defs im_get_value_def Let_def word_greater_zero_iff)
next
  fix st now
  assume "im_fine st"
  then show "\<exists>st'. rs_clear (inmemory_storage now) st = (CACHE_RESULT_OK, st') \<and> im_fine st' \<and> im_held st' = Map.empty"
    by (auto simp: im_defs im_clear_def)
qed

lemma uint_nonzero: "w \<noteq> 0 \<Longrightarrow> 0 < uint w"
  by (metis uint_0_iff uint_nonnegative order_le_less)

lemma new_lru_stores:
  assumes "hard_ttl cfg = 0" "invalidate cfg = CACHE_INVALIDATE_NEVER"
  shows "stores im_fine im_held (new_lru (inmemory_storage now) config (new_inmemory cfg)) []"
    "fits (new_lru (inmemory_storage now) config (new_inmemory cfg)) []"
  using assms uint_nonzero [of "max_count config"]
  by (auto simp: stores_def accounts_def shape_def listed_def indexed_def words_ok_def notes_of_def new_lru_def no_stats_def fits_def
      im_defs new_inmemory_def fun_eq_iff)

text \<open>
  C10. The storage with a limit on its size behaves like a list of entries, the most recently used one
  first, from which the last ones are dropped to make room for a new one. For every run of operations
  from the start, on nodes, pointers and indexes and at whatever times, there is a result, so that no
  null pointer and no deleted node is used; each operation returns what it returns on the list, the
  storage behind holds the values of the list, the statistics are exact and neither limit is ever
  exceeded. It is assumed that values do not expire, that the storage behind does no invalidation of its
  own, and that an entry is replaced only by one with the same words which grows by no more than what
  the other entries occupy.
\<close>

theorem lru_refines_list:
  fixes cfg config :: storage_config and t0 :: int
  assumes "hard_ttl cfg = 0" "invalidate cfg = CACHE_INVALIDATE_NEVER" "enumerates order"
  defines "s \<equiv> new_lru (inmemory_storage t0) config (new_inmemory cfg)"
  assumes "run_safe (m_max_size s) (m_max_count s) (m_sInvalidator s) ops []"
    and "spec_run (m_max_size s) (m_max_count s) (m_sInvalidator s) ops [] = (rs, es)"
  shows "\<exists>t. lru_run inmemory_storage order ops s = Some (rs, t) \<and> im_held (m_pStorage t) = value_of es \<and>
    ls_size (m_stats t) = volume es \<and> volume es \<le> m_max_size s \<and>
    ls_items (m_stats t) = int (length es) \<and> int (length es) \<le> m_max_count s"
proof -
  have s: "stores im_fine im_held s []" "fits s []" using new_lru_stores [OF assms(1,2)] by (simp_all add: s_def)
  obtain t where "lru_run inmemory_storage order ops s = Some (rs, t)" "same_limits s t" "stores im_fine im_held t es" "fits t es"
    using im.run_refines [OF s assms(3,5)] assms(6) by auto
  then show ?thesis by (auto simp: stores_def accounts_def fits_def same_limits_def)
qed

definition sample_key :: "u64 \<Rightarrow> cache_key" where
  "sample_key n = \<lparr>ck_user = [], ck_host = [], data_hash = n, full_hash = n\<rparr>"

definition sample_config :: "u32 \<Rightarrow> u64 \<Rightarrow> u32 \<Rightarrow> storage_config" where
  "sample_config count sz ttl = \<lparr>hard_ttl = ttl, soft_ttl = ttl, max_count = count, max_size = sz, invalidate = CACHE_INVALIDATE_NEVER\<rparr>"

definition sample_lru :: "u32 \<Rightarrow> u64 \<Rightarrow> u32 \<Rightarrow> inmemory lru" where
  "sample_lru count sz ttl = new_lru (inmemory_storage 0) (sample_config count sz ttl) (new_inmemory (sample_config count sz ttl))"

lemmas sample_defs = sample_key_def sample_config_def

lemma sample_lru_limits [simp]:
  "m_max_size (sample_lru count sz ttl) = (if sz \<noteq> 0 then uint sz else 2 ^ 64 - 1)"
  "m_max_count (sample_lru count sz ttl) = (if count \<noteq> 0 then uint count else 2 ^ 64 - 1)"
  "m_sInvalidator (sample_lru count sz ttl) = NullInvalidator"
  by (simp_all add: sample_lru_def sample_config_def new_lru_def)

lemma sorted_enumerates: "enumerates sorted_list_of_set"
  by (simp add: enumerates_def)

definition sample_ops :: "(int \<times> lru_op) list" where
  "sample_ops =
     [(0, PutValue (sample_key 1) [] [1, 1]), (1, PutValue (sample_key 2) [] [2]), (2, GetValue (sample_key 1) 0),
      (3, PutValue (sample_key 3) [] [3, 3, 3]), (4, GetValue (sample_key 2) 0), (5, GetValue (sample_key 1) 0)]"

theorem lru_refines_list_witness:
  "\<exists>t. lru_run inmemory_storage sorted_list_of_set sample_ops (sample_lru 2 10 0) =
    Some ([(CACHE_RESULT_OK, None), (CACHE_RESULT_OK, None), (CACHE_RESULT_OK, Some [1, 1]), (CACHE_RESULT_OK, None),
      (CACHE_RESULT_NOT_FOUND, None), (CACHE_RESULT_OK, Some [1, 1])], t) \<and> ls_size (m_stats t) = 5"
proof -
  let ?cfg = "sample_config 2 10 0"
  have "spec_run 10 2 NullInvalidator sample_ops [] = ([(CACHE_RESULT_OK, None), (CACHE_RESULT_OK, None), (CACHE_RESULT_OK, Some [1, 1]),
      (CACHE_RESULT_OK, None), (CACHE_RESULT_NOT_FOUND, None), (CACHE_RESULT_OK, Some [1, 1])],
      [(sample_key 1, [1, 1], []), (sample_key 3, [3, 3, 3], [])])"
    by (simp add: sample_ops_def spec_put_def spec_get_def without_def sample_key_def)
  moreover have "run_safe 10 2 NullInvalidator sample_ops []"
    by (simp add: sample_ops_def spec_put_def spec_get_def put_safe_def without_def sample_key_def)
  ultimately show ?thesis
    using lru_refines_list [of ?cfg sorted_list_of_set 0 ?cfg sample_ops, folded sample_lru_def] sorted_enumerates
    by (auto simp: sample_config_def)
qed

lemma spec_put_stored:
  "fst (spec_put ms mc key v words es) = CACHE_RESULT_OK \<Longrightarrow> map_of (snd (spec_put ms mc key v words es)) key = Some (v, words)"
  by (auto simp: spec_put_def Let_def CACHE_RESULT_OK_def CACHE_RESULT_OUT_OF_RESOURCES_def split: if_splits)

text \<open>
  C36. A value that has been stored is found again under its key, with whatever flags and at whatever time.
  The state before is one that stands for a list of entries within the limits, values do not
  expire, and a value that is replaced has the same words and grows by no more than what the other
  entries occupy.
\<close>

theorem put_then_get:
  assumes "stores im_fine im_held s es" "fits s es" "distinct words" "put_safe (m_max_size s) key v (node_words (m_sInvalidator s) words) es"
    and "do_put_value (inmemory_storage t1) key words v s = Some (CACHE_RESULT_OK, s')"
  shows "\<exists>s''. do_get_value (inmemory_storage t2) key flags CACHE_USE_CONFIG_TTL CACHE_USE_CONFIG_TTL s' = Some (CACHE_RESULT_OK, Some v, s'')"
proof -
  let ?P = "put_result s key v words es"
  have p: "fst ?P = CACHE_RESULT_OK" "stores im_fine im_held s' (snd ?P)"
    using im.put_refines [OF assms(1,2,4,3), of t1] assms(5) by auto
  have "spec_get key (snd ?P) = ((CACHE_RESULT_OK, Some v), (key, v, node_words (m_sInvalidator s) words) # without key (snd ?P))"
    using spec_put_stored [OF p(1)] by (simp add: spec_get_def)
  then show ?thesis using im.get_refines [OF p(2), of t2 key flags] by auto
qed

text \<open>
  C39. A value for a new key that is larger than the whole cache may be is refused, but only after every
  other value has been evicted for it.
\<close>

theorem oversized_put_empties:
  assumes "stores im_fine im_held s es" "fits s es" "key \<notin> fst ` set es" "m_max_size s < int (length v)"
  shows "\<exists>t. do_put_value (inmemory_storage now) key words v s = Some (CACHE_RESULT_OUT_OF_RESOURCES, t) \<and>
    m_pHead t = None \<and> m_nodes_by_key t = Map.empty \<and> im_held (m_pStorage t) = Map.empty"
proof -
  have "m_max_size s < volume es + int (length v)" "volume es < int (length v)" using assms(2,4) volume_nonneg [of es] by (auto simp: fits_def)
  then obtain t where "do_put_value (inmemory_storage now) key words v s = Some (CACHE_RESULT_OUT_OF_RESOURCES, t)" "stores im_fine im_held t []"
    using im.put_new_flush [OF assms(1-3)] by blast
  then show ?thesis by (auto simp: stores_def accounts_def shape_def listed_def indexed_def)
qed



text \<open>A storage with two values, the second one of which is the most recently used.\<close>

definition sample_two :: "(int \<times> lru_op) list" where
  "sample_two = [(0, PutValue (sample_key 1) [] [1]), (1, PutValue (sample_key 2) [] [2, 2, 2, 2, 2])]"

abbreviation sample_entries :: "cached list" where
  "sample_entries \<equiv> [(sample_key 2, [2, 2, 2, 2, 2], []), (sample_key 1, [1], [])]"

lemma sample_stored:
  obtains s where "lru_run inmemory_storage sorted_list_of_set sample_two (sample_lru 2 10 0) =
      Some ([(CACHE_RESULT_OK, None), (CACHE_RESULT_OK, None)], s)"
    "stores im_fine im_held s sample_entries" "fits s sample_entries" "m_max_size s = 10" "m_sInvalidator s = NullInvalidator"
proof -
  have n: "stores im_fine im_held (sample_lru 2 10 0) []" "fits (sample_lru 2 10 0) []"
    unfolding sample_lru_def by (rule new_lru_stores; simp add: sample_config_def)+
  have "spec_run 10 2 NullInvalidator sample_two [] = ([(CACHE_RESULT_OK, None), (CACHE_RESULT_OK, None)], sample_entries)"
    by (simp add: sample_two_def spec_put_def without_def sample_key_def)
  moreover have "run_safe 10 2 NullInvalidator sample_two []"
    by (simp add: sample_two_def spec_put_def put_safe_def without_def sample_key_def)
  ultimately obtain s where "lru_run inmemory_storage sorted_list_of_set sample_two (sample_lru 2 10 0) =
      Some ([(CACHE_RESULT_OK, None), (CACHE_RESULT_OK, None)], s)"
    "same_limits (sample_lru 2 10 0) s" "stores im_fine im_held s sample_entries" "fits s sample_entries"
    using im.run_refines [OF n sorted_enumerates, of sample_two] by auto
  then show ?thesis using that by (simp add: same_limits_def)
qed


theorem oversized_put_empties_witness:
  "\<exists>rs s t. lru_run inmemory_storage sorted_list_of_set sample_two (sample_lru 2 10 0) = Some (rs, s) \<and>
    do_put_value (inmemory_storage 2) (sample_key 3) [] (replicate 11 3) s = Some (CACHE_RESULT_OUT_OF_RESOURCES, t) \<and> m_pHead t = None"
proof -
  obtain s where s: "lru_run inmemory_storage sorted_list_of_set sample_two (sample_lru 2 10 0) =
      Some ([(CACHE_RESULT_OK, None), (CACHE_RESULT_OK, None)], s)" "stores im_fine im_held s sample_entries" "fits s sample_entries"
    "m_max_size s = 10" "m_sInvalidator s = NullInvalidator" by (rule sample_stored)
  then show ?thesis using oversized_put_empties [OF s(2,3), of "sample_key 3" "replicate 11 3" 2 "[]"] by (auto simp: sample_key_def)
qed

theorem put_then_get_witness:
  "\<exists>rs s s' s''. lru_run inmemory_storage sorted_list_of_set sample_two (sample_lru 2 10 0) = Some (rs, s) \<and>
    do_put_value (inmemory_storage 2) (sample_key 3) [] [3] s = Some (CACHE_RESULT_OK, s') \<and>
    do_get_value (inmemory_storage 3) (sample_key 3) 0 CACHE_USE_CONFIG_TTL CACHE_USE_CONFIG_TTL s' = Some (CACHE_RESULT_OK, Some [3], s'')"
proof -
  obtain s where s: "lru_run inmemory_storage sorted_list_of_set sample_two (sample_lru 2 10 0) =
      Some ([(CACHE_RESULT_OK, None), (CACHE_RESULT_OK, None)], s)" "stores im_fine im_held s sample_entries" "fits s sample_entries"
    "m_max_size s = 10" "m_sInvalidator s = NullInvalidator" by (rule sample_stored)
  have safe: "put_safe (m_max_size s) (sample_key 3) [3] (node_words (m_sInvalidator s) []) sample_entries"
    by (simp add: put_safe_def sample_key_def s(5))
  have "fst (put_result s (sample_key 3) [3] [] sample_entries) = CACHE_RESULT_OK"
    by (simp add: spec_put_def Let_def s(4) sample_key_def)
  then obtain s' where s': "do_put_value (inmemory_storage 2) (sample_key 3) [] [3] s = Some (CACHE_RESULT_OK, s')"
    using im.put_refines [OF s(2,3) safe, of 2] by auto
  show ?thesis using put_then_get [OF s(2,3) _ safe s', of 3 0] s(1) s' by auto
qed

lemma put_first:
  assumes "distinct words" "int (length v) \<le> m_max_size s" "shape s []" "m_max_count s \<noteq> 0" "m_stats s = no_stats"
    and "do_put_value R key words v s = Some (r, t)" "result_ok r"
  shows "\<exists>x c. shape t [(x, c)] \<and> fst c = key \<and> ls_items (m_stats t) = 1 \<and> ls_size (m_stats t) = int (length v) \<and> same_limits s t"
proof -
  have k: "m_nodes_by_key s key = None" using shape_keys [OF assms(3)] by simp
  let ?x = "l_next_address s" and ?a = "allocated s"
  have g: "get_new_node R key v s = Some (CACHE_RESULT_OK, Some ?x, ?a\<lparr>m_nodes_by_key := (m_nodes_by_key ?a)(key \<mapsto> ?x)\<rparr>)"
    by (rule get_new_node_room [OF assms(3)]) (use assms(2,4,5) in \<open>simp_all add: no_stats_def\<close>)
  obtain r' st where st: "rs_put_value R key (storage_words (m_sInvalidator ?a) words) v (m_pStorage ?a) = (r', st)" by fastforce
  let ?b = "?a\<lparr>m_pStorage := st\<rparr>"
  have sp: "spare ?x ?b []" using spare_allocated [OF assms(3)] by (simp add: spare_def)
  have d: "distinct (node_words (m_sInvalidator ?b) words)" using assms(1) by (auto simp: node_words_def split: invalidator.splits)
  obtain u where u: "value_stored key words (int (length v)) False ?x (?b\<lparr>m_nodes_by_key := (m_nodes_by_key ?b)(key \<mapsto> ?x)\<rparr>) = Some u"
    "shape u [(?x, key, int (length v), node_words (m_sInvalidator ?b) words)]" "same_limits ?b u"
    "ls_items (m_stats u) = ls_items (m_stats ?b) + 1" "ls_size (m_stats u) = ls_size (m_stats ?b) + int (length v)"
    using value_stored_new [OF sp _ _ d, of key "int (length v)"] by auto
  have swap: "?a\<lparr>m_nodes_by_key := (m_nodes_by_key ?a)(key \<mapsto> ?x), m_pStorage := st\<rparr> =
      ?b\<lparr>m_nodes_by_key := (m_nodes_by_key ?b)(key \<mapsto> ?x)\<rparr>" by simp
  have "r' = r" using assms(6,7) k g st by (auto simp: do_put_value_def Let_def split: if_splits Option.bind_splits)
  then have "t = u" using assms(6,7) k g st u(1) swap by (simp add: do_put_value_def Let_def)
  moreover have "same_limits s u" using u(3) by (simp add: same_limits_def allocated_def)
  ultimately show ?thesis using u(2,4,5) assms(5) by (auto simp: allocated_def no_stats_def)
qed

lemma put_into_empty_full:
  assumes "shape t []" "ls_items (m_stats t) = m_max_count t" "ls_size (m_stats t) + int (length v) \<le> m_max_size t"
  shows "do_put_value R key words v t = None"
proof -
  have "m_nodes_by_key t key = None" "m_pTail t = None" using assms(1) by (simp_all add: shape_def indexed_def listed_def)
  then show ?thesis using assms(2,3) by (simp add: do_put_value_def get_new_node_def vacate_lru_def Let_def)
qed

text \<open>
  C38. If a value is found to have expired, its node is removed but the number of items is not decreased. In
  a cache for one item the next value then makes the cache evict its last node, of which there is none,
  so that a null pointer is followed.
\<close>

theorem expired_value_then_put_crashes:
  assumes "max_count config = 1" "int (length v) + int (length v') \<le> m_max_size (new_lru R config st)" "distinct words"
    and "do_put_value R key words v (new_lru R config st) = Some (r, s)" "result_ok r"
    and "rs_get_value R' key flags soft hard (m_pStorage s) = (g, answer, st')" "\<not> result_ok g" "result_not_found g" "\<not> result_stale g"
  shows "\<exists>t. do_get_value R' key flags soft hard s = Some (g, answer, t) \<and> do_put_value R'' key' words' v' t = None"
proof -
  let ?n = "new_lru R config st"
  have n: "shape ?n []" "m_max_count ?n = 1" "m_stats ?n = no_stats"
    using assms(1) by (auto simp: shape_def listed_def indexed_def words_ok_def notes_of_def new_lru_def)
  obtain x c where s: "shape s [(x, c)]" "fst c = key" "ls_items (m_stats s) = 1" "ls_size (m_stats s) = int (length v)" "same_limits ?n s"
    using put_first [OF assms(3) _ n(1) _ n(3) assms(4,5)] assms(2) n(2) by auto
  let ?u = "upd_stats (\<lambda>t. t\<lparr>ls_misses := ls_misses t + 1\<rparr>) (s\<lparr>m_pStorage := st'\<rparr>)"
  have u: "shape ?u ([] @ (x, c) # [])" using s(1) by simp
  obtain t where t: "free_node_at key INV_REMOVE ?u = Some t" "shape t []" "same_limits ?u t" "m_stats t = m_stats ?u"
    using free_node_at_shape [OF u] s(2) by auto
  have "do_get_value R' key flags soft hard s = Some (g, answer, t)"
    using shape_key [of s "[]" x c "[]"] s(1,2) assms(6-9) t(1) by (simp add: do_get_value_def access_value_def)
  moreover have "do_put_value R'' key' words' v' t = None"
    by (rule put_into_empty_full [OF t(2)]) (use t(3,4) s(3-5) n(2) assms(2) in \<open>simp_all add: same_limits_def\<close>)
  ultimately show ?thesis by blast
qed

lemma sample_put:
  "\<exists>s. do_put_value (inmemory_storage 0) (sample_key 1) [] [1] (sample_lru 1 10 5) = Some (CACHE_RESULT_OK, s) \<and>
    m_entries (m_pStorage s) = [sample_key 1 \<mapsto> \<lparr>e_time = 0, e_value = [1]\<rparr>] \<and> im_config (m_pStorage s) = sample_config 1 10 5"
  by (simp add: do_put_value_def get_new_node_def sample_lru_def new_lru_def new_inmemory_def sample_config_def no_stats_def Let_def
      inmemory_storage_def im_put_value_def storage_words_def node_words_def value_stored_def upd_node_def new_node_def make_note_def
      move_to_head_def node_prepend_def)

theorem expired_value_then_put_crashes_witness:
  "\<exists>s t. do_put_value (inmemory_storage 0) (sample_key 1) [] [1] (sample_lru 1 10 5) = Some (CACHE_RESULT_OK, s) \<and>
    do_get_value (inmemory_storage 6) (sample_key 1) 0 CACHE_USE_CONFIG_TTL CACHE_USE_CONFIG_TTL s =
      Some (CACHE_RESULT_NOT_FOUND OR CACHE_RESULT_DISCARDED, None, t) \<and>
    do_put_value (inmemory_storage 7) (sample_key 2) [] [2] t = None"
proof -
  let ?cfg = "sample_config 1 10 5"
  obtain s where s: "do_put_value (inmemory_storage 0) (sample_key 1) [] [1] (sample_lru 1 10 5) = Some (CACHE_RESULT_OK, s)"
    "m_entries (m_pStorage s) = [sample_key 1 \<mapsto> \<lparr>e_time = 0, e_value = [1]\<rparr>]" "im_config (m_pStorage s) = ?cfg"
    using sample_put by blast
  let ?g = "CACHE_RESULT_NOT_FOUND OR CACHE_RESULT_DISCARDED"
  obtain st where g: "rs_get_value (inmemory_storage 6) (sample_key 1) 0 CACHE_USE_CONFIG_TTL CACHE_USE_CONFIG_TTL (m_pStorage s) = (?g, None, st)"
    using s(2,3) by (simp add: inmemory_storage_def im_get_value_def Let_def sample_config_def)
  have "\<not> result_ok ?g" "result_not_found ?g" "\<not> result_stale ?g"
    by (simp_all add: any_bit_def CACHE_RESULT_OK_def CACHE_RESULT_NOT_FOUND_def CACHE_RESULT_STALE_def CACHE_RESULT_DISCARDED_def)
  then show ?thesis
    using expired_value_then_put_crashes [OF _ _ _ s(1) [unfolded sample_lru_def] _ g, of "[2]" "inmemory_storage 7" "sample_key 2" "[]"] s(1)
    by (auto simp: sample_config_def new_lru_def)
qed

end
