(* ===== verification/Monitor_Gtid.thy ===== *)
theory Monitor_Gtid
  imports Rws_Gtid "HOL-Library.Monad_Syntax"
begin

text \<open>
  Replication positions as the MariaDB monitor keeps them, \<open>Gtid\<close> and \<open>GtidList\<close> of
  \<open>server/modules/monitor/mariadbmon/server_utils.cc\<close>: parsing and printing lists of identifiers, and the
  comparison that decides whether a server can replicate from another one and which of two candidates
  is ahead when a primary is chosen.
\<close>

section \<open>Identifiers\<close>

text \<open>\<open>strtoull\<close> of the C library with base ten: the value, whether it is out of range, and the rest.\<close>

definition strtoull :: "string \<Rightarrow> u64 \<times> bool \<times> string" where
  "strtoull str =
     (let s = dropWhile isspace str;
          s = (if s \<noteq> [] \<and> (hd s = CHR ''-'' \<or> hd s = CHR ''+'') then tl s else s);
          digits = takeWhile isdigit s
      in if digits = [] then (0, False, str) else (strtoul str, 2 ^ 64 \<le> digits_value digits, dropWhile isdigit s))"

record triplet =
  t_domain :: u32
  t_server_id :: int
  t_sequence :: u64

abbreviation SERVER_ID_UNKNOWN :: int where "SERVER_ID_UNKNOWN \<equiv> - 1"

definition no_triplet :: triplet where
  "no_triplet = \<lparr>t_domain = 0, t_server_id = SERVER_ID_UNKNOWN, t_sequence = 0\<rparr>"

definition next_number :: "string \<Rightarrow> (u64 \<times> string) option" where
  "next_number str = (let (n, range, rest) = strtoull str in if range \<or> rest = str then None else Some (n, rest))"

definition skip_dash :: "string \<Rightarrow> string option" where
  "skip_dash str = (case str of c # s \<Rightarrow> if c = CHR ''-'' then Some s else None | [] \<Rightarrow> None)"

text \<open>The end is set only if there is an identifier.\<close>

definition triplet_from_string :: "string \<Rightarrow> triplet \<times> string option" where
  "triplet_from_string str =
     (case do {
        (d, s) \<leftarrow> next_number str;
        s \<leftarrow> skip_dash s;
        (i, s) \<leftarrow> next_number s;
        s \<leftarrow> skip_dash s;
        (q, s) \<leftarrow> next_number s;
        if d > 0xffffffff \<or> i > 0xffffffff then None else Some (d, i, q, s)
      } of
        Some (d, i, q, s) \<Rightarrow> (\<lparr>t_domain = ucast d, t_server_id = uint i, t_sequence = q\<rparr>, Some s)
      | None \<Rightarrow> (no_triplet, None))"

definition triplet_to_string :: "triplet \<Rightarrow> string" where
  "triplet_to_string g =
     (if t_server_id g \<noteq> SERVER_ID_UNKNOWN then
        decimal (unat (t_domain g)) @ ''-'' @ (if t_server_id g < 0 then ''-'' else []) @ decimal (nat \<bar>t_server_id g\<bar>) @ ''-'' @
        decimal (unat (t_sequence g))
      else [])"

section \<open>Lists of identifiers\<close>

lemma next_number_shorter:
  assumes "next_number str = Some (n, rest)"
  shows "length rest < length str"
proof -
  let ?s = "dropWhile isspace str"
  let ?t = "if ?s \<noteq> [] \<and> (hd ?s = CHR ''-'' \<or> hd ?s = CHR ''+'') then tl ?s else ?s"
  have r: "takeWhile isdigit ?t \<noteq> []" "rest = dropWhile isdigit ?t"
    using assms by (auto simp: next_number_def strtoull_def Let_def split: if_splits prod.splits)
  have "length ?t \<le> length str" using dropWhile_length_le [of isspace str] by (auto simp del: dropWhile_length_le)
  moreover have "length ?t = length (takeWhile isdigit ?t) + length rest"
    unfolding r(2) by (metis length_append takeWhile_dropWhile_id)
  ultimately show ?thesis using r(1) by (cases "takeWhile isdigit ?t") auto
qed

lemma skip_dash_shorter: "skip_dash str = Some s \<Longrightarrow> length s < length str"
  by (auto simp: skip_dash_def split: list.splits if_splits)

lemma triplet_shorter: "triplet_from_string str = (g, Some s) \<Longrightarrow> length s < length str"
  by (auto simp: triplet_from_string_def split: option.splits Option.bind_splits if_splits dest!: next_number_shorter skip_dash_shorter)

text \<open>The loop over the identifiers of a list, which ends at the terminating zero of the text.\<close>

function triplets_loop :: "string \<Rightarrow> triplet list option" where
  "triplets_loop str =
     (case triplet_from_string str of
        (g, Some (c # s)) \<Rightarrow>
          if t_server_id g = SERVER_ID_UNKNOWN then None
          else if c = CHR '','' then map_option ((#) g) (triplets_loop s) else None
      | (g, Some []) \<Rightarrow> if t_server_id g = SERVER_ID_UNKNOWN then None else Some [g]
      | (g, None) \<Rightarrow> None)"
  by pat_completeness auto
termination by (relation "measure length") (auto dest!: triplet_shorter [OF sym])

declare triplets_loop.simps [simp del]

text \<open>
  The order in which \<open>std::sort\<close> leaves identifiers of one domain is open; the positions of a server have
  one identifier per domain.
\<close>

definition gtid_list_from_string :: "string \<Rightarrow> triplet list" where
  "gtid_list_from_string gtid_string =
     (case triplets_loop (takeWhile (\<lambda>c. ccode c \<noteq> 0) gtid_string) of
        Some triplets \<Rightarrow> sort_key t_domain triplets
      | None \<Rightarrow> [])"

fun gtid_list_to_string :: "triplet list \<Rightarrow> string" where
  "gtid_list_to_string [] = []"
| "gtid_list_to_string [g] = triplet_to_string g"
| "gtid_list_to_string (g # gs) = triplet_to_string g @ '','' @ gtid_list_to_string gs"

definition get_gtid :: "u32 \<Rightarrow> triplet list \<Rightarrow> triplet" where
  "get_gtid domain triplets =
     (case dropWhile (\<lambda>g. t_domain g < domain) triplets of
        found # _ \<Rightarrow> if t_domain found = domain then found else no_triplet
      | [] \<Rightarrow> no_triplet)"

definition gtid_domains :: "triplet list \<Rightarrow> u32 list" where
  "gtid_domains triplets = map t_domain triplets"

datatype substraction_mode = MISSING_DOMAIN_IGNORE | MISSING_DOMAIN_LHS_ADD

fun ahead_loop :: "substraction_mode \<Rightarrow> triplet list \<Rightarrow> triplet list \<Rightarrow> u64 \<Rightarrow> triplet list \<times> u64" where
  "ahead_loop mode (l # ls) (r # rs) events =
     (if t_domain l < t_domain r then
        ahead_loop mode ls (r # rs) (if mode = MISSING_DOMAIN_LHS_ADD then events + t_sequence l else events)
      else if t_domain l > t_domain r then ahead_loop mode (l # ls) rs events
      else
        ahead_loop mode ls rs (if t_sequence l > t_sequence r then events + (t_sequence l - t_sequence r) else events))"
| "ahead_loop mode ls rs events = (ls, events)"

definition events_ahead :: "triplet list \<Rightarrow> triplet list \<Rightarrow> substraction_mode \<Rightarrow> u64" where
  "events_ahead lhs rhs mode =
     (let (rest, events) = ahead_loop mode lhs rhs 0
      in if mode = MISSING_DOMAIN_LHS_ADD then foldl (\<lambda>e g. e + t_sequence g) events rest else events)"

definition can_replicate_from :: "triplet list \<Rightarrow> triplet list \<Rightarrow> bool" where
  "can_replicate_from lhs master_gtid \<longleftrightarrow> events_ahead lhs master_gtid MISSING_DOMAIN_IGNORE = 0"

section \<open>Comparing positions\<close>

definition sequence_in :: "triplet list \<Rightarrow> u32 \<rightharpoonup> nat" where
  "sequence_in gs = map_of (map (\<lambda>g. (t_domain g, unat (t_sequence g))) gs)"

definition ahead_by :: "substraction_mode \<Rightarrow> triplet list \<Rightarrow> triplet \<Rightarrow> nat" where
  "ahead_by mode rhs l =
     (case sequence_in rhs (t_domain l) of
        Some q \<Rightarrow> unat (t_sequence l) - q
      | None \<Rightarrow> if mode = MISSING_DOMAIN_LHS_ADD then unat (t_sequence l) else 0)"

abbreviation by_domain :: "triplet list \<Rightarrow> bool" where
  "by_domain gs \<equiv> sorted_wrt (\<lambda>g h. t_domain g < t_domain h) gs"

lemma sequence_in_Cons [simp]: "sequence_in (g # gs) = (sequence_in gs)(t_domain g \<mapsto> unat (t_sequence g))"
  by (simp add: sequence_in_def)

lemma sequence_in_None: "(\<forall>g \<in> set gs. t_domain g \<noteq> d) \<Longrightarrow> sequence_in gs d = None"
  by (auto simp: sequence_in_def map_of_eq_None_iff)

lemma ahead_by_skip: "t_domain r < t_domain l \<Longrightarrow> ahead_by mode (r # rs) l = ahead_by mode rs l"
  by (auto simp: ahead_by_def)

lemma sum_ahead_skip:
  "\<forall>l \<in> set ls. t_domain r < t_domain l \<Longrightarrow> (\<Sum>l \<leftarrow> ls. ahead_by mode (r # rs) l) = (\<Sum>l \<leftarrow> ls. ahead_by mode rs l)"
  by (induction ls) (simp_all add: ahead_by_skip)

lemma of_nat_ahead: "(of_nat (unat a - unat b) :: u64) = (if a > b then a - b else 0)"
proof (cases "b < a")
  case True
  then have "unat a - unat b = unat (a - b)" by (simp add: unat_sub order_less_imp_le)
  then show ?thesis using True by simp
next
  case False
  then have "unat a \<le> unat b" by (simp add: word_le_nat_alt [symmetric])
  then show ?thesis using False by simp
qed

lemma ahead_loop_sum:
  assumes "by_domain lhs" "by_domain rhs" "ahead_loop mode lhs rhs events = (rest, events')"
  shows "events' + of_nat (\<Sum>l \<leftarrow> rest. ahead_by mode [] l) = events + of_nat (\<Sum>l \<leftarrow> lhs. ahead_by mode rhs l)"
  using assms
proof (induction mode lhs rhs events rule: ahead_loop.induct)
  case (1 mode l ls r rs events)
  have tail: "by_domain ls" "by_domain rs" "\<forall>k \<in> set ls. t_domain l < t_domain k" using "1.prems"(1,2) by simp_all
  consider (less) "t_domain l < t_domain r" | (more) "t_domain l > t_domain r" | (same) "t_domain l = t_domain r" by fastforce
  then show ?case
  proof cases
    case less
    have "sequence_in (r # rs) (t_domain l) = None" using "1.prems"(2) less by (intro sequence_in_None) auto
    then have "ahead_by mode (r # rs) l = (if mode = MISSING_DOMAIN_LHS_ADD then unat (t_sequence l) else 0)" by (simp add: ahead_by_def)
    then show ?thesis using "1.IH"(1) [OF less tail(1) "1.prems"(2)] "1.prems"(3) less by (simp add: add.assoc split: if_splits)
  next
    case more
    then have "\<forall>k \<in> set (l # ls). t_domain r < t_domain k" using tail(3) by auto
    moreover have nl: "\<not> t_domain l < t_domain r" using more by simp
    ultimately show ?thesis
      using "1.IH"(2) [OF nl more "1.prems"(1) tail(2)] "1.prems"(3) more nl sum_ahead_skip [of "l # ls" r mode rs] by simp
  next
    case same
    then have "(\<Sum>k \<leftarrow> ls. ahead_by mode (r # rs) k) = (\<Sum>k \<leftarrow> ls. ahead_by mode rs k)" using tail(3) by (intro sum_ahead_skip) simp
    moreover have "ahead_by mode (r # rs) l = unat (t_sequence l) - unat (t_sequence r)" using same by (simp add: ahead_by_def)
    ultimately show ?thesis
      using "1.IH"(3) [OF _ _ tail(1,2)] "1.prems"(3) same of_nat_ahead [of "t_sequence l" "t_sequence r"] by (simp add: add.assoc)
  qed
qed (auto simp: ahead_by_def sequence_in_def)

lemma foldl_sequences: "foldl (\<lambda>e g. e + t_sequence g) events gs = events + of_nat (\<Sum>g \<leftarrow> gs. ahead_by MISSING_DOMAIN_LHS_ADD [] g)"
  by (induction gs arbitrary: events) (simp_all add: ahead_by_def sequence_in_def add.assoc)

lemma sum_missing: "sum_list (map (ahead_by MISSING_DOMAIN_IGNORE []) gs) = 0"
  by (induction gs) (simp_all add: ahead_by_def sequence_in_def)

lemma events_ahead_exact:
  assumes "by_domain lhs" "by_domain rhs"
  shows "events_ahead lhs rhs mode = of_nat (\<Sum>l \<leftarrow> lhs. ahead_by mode rhs l)"
proof -
  obtain rest events where e: "ahead_loop mode lhs rhs 0 = (rest, events)" by fastforce
  note s = ahead_loop_sum [OF assms e]
  show ?thesis
  proof (cases mode)
    case MISSING_DOMAIN_IGNORE
    then show ?thesis using s e by (simp add: events_ahead_def sum_missing)
  next
    case MISSING_DOMAIN_LHS_ADD
    then show ?thesis using s e foldl_sequences [of events rest] by (simp add: events_ahead_def)
  qed
qed

text \<open>
  C33. The number of events by which a position is ahead of another one is the sum, over its domains, of
  the differences of the sequence numbers where it is ahead, together with the whole sequence numbers of
  the domains that the other one does not have if these are to be added; the sum is taken modulo \<open>2 ^ 64\<close>.
\<close>

theorem events_ahead_sum:
  assumes "by_domain lhs" "by_domain rhs"
  shows "events_ahead lhs rhs mode = of_nat (\<Sum>l \<leftarrow> lhs. ahead_by mode rhs l)"
  by (rule events_ahead_exact [OF assms])

lemma sample_triplets:
  "by_domain [\<lparr>t_domain = 0, t_server_id = 1, t_sequence = 7\<rparr>, \<lparr>t_domain = 2, t_server_id = 1, t_sequence = 5\<rparr>]"
  by simp

theorem events_ahead_sum_witness:
  "events_ahead [\<lparr>t_domain = 0, t_server_id = 1, t_sequence = 7\<rparr>, \<lparr>t_domain = 2, t_server_id = 1, t_sequence = 5\<rparr>]
     [\<lparr>t_domain = 0, t_server_id = 2, t_sequence = 4\<rparr>] MISSING_DOMAIN_LHS_ADD = 8"
  using events_ahead_sum [OF sample_triplets, of "[\<lparr>t_domain = 0, t_server_id = 2, t_sequence = 4\<rparr>]" MISSING_DOMAIN_LHS_ADD]
  by (simp add: ahead_by_def sequence_in_def)

lemma ahead_by_zero:
  assumes "by_domain rhs"
  shows "ahead_by MISSING_DOMAIN_IGNORE rhs l = 0 \<longleftrightarrow> (\<forall>r \<in> set rhs. t_domain r = t_domain l \<longrightarrow> t_sequence l \<le> t_sequence r)"
  using assms
proof (induction rhs)
  case (Cons r rs)
  show ?case
  proof (cases "t_domain r = t_domain l")
    case True
    then have "\<forall>k \<in> set rs. t_domain k \<noteq> t_domain l" using Cons.prems by auto
    then show ?thesis using True by (auto simp: ahead_by_def word_le_nat_alt)
  next
    case False
    then have "ahead_by MISSING_DOMAIN_IGNORE (r # rs) l = ahead_by MISSING_DOMAIN_IGNORE rs l" by (auto simp: ahead_by_def)
    then show ?thesis using False Cons by auto
  qed
qed (simp add: ahead_by_def sequence_in_def)

lemma of_nat_u64_zero: "n < 2 ^ 64 \<Longrightarrow> (of_nat n :: u64) = 0 \<longleftrightarrow> n = 0"
  by (auto simp: word_of_nat_eq_0_iff dest: dvd_imp_le)

text \<open>
  C34. A server can replicate from another one exactly if it is not ahead of it in any domain that both
  have, as long as the differences do not add up to \<open>2 ^ 64\<close> events.
\<close>

theorem can_replicate_iff:
  assumes "by_domain lhs" "by_domain rhs" "(\<Sum>l \<leftarrow> lhs. ahead_by MISSING_DOMAIN_IGNORE rhs l) < 2 ^ 64"
  shows "can_replicate_from lhs rhs \<longleftrightarrow>
    (\<forall>l \<in> set lhs. \<forall>r \<in> set rhs. t_domain r = t_domain l \<longrightarrow> t_sequence l \<le> t_sequence r)"
proof -
  have "can_replicate_from lhs rhs \<longleftrightarrow> (\<Sum>l \<leftarrow> lhs. ahead_by MISSING_DOMAIN_IGNORE rhs l) = 0"
    unfolding can_replicate_from_def events_ahead_exact [OF assms(1,2)] by (rule of_nat_u64_zero [OF assms(3)])
  also have "... \<longleftrightarrow> (\<forall>l \<in> set lhs. ahead_by MISSING_DOMAIN_IGNORE rhs l = 0)" by simp
  finally show ?thesis using ahead_by_zero [OF assms(2)] by simp
qed

theorem can_replicate_iff_witness:
  "\<not> can_replicate_from [\<lparr>t_domain = 0, t_server_id = 1, t_sequence = 7\<rparr>, \<lparr>t_domain = 2, t_server_id = 1, t_sequence = 5\<rparr>]
     [\<lparr>t_domain = 0, t_server_id = 2, t_sequence = 4\<rparr>]"
  using can_replicate_iff [OF sample_triplets, of "[\<lparr>t_domain = 0, t_server_id = 2, t_sequence = 4\<rparr>]"]
  by (simp add: ahead_by_def sequence_in_def)

text \<open>
  C40. The sum wraps around: whenever the differences add up to a positive multiple of \<open>2 ^ 64\<close>, the
  server is said to be able to replicate from the other one although it is ahead of it in a
  domain that both have.
\<close>

theorem replication_wraps_around:
  assumes "by_domain lhs" "by_domain rhs"
    and "(\<Sum>l \<leftarrow> lhs. ahead_by MISSING_DOMAIN_IGNORE rhs l) = k * 2 ^ 64" "0 < k"
  shows "can_replicate_from lhs rhs \<and>
    (\<exists>l \<in> set lhs. \<exists>r \<in> set rhs. t_domain r = t_domain l \<and> t_sequence r < t_sequence l)"
proof
  show "can_replicate_from lhs rhs"
    unfolding can_replicate_from_def events_ahead_exact [OF assms(1,2)] assms(3) by (simp only: word_of_nat_eq_0_iff) simp
  have "(\<Sum>l \<leftarrow> lhs. ahead_by MISSING_DOMAIN_IGNORE rhs l) \<noteq> 0" using assms(3,4) by (simp only: mult_eq_0_iff) simp
  then obtain l where "l \<in> set lhs" "ahead_by MISSING_DOMAIN_IGNORE rhs l \<noteq> 0" by auto
  then show "\<exists>l \<in> set lhs. \<exists>r \<in> set rhs. t_domain r = t_domain l \<and> t_sequence r < t_sequence l"
    using ahead_by_zero [OF assms(2), of l] by (auto simp: not_le)
qed

theorem replication_wraps_around_witness:
  "can_replicate_from [\<lparr>t_domain = 0, t_server_id = 1, t_sequence = 2 ^ 63\<rparr>, \<lparr>t_domain = 1, t_server_id = 1, t_sequence = 2 ^ 63\<rparr>]
     [\<lparr>t_domain = 0, t_server_id = 2, t_sequence = 0\<rparr>, \<lparr>t_domain = 1, t_server_id = 2, t_sequence = 0\<rparr>]"
  by (rule replication_wraps_around [where k = 1, THEN conjunct1]) (simp_all add: ahead_by_def sequence_in_def)

lemma get_gtid_member: "by_domain gs \<Longrightarrow> g \<in> set gs \<Longrightarrow> get_gtid (t_domain g) gs = g"
  by (induction gs) (auto simp: get_gtid_def)

section \<open>Printing and parsing\<close>

lemma digits_rest:
  assumes "s = [] \<or> \<not> isdigit (hd s)"
  shows "takeWhile isdigit (decimal n @ s) = decimal n" "dropWhile isdigit (decimal n @ s) = s"
proof -
  have "\<forall>c \<in> set (decimal n). isdigit c" using decimal_digits [of n] by (simp add: list_all_iff)
  then show "takeWhile isdigit (decimal n @ s) = decimal n" "dropWhile isdigit (decimal n @ s) = s"
    using assms by (cases s; simp add: takeWhile_append dropWhile_append)+
qed

lemma next_number_decimal:
  assumes "n < 2 ^ 64" "s = [] \<or> \<not> isdigit (hd s)"
  shows "next_number (decimal n @ s) = Some (of_nat n, s)"
proof -
  obtain c t where d: "decimal n = c # t" "isdigit c" using decimal_digits [of n] by (cases "decimal n") auto
  have sp: "dropWhile isspace (decimal n @ s) = decimal n @ s" "hd (decimal n @ s) \<noteq> CHR ''-''" "hd (decimal n @ s) \<noteq> CHR ''+''"
    using d isdigit_not [OF d(2)] by simp_all
  note tw = digits_rest [OF assms(2), of n]
  have "strtoul (decimal n @ s) = of_nat n" using assms(1) sp tw digits_value_decimal [of n] by (simp add: strtoul_def Let_def)
  moreover have "\<not> 2 ^ 64 \<le> digits_value (decimal n)" using assms(1) digits_value_decimal [of n] by simp
  ultimately have "strtoull (decimal n @ s) = (of_nat n, False, s)" using sp tw d(1) by (simp add: strtoull_def Let_def)
  then show ?thesis using d(1) by (simp add: next_number_def)
qed

abbreviation valid_triplet :: "triplet \<Rightarrow> bool" where
  "valid_triplet g \<equiv> 0 \<le> t_server_id g \<and> t_server_id g < 2 ^ 32"

lemma number_in_range:
  assumes "n < 2 ^ 32"
  shows "\<not> (of_nat n :: u64) > 0xffffffff" "uint (of_nat n :: u64) = int n"
proof -
  have u: "unat (of_nat n :: u64) = n" using assms by (simp add: unat_of_nat)
  then show "\<not> (of_nat n :: u64) > 0xffffffff" using assms by (simp add: word_less_nat_alt)
  show "uint (of_nat n :: u64) = int n" using u by (metis uint_nat)
qed

lemma triplet_round_trip:
  assumes "valid_triplet g" "s = [] \<or> \<not> isdigit (hd s)"
  shows "triplet_from_string (triplet_to_string g @ s) = (g, Some s)"
proof -
  let ?d = "unat (t_domain g)" and ?i = "nat (t_server_id g)" and ?q = "unat (t_sequence g)"
  have lt: "?d < 2 ^ 32" "?i < 2 ^ 32" "?q < 2 ^ 64"
    using assms(1) unsigned_less [of "t_domain g", where 'a = nat] unsigned_less [of "t_sequence g", where 'a = nat] by auto
  have dash: "\<not> isdigit (CHR ''-'')" by (simp add: isdigit_def)
  have p: "triplet_to_string g @ s = decimal ?d @ CHR ''-'' # (decimal ?i @ CHR ''-'' # (decimal ?q @ s))"
    using assms(1) by (simp add: triplet_to_string_def)
  have n: "next_number (decimal ?d @ CHR ''-'' # t) = Some (of_nat ?d, CHR ''-'' # t)"
    "next_number (decimal ?i @ CHR ''-'' # t) = Some (of_nat ?i, CHR ''-'' # t)" "next_number (decimal ?q @ s) = Some (of_nat ?q, s)" for t
    using lt assms(2) dash by (intro next_number_decimal; simp)+
  have le: "\<not> (of_nat ?d :: u64) > 0xffffffff" "\<not> (of_nat ?i :: u64) > 0xffffffff"
    using number_in_range(1) [OF lt(1)] number_in_range(1) [OF lt(2)] by blast+
  have c: "ucast (of_nat ?d :: u64) = t_domain g" "uint (of_nat ?i :: u64) = t_server_id g"
    using number_in_range(2) [OF lt(2)] assms(1) by (auto intro: bit_word_eqI simp: bit_simps)
  show ?thesis
    unfolding p triplet_from_string_def using n le c by (simp add: skip_dash_def)
qed

lemma triplets_loop_printed:
  assumes "gs \<noteq> []" "\<forall>g \<in> set gs. valid_triplet g"
  shows "triplets_loop (gtid_list_to_string gs) = Some gs"
  using assms
proof (induction gs rule: gtid_list_to_string.induct)
  case (2 g)
  then have "triplet_from_string (triplet_to_string g) = (g, Some [])" using triplet_round_trip [of g "[]"] by simp
  then show ?case using 2 by (subst triplets_loop.simps) simp
next
  case (3 g h gs)
  have "\<not> isdigit (CHR '','')" by (simp add: isdigit_def)
  then have "triplet_from_string (triplet_to_string g @ CHR '','' # gtid_list_to_string (h # gs)) =
      (g, Some (CHR '','' # gtid_list_to_string (h # gs)))" using triplet_round_trip [of g] "3.prems" by simp
  then show ?case using 3 by (subst triplets_loop.simps) simp
qed simp

lemma printed_chars:
  "\<forall>c \<in> set (gtid_list_to_string gs). ccode c \<noteq> 0"
proof (induction gs rule: gtid_list_to_string.induct)
  have n: "\<forall>c \<in> set (decimal n). ccode c \<noteq> 0" for n using decimal_digits [of n] by (auto simp: list_all_iff isdigit_def)
  have t: "\<forall>c \<in> set (triplet_to_string g). ccode c \<noteq> 0" for g using n by (auto simp: triplet_to_string_def)
  {
    case (2 g)
    then show ?case using t by simp
  next
    case (3 g h gs)
    then show ?case using t by auto
  }
qed simp

text \<open>
  C35. A list of identifiers in the order of their domains is read back from its text.
\<close>

theorem gtid_list_round_trip:
  assumes "gs \<noteq> []" "\<forall>g \<in> set gs. valid_triplet g" "by_domain gs"
  shows "gtid_list_from_string (gtid_list_to_string gs) = gs"
proof -
  have tw: "takeWhile (\<lambda>c. ccode c \<noteq> 0) (gtid_list_to_string gs) = gtid_list_to_string gs" using printed_chars [of gs] by simp
  have "sorted (map t_domain gs)" using assms(3) by (induction gs) auto
  then show ?thesis
    unfolding gtid_list_from_string_def tw using triplets_loop_printed [OF assms(1,2)] by (simp add: sort_key_id_if_sorted)
qed

theorem gtid_list_round_trip_witness:
  "gtid_list_from_string (gtid_list_to_string
      [\<lparr>t_domain = 0, t_server_id = 1, t_sequence = 7\<rparr>, \<lparr>t_domain = 2, t_server_id = 1, t_sequence = 5\<rparr>]) =
    [\<lparr>t_domain = 0, t_server_id = 1, t_sequence = 7\<rparr>, \<lparr>t_domain = 2, t_server_id = 1, t_sequence = 5\<rparr>]"
  by (rule gtid_list_round_trip [OF _ _ sample_triplets]) simp_all

end
