(* ===== verification/Spec2Isabelle.thy ===== *)
theory Spec2Isabelle
  imports Trx_Grammar Packet_Parser Classifier_Correct History Rws_Queue Rws_Replay Lru_Correct Monitor_Gtid
begin

text \<open>
  A verification library for MaxScale, a proxy between clients and replicating MariaDB servers.

  \<^bold>\<open>The program.\<close> A client connects to a service and authenticates. Its packets are cut off the stream,
  classified - which kind of statement is it, does it start or end a transaction, does it
  read or write - and handed to a router, which writes them to one or several servers and merges
  their replies. The router modelled here is \<open>readwritesplit\<close>: writes go to the primary, reads to
  replicas, session commands to all servers. It reconnects, replays transactions on another server
  when one fails, and can delay reads until a replica has caught up. A filter in front of the router
  can answer reads from a cache, and a monitor finds out which server is the primary and which ones can
  replicate from it. All names of files are relative to \<open>src/\<close>.

  \<^bold>\<open>Conventions.\<close> Integers of the program are words of their width, flags are bits of words, classes
  are records and methods are functions from the state to the state. A buffer is the list of its
  bytes (\<open>gw_data\<close>). An operation of type \<open>option\<close> has the result \<^const>\<open>None\<close> exactly if the program
  reads outside of a packet or of a container, or follows a pointer that is null or to an object that
  has been deleted; that it has a result is a claim of its own. Code that
  is not part of the repository is a parameter: the SQL grammar (\<open>sql_grammar\<close>), and in the record
  \<open>env\<close> the network, the hash function of checksums and the sizes of buffers. Log messages and
  statistics are left out throughout.

  \<^bold>\<open>Parts and theories.\<close>
  \<^item> \<open>Prelude\<close>: words as flags, the collections of rewrite rules, bytes and texts. \<open>Gwbuf\<close>: buffers with
    hints (\<open>include/maxscale/buffer.hh\<close>, \<open>hint.hh\<close>).
  \<^item> \<open>Custom_Parser\<close>, \<open>Trx_Boundary_Parser\<close>: the hand written parser that recognises transaction
    statements (\<open>customparser.hh\<close>, \<open>trxboundaryparser.hh\<close>, the white space part of
    \<open>mariadb_common.cc\<close>), one function per method. \<open>Trx_Grammar\<close>: its language as an inductive grammar,
    and the equivalence of the two.
  \<^item> \<open>Sql_Types\<close>, \<open>Mariadb_Parser\<close>: type masks of statements and what is read from the command byte
    (\<open>parser.hh\<close>, \<open>mariadbparser.cc\<close>, the accessors of \<open>pp_sqlite.cc\<close>).
  \<^item> \<open>Mariadb_Packet\<close>: headers, length-encoded values, error, OK and query packets, cutting packets off
    a stream (\<open>mariadb_common.cc\<close>, \<open>mysql.hh\<close>, \<open>mariadb.cc\<close>, \<open>mysql_utils.cc\<close>). \<open>Packet_Parser\<close>: the handshake
    response and COM_CHANGE_USER (\<open>packet_parser.cc\<close>).
  \<^item> \<open>Trx_Tracker\<close>: the state of the transaction (\<open>TrxTracker\<close> in \<open>queryclassifier.hh\<close>) as bits, refined by a
    machine of explicit phases.
  \<^item> \<open>Query_Classifier\<close>, \<open>Classifier_Correct\<close>: \<open>queryclassifier.cc\<close> - route information, prepared
    statements, temporary tables, hints - and its properties.
  \<^item> \<open>History\<close>: the session command history (\<open>history.cc\<close>). \<open>Backend\<close>: status bits of servers and the
    connection of a session to a server (\<open>target.hh\<close>, \<open>backend.cc\<close>).
  \<^item> \<open>Rws_Gtid\<close>, \<open>Rws_Session\<close>, \<open>Rws_Select\<close>, \<open>Rws_Route\<close>, \<open>Rws_Reply\<close>: the router, one record \<open>rws\<close> for
    \<open>RWSplitSession\<close> and one definition per method: configuration and positions
    (\<open>readwritesplit.cc\<close>), primitives (\<open>rwsplitsession.hh\<close>, \<open>trx.hh\<close>), choice of servers
    (\<open>rwsplit_select_backends.cc\<close>), routing (\<open>rwsplit_route_stmt.cc\<close>, \<open>rwsplit_session_cmd.cc\<close>) and replies,
    causal reads, replay and errors (\<open>rwsplitsession.cc\<close>, \<open>rwsplit_causal_reads.cc\<close>). What a session
    does to the outside is a trace of events in \<open>m_io\<close>.
  \<^item> \<open>Rws_Frame\<close>, \<open>Rws_Invariant\<close>: the invariant of a session and that every entry point keeps it.
    \<open>Rws_Safety\<close>: which servers are written to. \<open>Rws_Queue\<close>: statements that wait. \<open>Rws_Replay\<close>: replay
    and causal reads as the client sees them.
  \<^item> \<open>Cache_Storage\<close>, \<open>Lru_Storage\<close>: the storages of the cache filter. The interface
    (\<open>cache_storage_api.hh\<close>) is a record of functions, \<open>raw_storage\<close>; the storage in memory
    (\<open>inmemorystorage.cc\<close>) provides it and the storage with limits (\<open>lrustorage.cc\<close>, the record \<open>lru\<close>) uses it.
    Its nodes are on an explicit heap, with the pointers of a doubly linked list and indexes by key
    and by word. \<open>Lru_List\<close>, \<open>Lru_Evict\<close>: the list and the indexes agree, and eviction.
    \<open>Lru_Refine\<close>, \<open>Lru_Correct\<close>: refinement of a list of entries, and the properties.
  \<^item> \<open>Monitor_Gtid\<close>: the positions of servers that the MariaDB monitor compares (\<open>server_utils.cc\<close>).

  \<^bold>\<open>What is shown.\<close> The parser of transaction statements accepts exactly its grammar; the tracker
  follows the phases of a transaction under every order of statements and replies; packets are cut,
  built and read back correctly, and reading a handshake stays within the packet; a statement goes to
  a replica only if it is a read; the execution of a prepared statement is classified by the
  text that was prepared; the history holds the last commands in order and finds differing
  responses; the best suitable server is chosen. For the router: references to servers
  are always valid and counters bounded; what can change data reaches primaries only; a transaction
  stays on its server; waiting statements keep their order, are not lost and make progress; a
  replay sends the same statements again, continues results where they broke off and ends. The cache
  is a list of entries ordered by use within its limits, whatever operations are applied to it, and
  returns what was stored, as long as values do not expire and no replacement grows by more than the other
  values occupy; positions are read back from their text and compared domain by domain.
  Some lemmas state where the program does not do what it means to; they are listed as such.

  \<^bold>\<open>Interfaces.\<close> The locales \<open>invariant_machine\<close> and \<open>simulation\<close> (state machines and refinements of them),
  \<open>token_scanner\<close> (what the parser relies on in its tokenizer), \<open>first_binding\<close> (containers in which an
  earlier entry wins), \<open>selection\<close> (the contract of the functions that compare servers) and \<open>raw_store\<close>
  (what the storage with limits relies on in the storage of the values) state what one part relies on
  in another; each is interpreted on the definitions of the program in the theory
  that provides them.

  \<^bold>\<open>Bounds and fuel.\<close> All loops terminate by a measure on the bytes, statements or servers that are
  left; the loops over the nodes of the cache, which follow pointers, have the number of nodes that were
  ever allocated as fuel. It is shown that a list is never longer than that, so that the operations of
  the cache have a result. The retry of a delayed statement and the next event of a session are steps
  of the relation \<open>rws_step\<close>, so that runs may be infinite.

  \<^bold>\<open>Abstractions.\<close> The positions that the router object shares between the sessions are a field of the
  session, \<open>m_last_gtid\<close>, so that what other sessions add to it is not seen. Estimated response times, which the
  program keeps as \<open>double\<close>, are whole numbers; the sizes in the cache are unbounded numbers.

  \<^bold>\<open>Not modelled.\<close> Sockets, TLS, threads and the event loop, authentication plugins, the REST API and
  the configuration of the server are I/O and glue around third-party libraries. The SQL grammars are
  third-party or generated code. Of the cache filter the rules and sessions, the variants of the storages
  that add a lock, and the storages in other processes are left out, of the monitors everything that
  queries or changes live servers. The other routers and filters are separate modules that the router
  above does not depend on.
\<close>

end
